(* ===== verification/GoStrings.thy ===== *)
theory GoStrings
  imports Prelude
begin

text \<open>
  The parts of Go's \<open>strings\<close>, \<open>strconv\<close>, \<open>bufio\<close> and \<open>path/filepath\<close>
  packages the modelled sources call, on byte strings (\<open>string\<close>, one \<open>char\<close> per
  byte), with the lemmas on them the components share.
\<close>

section \<open>White space\<close>

text \<open>
  \<open>strings.TrimSpace\<close> removes leading and trailing white space as Unicode defines it:
  six ASCII bytes, two code points of two bytes in UTF-8 (U+0085, U+00A0) and the
  three-byte ones (U+1680, U+2000 to U+200A, U+2028, U+2029, U+202F, U+205F, U+3000).
\<close>

definition asciiSpace :: "char \<Rightarrow> bool" where
  "asciiSpace c \<longleftrightarrow> c \<in> set [CHR 0x09, CHR 0x0A, CHR 0x0B, CHR 0x0C, CHR 0x0D, CHR 0x20]"

definition space2 :: "char \<Rightarrow> char \<Rightarrow> bool" where
  "space2 a b \<longleftrightarrow> a = CHR 0xC2 \<and> (b = CHR 0x85 \<or> b = CHR 0xA0)"

definition space3 :: "char \<Rightarrow> char \<Rightarrow> char \<Rightarrow> bool" where
  "space3 a b c \<longleftrightarrow>
     a = CHR 0xE1 \<and> b = CHR 0x9A \<and> c = CHR 0x80 \<or>
     a = CHR 0xE2 \<and> b = CHR 0x80 \<and>
       c \<in> set [CHR 0x80, CHR 0x81, CHR 0x82, CHR 0x83, CHR 0x84, CHR 0x85, CHR 0x86, CHR 0x87,
                CHR 0x88, CHR 0x89, CHR 0x8A, CHR 0xA8, CHR 0xA9, CHR 0xAF] \<or>
     a = CHR 0xE2 \<and> b = CHR 0x81 \<and> c = CHR 0x9F \<or>
     a = CHR 0xE3 \<and> b = CHR 0x80 \<and> c = CHR 0x80"

fun strip_spaces ::
  "(char \<Rightarrow> char \<Rightarrow> bool) \<Rightarrow> (char \<Rightarrow> char \<Rightarrow> char \<Rightarrow> bool) \<Rightarrow> string \<Rightarrow> string" where
  "strip_spaces p2 p3 (a # b # c # s) =
     (if asciiSpace a then strip_spaces p2 p3 (b # c # s)
      else if p2 a b then strip_spaces p2 p3 (c # s)
      else if p3 a b c then strip_spaces p2 p3 s
      else a # b # c # s)"
| "strip_spaces p2 p3 [a, b] =
     (if asciiSpace a then strip_spaces p2 p3 [b] else if p2 a b then [] else [a, b])"
| "strip_spaces p2 p3 [a] = (if asciiSpace a then [] else [a])"
| "strip_spaces p2 p3 [] = []"

definition TrimLeftSpace :: "string \<Rightarrow> string" where
  "TrimLeftSpace s = strip_spaces space2 space3 s"

definition TrimRightSpace :: "string \<Rightarrow> string" where
  "TrimRightSpace s = rev (strip_spaces (\<lambda>a b. space2 b a) (\<lambda>a b c. space3 c b a) (rev s))"

definition TrimSpace :: "string \<Rightarrow> string" where
  "TrimSpace s = TrimRightSpace (TrimLeftSpace s)"

section \<open>Splitting, joining, replacing\<close>

text \<open>\<open>strings.Split(s, sep)\<close> for a one-byte separator; never empty.\<close>

fun split_on :: "char \<Rightarrow> string \<Rightarrow> string list" where
  "split_on sep [] = [[]]"
| "split_on sep (c # cs) =
     (if c = sep then [] # split_on sep cs
      else (case split_on sep cs of [] \<Rightarrow> [[c]] | w # ws \<Rightarrow> (c # w) # ws))"

text \<open>\<open>strings.SplitN(s, sep, 2)\<close>: \<open>None\<close> when the separator does not occur (one part).\<close>

fun cut_at :: "char \<Rightarrow> string \<Rightarrow> (string \<times> string) option" where
  "cut_at sep [] = None"
| "cut_at sep (c # cs) =
     (if c = sep then Some ([], cs)
      else map_option (\<lambda>(a, b). (c # a, b)) (cut_at sep cs))"

fun join_with :: "string \<Rightarrow> string list \<Rightarrow> string" where
  "join_with sep [] = []"
| "join_with sep [w] = w"
| "join_with sep (w # v # ws) = w @ sep @ join_with sep (v # ws)"

text \<open>\<open>strings.ReplaceAll(s, "\r\n", "\n")\<close> and \<open>strings.TrimRight(s, "\n")\<close>.\<close>

fun ReplaceCRLF :: "string \<Rightarrow> string" where
  "ReplaceCRLF (a # b # s) =
     (if a = CHR 0x0D \<and> b = CHR 0x0A then CHR 0x0A # ReplaceCRLF s else a # ReplaceCRLF (b # s))"
| "ReplaceCRLF s = s"

definition TrimRightNL :: "string \<Rightarrow> string" where
  "TrimRightNL s = rev (dropWhile (\<lambda>c. c = CHR 0x0A) (rev s))"

fun HasPrefix :: "string \<Rightarrow> string \<Rightarrow> bool" where
  "HasPrefix s [] = True"
| "HasPrefix [] (p # ps) = False"
| "HasPrefix (c # cs) (p # ps) = (c = p \<and> HasPrefix cs ps)"

definition TrimSuffix :: "string \<Rightarrow> string \<Rightarrow> string" where
  "TrimSuffix s suf = (if HasPrefix (rev s) (rev suf) then take (length s - length suf) s else s)"

text \<open>
  \<open>strings.ToLower\<close> on the ASCII letters; bytes above 0x7F, which belong to runes
  with no case in the names the system handles, are kept.
\<close>

definition lower_char :: "char \<Rightarrow> char" where
  "lower_char c = (let n = (of_char c :: nat) in if 65 \<le> n \<and> n \<le> 90 then char_of (n + 32) else c)"

definition ToLower :: "string \<Rightarrow> string" where
  "ToLower s = map lower_char s"

section \<open>Line scanning\<close>

text \<open>
  \<open>bufio.Scanner\<close> with its default split function: lines end at \<open>\n\<close>, one trailing
  \<open>\r\<close> of each is dropped, an unterminated last line counts if it is not empty. A line
  that does not fit the 64 KiB buffer ends the scan with an error.
\<close>

definition MaxScanTokenSize :: nat where
  "MaxScanTokenSize = 65536"

definition raw_lines :: "string \<Rightarrow> string list" where
  "raw_lines s = (let ws = split_on (CHR 0x0A) s in if last ws = [] then butlast ws else ws)"

definition dropCR :: "string \<Rightarrow> string" where
  "dropCR l = (if l \<noteq> [] \<and> last l = CHR 0x0D then butlast l else l)"

definition scan_err :: "string \<Rightarrow> bool" where
  "scan_err s \<longleftrightarrow> (\<exists>l\<in>set (raw_lines s). MaxScanTokenSize \<le> length l)"

definition scan_lines :: "string \<Rightarrow> string list" where
  "scan_lines s = map dropCR (raw_lines s)"

definition unlines :: "string list \<Rightarrow> string" where
  "unlines ls = concat (map (\<lambda>l. l @ [CHR 0x0A]) ls)"

section \<open>Decimal integers\<close>

text \<open>
  \<open>int\<close> is 64 bits wide: \<open>wrap64\<close> is the two's-complement wrap-around of its
  arithmetic. \<open>Itoa\<close> and \<open>Atoi\<close> are \<open>strconv\<close>'s (\<open>Atoi\<close> takes an optional
  sign and refuses values outside the range).
\<close>

definition wrap64 :: "int \<Rightarrow> int" where
  "wrap64 n = (n + 2 ^ 63) mod 2 ^ 64 - 2 ^ 63"

definition digit :: "nat \<Rightarrow> char" where
  "digit d = char_of (48 + d)"

definition digit_val :: "char \<Rightarrow> nat option" where
  "digit_val c = (let v = (of_char c :: nat) in if 48 \<le> v \<and> v \<le> 57 then Some (v - 48) else None)"

fun nat_dec :: "nat \<Rightarrow> string" where
  "nat_dec n = (if n < 10 then [digit n] else nat_dec (n div 10) @ [digit (n mod 10)])"

declare nat_dec.simps [simp del]

definition Itoa :: "int \<Rightarrow> string" where
  "Itoa n = (if n < 0 then CHR ''-'' # nat_dec (nat (- n)) else nat_dec (nat n))"

fun dec_val :: "nat \<Rightarrow> string \<Rightarrow> nat option" where
  "dec_val acc [] = Some acc"
| "dec_val acc (c # cs) =
     (case digit_val c of None \<Rightarrow> None | Some d \<Rightarrow> dec_val (10 * acc + d) cs)"

definition in_int64 :: "int \<Rightarrow> bool" where
  "in_int64 n \<longleftrightarrow> - (2 ^ 63) \<le> n \<and> n < 2 ^ 63"

definition ranged64 :: "int \<Rightarrow> int option" where
  "ranged64 n = (if in_int64 n then Some n else None)"

definition parse_digits :: "string \<Rightarrow> nat option" where
  "parse_digits s = (if s = [] then None else dec_val 0 s)"

definition Atoi :: "string \<Rightarrow> int option" where
  "Atoi s =
     (case s of [] \<Rightarrow> None
      | c # cs \<Rightarrow>
          if c = CHR ''-'' then
            (case parse_digits cs of None \<Rightarrow> None | Some n \<Rightarrow> ranged64 (- int n))
          else
            (case parse_digits (if c = CHR ''+'' then cs else c # cs) of
               None \<Rightarrow> None | Some n \<Rightarrow> ranged64 (int n)))"

text \<open>\<open>%d\<close> padded with zeros to a width, as \<open>fmt.Sprintf("%04d", d)\<close> prints it.\<close>

definition pad_dec :: "nat \<Rightarrow> nat \<Rightarrow> string" where
  "pad_dec w n = (let s = nat_dec n in replicate (w - length s) (CHR ''0'') @ s)"

section \<open>Slash-separated paths\<close>

definition after_last :: "char \<Rightarrow> string \<Rightarrow> string" where
  "after_last c s = rev (takeWhile (\<lambda>x. x \<noteq> c) (rev s))"

definition trim_slashes :: "string \<Rightarrow> string" where
  "trim_slashes s = rev (dropWhile (\<lambda>c. c = CHR ''/'') (rev s))"

text \<open>\<open>filepath.Base\<close>: \<open>"."\<close> for the empty path, \<open>"/"\<close> for a path of slashes only.\<close>

definition Base :: "string \<Rightarrow> string" where
  "Base p =
     (if p = [] then ''.''
      else let t = trim_slashes p in
        if t = [] then ''/'' else after_last (CHR ''/'') t)"

text \<open>\<open>filepath.Ext\<close>: from the last dot of the last element on, the empty string without one.\<close>

definition Ext :: "string \<Rightarrow> string" where
  "Ext p =
     (let f = after_last (CHR ''/'') p in
      if CHR ''.'' \<in> set f then CHR ''.'' # after_last (CHR ''.'') f else [])"

text \<open>
  \<open>filepath.Clean\<close> element by element: empty elements and \<open>"."\<close> go, \<open>".."\<close> removes
  the element before it, at the root of an absolute path it goes too.
\<close>

fun clean_parts :: "bool \<Rightarrow> string list \<Rightarrow> string list \<Rightarrow> string list" where
  "clean_parts rooted acc [] = rev acc"
| "clean_parts rooted acc (w # ws) =
     (if w = [] \<or> w = ''.'' then clean_parts rooted acc ws
      else if w = ''..'' then
        (case acc of
           [] \<Rightarrow> clean_parts rooted (if rooted then [] else [w]) ws
         | a # as \<Rightarrow> if a = ''..'' then clean_parts rooted (w # acc) ws
                   else clean_parts rooted as ws)
      else clean_parts rooted (w # acc) ws)"

definition Clean :: "string \<Rightarrow> string" where
  "Clean p =
     (let rooted = (p \<noteq> [] \<and> hd p = CHR ''/'');
          body = join_with ''/'' (clean_parts rooted [] (split_on (CHR ''/'') p))
      in if rooted then CHR ''/'' # body else if body = [] then ''.'' else body)"

text \<open>\<open>filepath.Dir\<close> and \<open>filepath.Join\<close>.\<close>

definition Dir :: "string \<Rightarrow> string" where
  "Dir p = Clean (take (length p - length (after_last (CHR ''/'') p)) p)"

definition JoinPath :: "string list \<Rightarrow> string" where
  "JoinPath ps =
     (let ne = filter (\<lambda>p. p \<noteq> []) ps in if ne = [] then [] else Clean (join_with ''/'' ne))"

section \<open>Lemmas on white space\<close>

fun starts_space ::
  "(char \<Rightarrow> char \<Rightarrow> bool) \<Rightarrow> (char \<Rightarrow> char \<Rightarrow> char \<Rightarrow> bool) \<Rightarrow> string \<Rightarrow> bool" where
  "starts_space p2 p3 (a # b # c # s) = (asciiSpace a \<or> p2 a b \<or> p3 a b c)"
| "starts_space p2 p3 [a, b] = (asciiSpace a \<or> p2 a b)"
| "starts_space p2 p3 [a] = asciiSpace a"
| "starts_space p2 p3 [] = False"

lemma strip_spaces_not_starts: "\<not> starts_space p2 p3 (strip_spaces p2 p3 s)"
  by (induction p2 p3 s rule: strip_spaces.induct) auto

lemma strip_spaces_id: "\<not> starts_space p2 p3 s \<Longrightarrow> strip_spaces p2 p3 s = s"
  by (induction p2 p3 s rule: strip_spaces.induct) auto

lemma strip_spaces_suffix: "\<exists>p. s = p @ strip_spaces p2 p3 s"
  by (induction p2 p3 s rule: strip_spaces.induct) (auto, (metis append_Cons)+)

lemma starts_space_prefix: "\<not> starts_space p2 p3 (s @ t) \<Longrightarrow> \<not> starts_space p2 p3 s"
  by (induction p2 p3 s rule: strip_spaces.induct) (cases t; auto; cases "tl t"; auto)+

lemma TrimSpace_idem [simp]: "TrimSpace (TrimSpace s) = TrimSpace s"
proof -
  let ?q2 = "\<lambda>a b. space2 b a" and ?q3 = "\<lambda>a b c. space3 c b a"
  define l where "l = TrimLeftSpace s"
  have nl: "\<not> starts_space space2 space3 l"
    by (simp add: l_def TrimLeftSpace_def strip_spaces_not_starts)
  define r where "r = strip_spaces ?q2 ?q3 (rev l)"
  obtain p where p: "rev l = p @ r"
    using strip_spaces_suffix [of "rev l" ?q2 ?q3] by (auto simp: r_def)
  then have "l = rev r @ rev p"
    by (metis rev_append rev_rev_ident)
  with nl have "\<not> starts_space space2 space3 (rev r)"
    using starts_space_prefix by metis
  then have "TrimLeftSpace (rev r) = rev r"
    by (simp add: TrimLeftSpace_def strip_spaces_id)
  moreover have "TrimRightSpace (rev r) = rev r"
    by (simp add: TrimRightSpace_def strip_spaces_id r_def strip_spaces_not_starts)
  moreover have "TrimSpace s = rev r"
    by (simp add: TrimSpace_def l_def TrimRightSpace_def r_def)
  ultimately show ?thesis by (simp add: TrimSpace_def)
qed

lemma TrimSpace_Nil [simp]: "TrimSpace [] = []"
  by (simp add: TrimSpace_def TrimLeftSpace_def TrimRightSpace_def)

lemma TrimSpace_fixed_iff:
  "TrimSpace s = s \<longleftrightarrow>
     \<not> starts_space space2 space3 s \<and> \<not> starts_space (\<lambda>a b. space2 b a) (\<lambda>a b c. space3 c b a) (rev s)"
  (is "_ \<longleftrightarrow> ?L \<and> ?R")
proof
  assume fixed: "TrimSpace s = s"
  have len: "length (TrimSpace s) \<le> length (TrimLeftSpace s)"
    using strip_spaces_suffix [of "rev (TrimLeftSpace s)" "\<lambda>a b. space2 b a" "\<lambda>a b c. space3 c b a"]
    by (simp add: TrimSpace_def TrimRightSpace_def) (metis length_append length_rev le_add2)
  obtain p where p: "s = p @ TrimLeftSpace s"
    using strip_spaces_suffix [of s space2 space3] by (auto simp: TrimLeftSpace_def)
  with fixed len have "p = []"
    by (metis add_le_same_cancel2 le_zero_eq length_0_conv length_append)
  with p have l: "TrimLeftSpace s = s" by simp
  with fixed have r: "TrimRightSpace s = s" by (simp add: TrimSpace_def)
  have ?L using l strip_spaces_not_starts [of space2 space3 s] by (simp add: TrimLeftSpace_def)
  moreover have ?R
    using r strip_spaces_not_starts [of "\<lambda>a b. space2 b a" "\<lambda>a b c. space3 c b a" "rev s"]
    by (metis TrimRightSpace_def rev_rev_ident)
  ultimately show "?L \<and> ?R" by simp
next
  assume "?L \<and> ?R"
  then show "TrimSpace s = s"
    by (simp add: TrimSpace_def TrimLeftSpace_def TrimRightSpace_def strip_spaces_id)
qed

text \<open>A byte that occurs in no white-space sequence keeps both sides of it apart.\<close>

definition plain_char :: "char \<Rightarrow> bool" where
  "plain_char c \<longleftrightarrow> \<not> asciiSpace c \<and> of_char c < (128::nat)"

lemma space2_plain: "plain_char c \<Longrightarrow> \<not> space2 c x \<and> \<not> space2 x c"
  by (auto simp: plain_char_def space2_def)

lemma space3_plain: "plain_char c \<Longrightarrow> \<not> space3 c x y \<and> \<not> space3 x c y \<and> \<not> space3 x y c"
  by (auto simp: plain_char_def space3_def)

lemma starts_space_plain:
  assumes "plain_char c" and "p2 = space2 \<and> p3 = space3 \<or>
     p2 = (\<lambda>a b. space2 b a) \<and> p3 = (\<lambda>a b c. space3 c b a)"
  shows "starts_space p2 p3 (s @ c # t) \<longleftrightarrow> starts_space p2 p3 s"
proof -
  have no: "\<not> asciiSpace c" "\<And>x. \<not> p2 c x \<and> \<not> p2 x c"
    "\<And>x y. \<not> p3 c x y \<and> \<not> p3 x c y \<and> \<not> p3 x y c"
    using assms space2_plain space3_plain by (auto simp: plain_char_def)
  show ?thesis
    by (cases "(p2, p3, s)" rule: starts_space.cases; cases t; cases "tl t") (auto simp: no)
qed

lemma TrimSpace_plain_middle:
  assumes "plain_char c" "\<not> starts_space space2 space3 s"
    and "\<not> starts_space (\<lambda>a b. space2 b a) (\<lambda>a b c. space3 c b a) (rev t)"
  shows "TrimSpace (s @ c # t) = s @ c # t"
  using assms by (simp add: TrimSpace_fixed_iff starts_space_plain)

lemma TrimSpace_key_value:
  "plain_char c \<Longrightarrow> TrimSpace s = s \<Longrightarrow> TrimSpace t = t \<Longrightarrow> TrimSpace (s @ c # t) = s @ c # t"
  by (rule TrimSpace_plain_middle) (simp_all add: TrimSpace_fixed_iff)

section \<open>Lemmas on splitting and lines\<close>

lemma split_on_ne [simp]: "split_on c s \<noteq> []"
  by (induction s) (auto split: list.splits)

lemma split_on_no_sep: "c \<notin> set s \<Longrightarrow> split_on c s = [s]"
  by (induction s) auto

lemma split_on_append: "c \<notin> set w \<Longrightarrow> split_on c (w @ c # s) = w # split_on c s"
  by (induction w) auto

lemma split_on_parts: "w \<in> set (split_on c s) \<Longrightarrow> c \<notin> set w"
  by (induction s arbitrary: w) (auto split: list.splits if_splits)

lemma join_with_Cons: "ws \<noteq> [] \<Longrightarrow> join_with sep (w # ws) = w @ sep @ join_with sep ws"
  by (cases ws) auto

lemma join_split: "join_with [c] (split_on c s) = s"
proof (induction s)
  case Nil
  then show ?case by simp
next
  case (Cons a s)
  show ?case
  proof (cases "a = c")
    case True
    with Cons show ?thesis by (simp add: join_with_Cons)
  next
    case False
    obtain w ws where ws: "split_on c s = w # ws"
      by (meson list.exhaust split_on_ne)
    with Cons False show ?thesis
      by (cases ws) auto
  qed
qed

lemma split_join:
  "ws \<noteq> [] \<Longrightarrow> \<forall>w\<in>set ws. c \<notin> set w \<Longrightarrow> split_on c (join_with [c] ws) = ws"
proof (induction ws)
  case Nil
  then show ?case by simp
next
  case (Cons w ws)
  then show ?case
    by (cases "ws = []") (simp_all add: split_on_no_sep join_with_Cons split_on_append)
qed

lemma cut_at_append: "c \<notin> set k \<Longrightarrow> cut_at c (k @ c # v) = Some (k, v)"
  by (induction k) auto

lemma cut_at_None: "cut_at c s = None \<longleftrightarrow> c \<notin> set s"
  by (induction s) auto

lemma unlines_simps [simp]: "unlines [] = []" "unlines (l # ls) = l @ CHR 0x0A # unlines ls"
  by (simp_all add: unlines_def)

lemma unlines_append: "unlines (ls @ ms) = unlines ls @ unlines ms"
  by (simp add: unlines_def)

lemma split_unlines:
  "\<forall>l\<in>set ls. CHR 0x0A \<notin> set l \<Longrightarrow> split_on (CHR 0x0A) (unlines ls) = ls @ [[]]"
  by (induction ls) (auto simp: split_on_append)

lemma raw_lines_unlines: "\<forall>l\<in>set ls. CHR 0x0A \<notin> set l \<Longrightarrow> raw_lines (unlines ls) = ls"
  by (simp add: raw_lines_def split_unlines)

definition line_ok :: "string \<Rightarrow> bool" where
  "line_ok l \<longleftrightarrow> CHR 0x0A \<notin> set l \<and> (l = [] \<or> last l \<noteq> CHR 0x0D)"

lemma scan_lines_unlines: "\<forall>l\<in>set ls. line_ok l \<Longrightarrow> scan_lines (unlines ls) = ls"
  by (subst scan_lines_def, subst raw_lines_unlines)
    (auto simp: line_ok_def dropCR_def intro!: map_idI)

lemma scan_err_unlines:
  "\<forall>l\<in>set ls. line_ok l \<Longrightarrow> scan_err (unlines ls) \<longleftrightarrow> (\<exists>l\<in>set ls. MaxScanTokenSize \<le> length l)"
  by (simp add: scan_err_def raw_lines_unlines line_ok_def)

lemma scan_lines_no_nl: "l \<in> set (scan_lines s) \<Longrightarrow> CHR 0x0A \<notin> set l"
proof -
  assume "l \<in> set (scan_lines s)"
  then obtain w where w: "w \<in> set (raw_lines s)" "l = dropCR w"
    by (auto simp: scan_lines_def)
  then have "w \<in> set (split_on (CHR 0x0A) s)"
    by (auto simp: raw_lines_def Let_def split: if_splits dest: in_set_butlastD)
  then have "CHR 0x0A \<notin> set w" by (rule split_on_parts)
  with w(2) show ?thesis by (auto simp: dropCR_def split: if_splits dest: in_set_butlastD)
qed

lemma TrimRightNL_snoc [simp]: "TrimRightNL (s @ [CHR 0x0A]) = TrimRightNL s"
  by (simp add: TrimRightNL_def)

lemma TrimRightNL_id: "s = [] \<or> last s \<noteq> CHR 0x0A \<Longrightarrow> TrimRightNL s = s"
  by (cases s rule: rev_cases) (auto simp: TrimRightNL_def)

lemma ReplaceCRLF_id: "CHR 0x0D \<notin> set s \<Longrightarrow> ReplaceCRLF s = s"
  by (induction s rule: ReplaceCRLF.induct) auto

section \<open>Lemmas on decimal integers\<close>

lemma digit_val_digit [simp]: "d < 10 \<Longrightarrow> digit_val (digit d) = Some d"
  by (simp add: digit_val_def digit_def Let_def)

lemma nat_dec_ne [simp]: "nat_dec n \<noteq> []"
  by (subst nat_dec.simps) simp

lemma nat_dec_digits: "c \<in> set (nat_dec n) \<Longrightarrow> \<exists>d<10. c = digit d"
proof (induction n rule: nat_dec.induct)
  case (1 n)
  show ?case
  proof (cases "n < 10 \<or> c \<in> set (nat_dec (n div 10))")
    case True
    with 1 show ?thesis by (auto simp: nat_dec.simps [of n] split: if_splits)
  next
    case False
    with 1 have "c = digit (n mod 10)" by (simp add: nat_dec.simps [of n])
    moreover have "n mod 10 < 10" by simp
    ultimately show ?thesis by blast
  qed
qed

lemma dec_val_append: "dec_val acc (s @ t) = (case dec_val acc s of None \<Rightarrow> None | Some a \<Rightarrow> dec_val a t)"
  by (induction s arbitrary: acc) (auto split: option.splits)

lemma dec_val_nat_dec [simp]: "dec_val 0 (nat_dec n) = Some n"
proof (induction n rule: nat_dec.induct)
  case (1 n)
  then show ?case
    by (cases "n < 10") (simp_all add: nat_dec.simps [of n] dec_val_append)
qed

lemma parse_digits_nat_dec [simp]: "parse_digits (nat_dec n) = Some n"
  by (simp add: parse_digits_def)

lemma digit_neq_sign: "d < 10 \<Longrightarrow> digit d \<noteq> CHR ''-'' \<and> digit d \<noteq> CHR ''+'' \<and> digit d \<noteq> CHR ''.''"
proof -
  assume "d < 10"
  moreover have "digit_val (CHR ''-'') = None" "digit_val (CHR ''+'') = None" "digit_val (CHR ''.'') = None"
    by (simp_all add: digit_val_def)
  ultimately show ?thesis using digit_val_digit by fastforce
qed

lemma Atoi_Itoa: "in_int64 n \<Longrightarrow> Atoi (Itoa n) = Some n"
proof (cases "n < 0")
  case True
  assume "in_int64 n"
  with True show ?thesis by (simp add: Atoi_def Itoa_def ranged64_def)
next
  case False
  assume n: "in_int64 n"
  obtain c cs where c: "nat_dec (nat n) = c # cs"
    by (meson list.exhaust nat_dec_ne)
  then obtain d where "d < 10" "c = digit d"
    using nat_dec_digits [of c "nat n"] by auto
  then have "c \<noteq> CHR ''-''" "c \<noteq> CHR ''+''"
    using digit_neq_sign by auto
  then show ?thesis
    using False n c parse_digits_nat_dec [of "nat n"] by (simp add: Atoi_def Itoa_def ranged64_def)
qed

lemma Itoa_ne [simp]: "Itoa n \<noteq> []"
  by (simp add: Itoa_def)

lemma nat_dec_chars: "CHR ''.'' \<notin> set (nat_dec n)" "CHR ''-'' \<notin> set (nat_dec n)"
  using nat_dec_digits digit_neq_sign by metis+

lemma Itoa_no_dot: "CHR ''.'' \<notin> set (Itoa n)"
  by (simp add: Itoa_def nat_dec_chars)

lemma Itoa_inj_nat: "nat_dec a = nat_dec b \<Longrightarrow> a = b"
  by (metis dec_val_nat_dec option.inject)

lemma Itoa_inj: "Itoa a = Itoa b \<Longrightarrow> a = b"
proof -
  assume eq: "Itoa a = Itoa b"
  have "CHR ''-'' # s \<noteq> nat_dec n" for s n
    using nat_dec_chars(2) by (metis list.set_intros(1))
  with eq show ?thesis
    by (auto simp: Itoa_def split: if_splits dest!: Itoa_inj_nat) (metis)+
qed

lemma wrap64_id: "in_int64 n \<Longrightarrow> wrap64 n = n"
  by (simp add: wrap64_def in_int64_def)

section \<open>Plain characters\<close>

lemma starts_space_plain_Cons:
  "plain_char c \<Longrightarrow> \<not> starts_space space2 space3 (c # t)"
  "plain_char c \<Longrightarrow> \<not> starts_space (\<lambda>a b. space2 b a) (\<lambda>a b c. space3 c b a) (c # t)"
  using starts_space_plain [of c _ _ "[]" t] by auto

lemma plain_digit: "d < 10 \<Longrightarrow> plain_char (digit d)"
proof -
  assume "d < 10"
  then have "digit_val (digit d) = Some d" by simp
  moreover have "of_char (digit d) = 48 + d"
    using \<open>d < 10\<close> by (simp add: digit_def)
  moreover have "digit_val c = None" if "asciiSpace c" for c
    using that by (auto simp: asciiSpace_def digit_val_def)
  ultimately show ?thesis
    using \<open>d < 10\<close> by (fastforce simp: plain_char_def)
qed

lemma digits_plain: "\<forall>c\<in>set (nat_dec n). plain_char c"
  using nat_dec_digits plain_digit by blast

lemma length_nat_dec: "n < 10 ^ Suc k \<Longrightarrow> length (nat_dec n) \<le> Suc k"
proof (induction k arbitrary: n)
  case 0
  then show ?case by (simp add: nat_dec.simps [of n])
next
  case (Suc k)
  then have "n div 10 < 10 ^ Suc k" by (simp add: div_less_iff_less_mult)
  then have "length (nat_dec (n div 10)) \<le> Suc k" by (rule Suc.IH)
  then show ?case by (simp add: nat_dec.simps [of n])
qed

section \<open>Evaluation\<close>

text \<open>The decimal digits by integer arithmetic, for evaluation with large numbers.\<close>

function int_dec :: "int \<Rightarrow> string" where
  "int_dec n = (if n < 10 then [digit (nat n)] else int_dec (n div 10) @ [digit (nat (n mod 10))])"
  by auto
termination by (relation "measure nat") auto

declare int_dec.simps [simp del]

lemma int_dec_nat: "0 \<le> n \<Longrightarrow> int_dec n = nat_dec (nat n)"
proof (induction n rule: int_dec.induct)
  case (1 n)
  then show ?case
    by (cases "n < 10")
      (simp_all add: int_dec.simps [of n] nat_dec.simps [of "nat n"] nat_div_distrib nat_mod_distrib)
qed

lemma nat_dec_code [code]: "nat_dec n = int_dec (int n)"
  by (simp add: int_dec_nat)

lemma Itoa_code [code]: "Itoa n = (if n < 0 then CHR ''-'' # int_dec (- n) else int_dec n)"
  by (simp add: Itoa_def int_dec_nat)

end
