(* ===== verification/VersionLabels.thy ===== *)
theory VersionLabels
  imports GoStrings
begin

text \<open>
  The version labels of the file catalog (\<open>src/cmd/opendsn-api/catalog.go\<close>,
  \<open>nextGenerationLabel\<close> to \<open>formatVersionLabel\<close>): labels such as \<open>v3.1\<close> are
  parsed into lists of 64-bit integers, compared component by component and printed back.
\<close>

section \<open>Definitions\<close>

fun parse_parts :: "string list \<Rightarrow> int list option" where
  "parse_parts [] = Some []"
| "parse_parts (rawPart # rest) =
     (if rawPart = [] then None
      else case Atoi rawPart of
             None \<Rightarrow> None
           | Some value \<Rightarrow> map_option (\<lambda>parts. value # parts) (parse_parts rest))"

definition parseVersionLabel :: "string \<Rightarrow> int list option" where
  "parseVersionLabel label =
     (let l = TrimSpace label in
      if length l < 2 \<or> (hd l \<noteq> CHR ''v'' \<and> hd l \<noteq> CHR ''V'') then None
      else parse_parts (split_on (CHR ''.'') (tl l)))"

definition formatVersionLabel :: "int list \<Rightarrow> string" where
  "formatVersionLabel parts =
     (if parts = [] then ''v1'' else CHR ''v'' # join_with ''.'' (map Itoa parts))"

definition nextGenerationLabel :: "string \<Rightarrow> string" where
  "nextGenerationLabel label =
     (case parseVersionLabel label of
        None \<Rightarrow> label @ ''.1''
      | Some [] \<Rightarrow> label @ ''.1''
      | Some (p # ps) \<Rightarrow> formatVersionLabel (wrap64 (p + 1) # ps))"

text \<open>The component loop and the length comparison after it.\<close>

fun compare_parts :: "int list \<Rightarrow> int list \<Rightarrow> int" where
  "compare_parts [] [] = 0"
| "compare_parts [] (r # rs) = -1"
| "compare_parts (l # ls) [] = 1"
| "compare_parts (l # ls) (r # rs) =
     (if l \<noteq> r then (if l < r then -1 else 1) else compare_parts ls rs)"

definition compareVersionLabels :: "string \<Rightarrow> string \<Rightarrow> int" where
  "compareVersionLabels left right =
     (case (parseVersionLabel left, parseVersionLabel right) of
        (Some l, Some r) \<Rightarrow> compare_parts l r
      | (Some l, None) \<Rightarrow> -1
      | (None, Some r) \<Rightarrow> 1
      | (None, None) \<Rightarrow> (if left = right then 0 else if left < right then -1 else 1))"

section \<open>Printing and parsing\<close>

lemma parse_parts_Itoa: "\<forall>p\<in>set ps. in_int64 p \<Longrightarrow> parse_parts (map Itoa ps) = Some ps"
  by (induction ps) (auto simp: Atoi_Itoa)

lemma last_nat_dec: "plain_char (last (nat_dec n))"
  using nat_dec_digits plain_digit nat_dec_ne last_in_set by metis

lemma last_Itoa: "plain_char (last (Itoa n))"
  by (simp add: Itoa_def last_nat_dec)

lemma last_join_Itoa: "ps \<noteq> [] \<Longrightarrow> plain_char (last (join_with ''.'' (map Itoa ps)))"
proof (induction ps)
  case Nil
  then show ?case by simp
next
  case (Cons p ps)
  show ?case
  proof (cases "ps = []")
    case True
    then show ?thesis by (simp add: last_Itoa)
  next
    case False
    have "join_with ''.'' (map Itoa ps) \<noteq> []"
      using False by (cases ps; cases "tl ps") auto
    with False Cons.IH show ?thesis by (simp add: join_with_Cons)
  qed
qed

lemma TrimSpace_label:
  assumes "ps \<noteq> []"
  shows "TrimSpace (CHR ''v'' # join_with ''.'' (map Itoa ps)) = CHR ''v'' # join_with ''.'' (map Itoa ps)"
    (is "TrimSpace ?l = ?l")
proof -
  let ?j = "join_with ''.'' (map Itoa ps)"
  have ne: "?j \<noteq> []" using assms by (cases ps; cases "tl ps") auto
  have "plain_char (CHR ''v'')" by (simp add: plain_char_def asciiSpace_def)
  then have left: "\<not> starts_space space2 space3 ?l" by (rule starts_space_plain_Cons)
  obtain j c where j: "?j = j @ [c]" using ne by (metis rev_exhaust)
  then have "plain_char c" using last_join_Itoa [OF assms] by simp
  then have "\<not> starts_space (\<lambda>a b. space2 b a) (\<lambda>a b c. space3 c b a) (rev ?l)"
    using starts_space_plain_Cons(2) by (simp add: j)
  with left show ?thesis by (simp add: TrimSpace_fixed_iff)
qed

text \<open>Printing a list of components and parsing the label gives the components back.\<close>

lemma parse_format_label:
  assumes "ps \<noteq> []" and "\<forall>p\<in>set ps. in_int64 p"
  shows "parseVersionLabel (formatVersionLabel ps) = Some ps"
proof -
  have ne: "join_with ''.'' (map Itoa ps) \<noteq> []"
    using assms(1) by (cases ps; cases "tl ps") auto
  have "split_on (CHR ''.'') (join_with [CHR ''.''] (map Itoa ps)) = map Itoa ps"
    by (rule split_join) (use assms(1) Itoa_no_dot in auto)
  with assms ne show ?thesis
    by (simp add: parseVersionLabel_def formatVersionLabel_def TrimSpace_label parse_parts_Itoa)
qed

lemma format_label_inj:
  assumes "ps \<noteq> []" "qs \<noteq> []" "\<forall>p\<in>set ps. in_int64 p" "\<forall>q\<in>set qs. in_int64 q"
    and "formatVersionLabel ps = formatVersionLabel qs"
  shows "ps = qs"
  using parse_format_label assms by (metis option.inject)

lemma nextGeneration_format:
  assumes "\<forall>q\<in>set (p # ps). in_int64 q" and "in_int64 (p + 1)"
  shows "nextGenerationLabel (formatVersionLabel (p # ps)) = formatVersionLabel ((p + 1) # ps)"
  using assms parse_format_label [of "p # ps"]
  by (simp add: nextGenerationLabel_def wrap64_id)

lemma format_branch:
  assumes "ps \<noteq> []"
  shows "formatVersionLabel ps @ CHR ''.'' # Itoa k = formatVersionLabel (ps @ [k])"
proof -
  have "join_with ''.'' (map Itoa ps) @ CHR ''.'' # Itoa k = join_with ''.'' (map Itoa ps @ [Itoa k])"
    using assms
  proof (induction ps)
    case (Cons p ps)
    then show ?case by (cases "ps = []") (simp_all add: join_with_Cons)
  qed simp
  then show ?thesis using assms by (simp add: formatVersionLabel_def)
qed

section \<open>Comparing labels\<close>

lemma compare_parts_lex: "compare_parts l r = (if l = r then 0 else if l < r then -1 else 1)"
  by (induction l r rule: compare_parts.induct) auto

lemma compareVersionLabels_parsed:
  "parseVersionLabel l = Some a \<Longrightarrow> parseVersionLabel r = Some b \<Longrightarrow>
   compareVersionLabels l r = (if a = b then 0 else if a < b then -1 else 1)"
  by (simp add: compareVersionLabels_def compare_parts_lex)

lemma compareVersionLabels_format:
  assumes "ps \<noteq> []" "qs \<noteq> []" "\<forall>p\<in>set ps. in_int64 p" "\<forall>q\<in>set qs. in_int64 q"
  shows "compareVersionLabels (formatVersionLabel ps) (formatVersionLabel qs)
    = (if ps = qs then 0 else if ps < qs then -1 else 1)"
  using assms by (simp add: compareVersionLabels_parsed parse_format_label)

lemma compareVersionLabels_refl [simp]: "compareVersionLabels l l = 0"
  by (simp add: compareVersionLabels_def compare_parts_lex split: option.splits)

lemma compareVersionLabels_sym:
  "compareVersionLabels l r < 0 \<longleftrightarrow> compareVersionLabels r l > 0"
  "compareVersionLabels l r = 0 \<longleftrightarrow> compareVersionLabels r l = 0"
  by (auto simp: compareVersionLabels_def compare_parts_lex split: option.splits)

lemma compareVersionLabels_weak:
  "compareVersionLabels l n < 0 \<Longrightarrow> compareVersionLabels l m < 0 \<or> compareVersionLabels m n < 0"
  by (auto simp: compareVersionLabels_def compare_parts_lex split: option.splits if_splits)

lemma compareVersionLabels_cong:
  "compareVersionLabels l m = 0 \<Longrightarrow> compareVersionLabels m n < 0 \<Longrightarrow> compareVersionLabels l n < 0"
  "compareVersionLabels l m < 0 \<Longrightarrow> compareVersionLabels m n = 0 \<Longrightarrow> compareVersionLabels l n < 0"
  "compareVersionLabels l m = 0 \<Longrightarrow> compareVersionLabels m n = 0 \<Longrightarrow> compareVersionLabels l n = 0"
  by (auto simp: compareVersionLabels_def compare_parts_lex split: option.splits if_splits)

end
