(* ===== verification/GoOS.thy ===== *)
theory GoOS
  imports GoStrings
begin

text \<open>
  The file-system calls of Go's \<open>os\<close> package the modelled sources make, over an explicit
  state: the contents of the regular files, which paths are directories, and which paths the
  operating system refuses to examine, read or change. Refusals are part of the state, so
  that every error return of the sources is a branch of the model; no call changes them.
\<close>

section \<open>State and calls\<close>

datatype os_error = ErrNotExist | ErrOther

record world =
  content :: "string \<rightharpoonup> string"
  dirs :: "string \<Rightarrow> bool"
  stat_fails :: "string \<Rightarrow> bool"
  read_fails :: "string \<Rightarrow> bool"
  write_fails :: "string \<Rightarrow> bool"

record file_info =
  IsDir :: bool
  Size :: int

definition os_Stat :: "world \<Rightarrow> string \<Rightarrow> (os_error, file_info) outcome" where
  "os_Stat w p =
     (if stat_fails w p then Err ErrOther
      else case content w p of
             Some c \<Rightarrow> Ok \<lparr>IsDir = False, Size = int (length c)\<rparr>
           | None \<Rightarrow> if dirs w p then Ok \<lparr>IsDir = True, Size = 0\<rparr> else Err ErrNotExist)"

definition os_ReadFile :: "world \<Rightarrow> string \<Rightarrow> (os_error, string) outcome" where
  "os_ReadFile w p =
     (if read_fails w p then Err ErrOther
      else case content w p of
             Some c \<Rightarrow> Ok c
           | None \<Rightarrow> Err (if dirs w p then ErrOther else ErrNotExist))"

definition os_WriteFile :: "world \<Rightarrow> string \<Rightarrow> string \<Rightarrow> (os_error, world) outcome" where
  "os_WriteFile w p data =
     (if write_fails w p \<or> dirs w p then Err ErrOther
      else Ok (w\<lparr>content := (content w)(p \<mapsto> data)\<rparr>))"

text \<open>\<open>os.OpenFile\<close> with \<open>O_APPEND|O_CREATE|O_WRONLY\<close>, one write and close.\<close>

definition os_AppendFile :: "world \<Rightarrow> string \<Rightarrow> string \<Rightarrow> (os_error, world) outcome" where
  "os_AppendFile w p data =
     (if write_fails w p \<or> dirs w p then Err ErrOther
      else Ok (w\<lparr>content := (content w)(p \<mapsto> (case content w p of None \<Rightarrow> [] | Some c \<Rightarrow> c) @ data)\<rparr>))"

definition os_Remove :: "world \<Rightarrow> string \<Rightarrow> (os_error, world) outcome" where
  "os_Remove w p =
     (if write_fails w p then Err ErrOther
      else case content w p of
             None \<Rightarrow> Err (if dirs w p then ErrOther else ErrNotExist)
           | Some _ \<Rightarrow> Ok (w\<lparr>content := (content w)(p := None)\<rparr>))"

definition os_Rename :: "world \<Rightarrow> string \<Rightarrow> string \<Rightarrow> (os_error, world) outcome" where
  "os_Rename w old new =
     (if write_fails w old \<or> write_fails w new \<or> dirs w new then Err ErrOther
      else case content w old of
             None \<Rightarrow> Err (if dirs w old then ErrOther else ErrNotExist)
           | Some c \<Rightarrow> Ok (w\<lparr>content := (content w)(old := None, new \<mapsto> c)\<rparr>))"

definition os_MkdirAll :: "world \<Rightarrow> string \<Rightarrow> (os_error, world) outcome" where
  "os_MkdirAll w p =
     (if write_fails w p \<or> content w p \<noteq> None then Err ErrOther
      else Ok (w\<lparr>dirs := (dirs w)(p := True)\<rparr>))"

section \<open>Reading after writing\<close>

text \<open>
  What the clients of the file system rely on: a successful write is read back, and every
  other file keeps its contents.
\<close>

locale file_store =
  fixes rd :: "'w \<Rightarrow> string \<Rightarrow> (os_error, string) outcome"
    and wr :: "'w \<Rightarrow> string \<Rightarrow> string \<Rightarrow> (os_error, 'w) outcome"
    and readable :: "'w \<Rightarrow> string \<Rightarrow> bool"
  assumes rd_wr: "wr w p d = Ok w' \<Longrightarrow> readable w p \<Longrightarrow> rd w' p = Ok d"
    and rd_wr_other: "wr w p d = Ok w' \<Longrightarrow> q \<noteq> p \<Longrightarrow> rd w' q = rd w q"
    and readable_wr: "wr w p d = Ok w' \<Longrightarrow> readable w' q = readable w q"
begin

text \<open>Two writes to different files are both read back.\<close>

lemma rd_two_writes:
  assumes "wr w p d = Ok w1" "wr w1 q e = Ok w2" "p \<noteq> q" "readable w p" "readable w q"
  shows "rd w2 p = Ok d \<and> rd w2 q = Ok e"
  using assms rd_wr rd_wr_other readable_wr by metis

lemma rd_two_writes_other:
  "wr w p d = Ok w1 \<Longrightarrow> wr w1 q e = Ok w2 \<Longrightarrow> r \<noteq> p \<Longrightarrow> r \<noteq> q \<Longrightarrow> rd w2 r = rd w r"
  using rd_wr_other by metis

end

definition os_readable :: "world \<Rightarrow> string \<Rightarrow> bool" where
  "os_readable w p \<longleftrightarrow> \<not> read_fails w p"

interpretation osf: file_store os_ReadFile os_WriteFile os_readable
  by unfold_locales
    (auto simp: os_ReadFile_def os_WriteFile_def os_readable_def split: if_splits option.splits)

lemma os_ReadFile_cases:
  "os_ReadFile w p \<noteq> Panic"
  by (simp add: os_ReadFile_def split: option.splits)

lemma os_WriteFile_Ok:
  "os_WriteFile w p d = Ok w' \<longleftrightarrow>
     \<not> write_fails w p \<and> \<not> dirs w p \<and> w' = w\<lparr>content := (content w)(p \<mapsto> d)\<rparr>"
  by (auto simp: os_WriteFile_def)

section \<open>Replacing a file\<close>

text \<open>
  The catalog and the proof log both save by writing \<open>path.tmp\<close> and renaming it over
  \<open>path\<close>. \<open>ReplaceTemp\<close> and \<open>ReplaceRename\<close> say which step failed; the state is
  returned in every case, since a failed rename leaves the temporary file behind.
\<close>

datatype replace_error = ReplaceTemp | ReplaceRename

definition replace_file :: "world \<Rightarrow> string \<Rightarrow> string \<Rightarrow> world \<times> replace_error option" where
  "replace_file w path data =
     (let tmpPath = path @ ''.tmp'' in
      case os_WriteFile w tmpPath data of
        Ok w1 \<Rightarrow> (case os_Rename w1 tmpPath path of
                    Ok w2 \<Rightarrow> (w2, None)
                  | _ \<Rightarrow> (w1, Some ReplaceRename))
      | _ \<Rightarrow> (w, Some ReplaceTemp))"

lemma tmp_neq [simp]: "p @ ''.tmp'' \<noteq> p" "p \<noteq> p @ ''.tmp''"
  by simp_all

lemma replace_file_Ok:
  assumes "replace_file w path data = (w', None)"
  shows "content w' = (content w)(path @ ''.tmp'' := None, path \<mapsto> data)"
    and "dirs w' = dirs w" "stat_fails w' = stat_fails w" "read_fails w' = read_fails w"
    "write_fails w' = write_fails w"
  using assms
  by (auto simp: replace_file_def os_WriteFile_def os_Rename_def Let_def split: if_splits)

lemma replace_file_Err:
  assumes "replace_file w path data = (w', Some e)" and "q \<noteq> path @ ''.tmp''"
  shows "content w' q = content w q"
  using assms
  by (auto simp: replace_file_def os_WriteFile_def os_Rename_def Let_def split: if_splits)

lemma replace_file_frame:
  "dirs (fst (replace_file w path data)) = dirs w"
  "stat_fails (fst (replace_file w path data)) = stat_fails w"
  "read_fails (fst (replace_file w path data)) = read_fails w"
  "write_fails (fst (replace_file w path data)) = write_fails w"
  by (simp_all add: replace_file_def os_WriteFile_def os_Rename_def Let_def)

lemma replace_file_succeeds:
  assumes "\<not> write_fails w path" "\<not> write_fails w (path @ ''.tmp'')"
    and "\<not> dirs w path" "\<not> dirs w (path @ ''.tmp'')"
  shows "snd (replace_file w path data) = None"
  using assms by (simp add: replace_file_def os_WriteFile_def os_Rename_def Let_def)

text \<open>A machine with no files that refuses nothing, and one that refuses every change.\<close>

definition emptyWorld :: world where
  "emptyWorld = \<lparr>content = (\<lambda>_. None), dirs = (\<lambda>_. False), stat_fails = (\<lambda>_. False),
     read_fails = (\<lambda>_. False), write_fails = (\<lambda>_. False)\<rparr>"

definition readOnlyWorld :: world where
  "readOnlyWorld = emptyWorld\<lparr>write_fails := (\<lambda>_. True)\<rparr>"

lemma emptyWorld_simps [simp]:
  "content emptyWorld = (\<lambda>_. None)" "dirs emptyWorld = (\<lambda>_. False)" "stat_fails emptyWorld = (\<lambda>_. False)"
  "read_fails emptyWorld = (\<lambda>_. False)" "write_fails emptyWorld = (\<lambda>_. False)"
  by (simp_all add: emptyWorld_def)

end
