(* ===== verification/GoFloat.thy ===== *)
theory GoFloat
  imports GoStrings
begin

text \<open>
  The floating-point values the sources compute on the way to a printed number. A
  nonnegative \<open>float64\<close> is the pair \<open>(m, k)\<close> of integers that stands for
  \<open>m / 2^k\<close>; \<open>round53\<close> is the correctly rounded quotient (nearest, ties to even,
  53 bits; the values of the sources are far from the subnormal and the overflow range), and
  the printers round the exact binary value, as \<open>strconv\<close> does.
\<close>

definition round_half_even :: "int \<Rightarrow> int \<Rightarrow> int" where
  "round_half_even n d =
     (let q = n div d; r = n mod d in
      if 2 * r < d then q else if d < 2 * r then q + 1 else if even q then q else q + 1)"

function bitlen :: "int \<Rightarrow> nat" where
  "bitlen n = (if n \<le> 0 then 0 else Suc (bitlen (n div 2)))"
  by auto
termination by (relation "measure nat") auto

declare bitlen.simps [simp del]

definition round53 :: "int \<Rightarrow> int \<Rightarrow> int \<times> nat" where
  "round53 n d =
     (if n \<le> 0 then (0, 0)
      else let k = 54 + bitlen d - bitlen n;
               drop = bitlen (n * 2 ^ k div d) - 53
           in (round_half_even (n * 2 ^ k) (d * 2 ^ drop) * 2 ^ drop, k))"

text \<open>\<open>strconv.FormatFloat(x, 'f', p, 64)\<close> of a nonnegative value.\<close>

definition format_f :: "nat \<Rightarrow> int \<times> nat \<Rightarrow> string" where
  "format_f p x =
     (let h = round_half_even (fst x * 10 ^ p) (2 ^ snd x) in
      Itoa (h div 10 ^ p) @ ''.'' @ pad_dec p (nat (h mod 10 ^ p)))"

text \<open>
  \<open>%.pg\<close> of a value that is zero or at least one: \<open>p\<close> significant digits without
  trailing zeros, in exponent form when the decimal exponent reaches \<open>p\<close>.
\<close>

definition strip_zeros :: "string \<Rightarrow> string" where
  "strip_zeros s = rev (dropWhile (\<lambda>c. c = CHR ''0'') (rev s))"

definition format_e :: "string \<Rightarrow> nat \<Rightarrow> string" where
  "format_e digs e =
     take 1 digs @ (if length digs \<le> 1 then [] else CHR ''.'' # drop 1 digs) @ ''e+'' @ pad_dec 2 e"

definition format_plain :: "string \<Rightarrow> nat \<Rightarrow> string" where
  "format_plain digs dp =
     (if length digs \<le> dp then digs @ replicate (dp - length digs) (CHR ''0'')
      else take dp digs @ CHR ''.'' # drop dp digs)"

definition format_g :: "nat \<Rightarrow> int \<times> nat \<Rightarrow> string" where
  "format_g p x =
     (if fst x \<le> 0 then ''0''
      else
        let dp0 = length (Itoa (fst x div 2 ^ snd x));
            h0 = round_half_even (fst x * 10 ^ (p - dp0)) (2 ^ snd x * 10 ^ (dp0 - p));
            (h, dp) = (if 10 ^ p \<le> h0 then (h0 div 10, Suc dp0) else (h0, dp0));
            digs = strip_zeros (Itoa h)
        in if p < dp then format_e digs (dp - 1) else format_plain digs dp)"

section \<open>Rounding is to the nearest\<close>

lemma round_half_even_bounds:
  assumes "0 < d"
  shows "2 * (round_half_even n d * d - n) \<le> d" "2 * (n - round_half_even n d * d) \<le> d"
proof -
  have r: "0 \<le> n mod d" "n mod d < d" using assms by simp_all
  consider "round_half_even n d = n div d" "2 * (n mod d) \<le> d"
    | "round_half_even n d = n div d + 1" "d \<le> 2 * (n mod d)"
    unfolding round_half_even_def Let_def
    by (cases "2 * (n mod d) < d"; cases "d < 2 * (n mod d)"; cases "even (n div d)") auto
  then have "2 * (round_half_even n d * d - n) \<le> d \<and> 2 * (n - round_half_even n d * d) \<le> d"
  proof cases
    case 1
    have "round_half_even n d * d - n = - (n mod d)" by (simp add: 1(1) minus_mod_eq_div_mult [symmetric])
    with 1(2) r show ?thesis by simp
  next
    case 2
    have "round_half_even n d * d - n = d - n mod d" by (simp add: 2(1) distrib_right minus_mod_eq_div_mult [symmetric])
    with 2(2) r show ?thesis by simp
  qed
  then show "2 * (round_half_even n d * d - n) \<le> d" "2 * (n - round_half_even n d * d) \<le> d"
    by simp_all
qed

lemma round_half_even_exact: "0 < d \<Longrightarrow> round_half_even (q * d) d = q"
  by (simp add: round_half_even_def)

lemma round_half_even_nonneg: "0 \<le> n \<Longrightarrow> 0 < d \<Longrightarrow> 0 \<le> round_half_even n d"
  by (auto simp: round_half_even_def Let_def pos_imp_zdiv_nonneg_iff)

section \<open>Sizes of printed numbers\<close>

lemma bitlen_pos: "0 < n \<Longrightarrow> 2 ^ (bitlen n - 1) \<le> n \<and> n < 2 ^ bitlen n"
proof (induction n rule: bitlen.induct)
  case (1 n)
  show ?case
  proof (cases "n = 1")
    case True
    then show ?thesis by (simp add: bitlen.simps)
  next
    case False
    with 1 have h: "2 ^ (bitlen (n div 2) - 1) \<le> n div 2" "n div 2 < 2 ^ bitlen (n div 2)" by auto
    have b: "bitlen n = Suc (bitlen (n div 2))" using 1(2) by (simp add: bitlen.simps [of n])
    have "bitlen (n div 2) = Suc (bitlen (n div 2) - 1)"
      using 1(2) False by (simp add: bitlen.simps [of "n div 2"])
    then have "(2::int) ^ bitlen (n div 2) = 2 * 2 ^ (bitlen (n div 2) - 1)" by (metis power_Suc)
    moreover have "2 * (n div 2) \<le> n" "n < 2 * (n div 2) + 2" by linarith+
    ultimately show ?thesis using h b by simp
  qed
qed

text \<open>Rounding at most doubles a value (it changes it by one part in \<open>2^53\<close>).\<close>

lemma round53_le:
  assumes "0 \<le> n" "0 < d" "round53 n d = (m, k)"
  shows "0 \<le> m" "m * d \<le> 2 * n * 2 ^ k"
proof -
  show "0 \<le> m"
    using assms by (auto simp: round53_def Let_def round_half_even_nonneg split: if_splits)
  show "m * d \<le> 2 * n * 2 ^ k"
  proof (cases "n \<le> 0")
    case True
    with assms show ?thesis by (auto simp: round53_def)
  next
    case False
    define N where "N = n * 2 ^ k"
    define drop where "drop = bitlen (N div d) - 53"
    have k: "k = 54 + bitlen d - bitlen n" and m: "m = round_half_even N (d * 2 ^ drop) * 2 ^ drop"
      using assms False by (auto simp: round53_def Let_def N_def drop_def)
    have "2 * (round_half_even N (d * 2 ^ drop) * (d * 2 ^ drop) - N) \<le> d * 2 ^ drop"
      using assms(2) by (intro round_half_even_bounds) simp
    then have r: "2 * (m * d) \<le> 2 * N + d * 2 ^ drop"
      by (simp add: m algebra_simps)
    have "d * 2 ^ drop \<le> 2 * N"
    proof (cases "drop = 0")
      case True
      have n: "2 ^ (bitlen n - 1) \<le> n" "d < 2 ^ bitlen d"
        using bitlen_pos False assms(2) by auto
      have "bitlen d \<le> bitlen n - 1 + k" using k by simp
      then have "(2::int) ^ bitlen d \<le> 2 ^ (bitlen n - 1) * 2 ^ k"
        by (simp add: power_add [symmetric])
      also have "\<dots> \<le> N" using n(1) by (simp add: N_def)
      finally have "d < N" using n(2) by simp
      moreover have "0 \<le> N" using assms(1) by (simp add: N_def)
      ultimately show ?thesis using True by simp
    next
      case drop0: False
      then have "0 < N div d"
        by (metis bitlen.simps diff_is_0_eq' drop_def linorder_not_less zero_le)
      then have q: "2 ^ (bitlen (N div d) - 1) \<le> N div d" using bitlen_pos by blast
      have "(2::int) ^ drop \<le> 2 ^ (bitlen (N div d) - 1)" by (simp add: drop_def)
      with q have "2 ^ drop \<le> N div d" by linarith
      then have "d * 2 ^ drop \<le> d * (N div d)" using assms(2) by simp
      also have "\<dots> \<le> N"
        using assms(2) by (metis add_le_same_cancel1 div_mult_mod_eq le_add_same_cancel1 mult.commute pos_mod_sign)
      finally have "d * 2 ^ drop \<le> N" .
      moreover have "0 \<le> N" using assms(1) by (simp add: N_def)
      ultimately show ?thesis by simp
    qed
    with r show ?thesis by (simp add: N_def)
  qed
qed

lemma round_half_even_le: "0 \<le> n \<Longrightarrow> 0 < d \<Longrightarrow> n \<le> b * d \<Longrightarrow> round_half_even n d \<le> b + 1"
proof -
  assume a: "0 \<le> n" "0 < d" "n \<le> b * d"
  then have "n div d \<le> b" using zdiv_mono1 [of n "b * d" d] by simp
  then show ?thesis by (auto simp: round_half_even_def Let_def)
qed

lemma length_format_f:
  assumes "0 \<le> fst x" "fst x \<le> b * 2 ^ snd x" "0 \<le> b" "b * 10 ^ p < 10 ^ Suc c"
  shows "length (format_f p x) \<le> c + 2 * p + 4"
proof -
  define h where "h = round_half_even (fst x * 10 ^ p) (2 ^ snd x)"
  have "fst x * 10 ^ p \<le> b * 10 ^ p * 2 ^ snd x"
    using mult_right_mono [OF assms(2), of "10 ^ p"] by (simp add: mult.assoc mult.commute)
  then have h: "0 \<le> h" "h \<le> b * 10 ^ p + 1"
    unfolding h_def using assms(1) by (auto intro: round_half_even_nonneg round_half_even_le)
  have h10: "h div 10 ^ p \<le> h"
    using zdiv_mono2 [OF h(1), of 1 "10 ^ p"] by simp
  have "h div 10 ^ p \<le> 10 ^ Suc c" using h(2) h10 assms(4) by linarith
  also have "(10::int) ^ Suc c < 10 ^ Suc (Suc c)" by simp
  finally have "nat (h div 10 ^ p) < 10 ^ Suc (Suc c)"
    by (metis nat_less_numeral_power_cancel_iff)
  then have "length (Itoa (h div 10 ^ p)) \<le> Suc (Suc c)"
    using h(1) length_nat_dec by (simp add: Itoa_def pos_imp_zdiv_nonneg_iff not_less)
  moreover have "length (pad_dec p (nat (h mod 10 ^ p))) \<le> Suc p"
  proof -
    have "h mod 10 ^ p < 10 ^ Suc p"
      by (metis less_trans lessI pos_mod_bound power_strict_increasing_iff zero_less_numeral zero_less_power one_less_numeral_iff semiring_norm(76))
    then have "nat (h mod 10 ^ p) < 10 ^ Suc p"
      by (metis nat_less_numeral_power_cancel_iff)
    then have "length (nat_dec (nat (h mod 10 ^ p))) \<le> Suc p" by (rule length_nat_dec)
    then show ?thesis by (simp add: pad_dec_def Let_def)
  qed
  ultimately show ?thesis by (simp add: format_f_def h_def Let_def)
qed

end
