(* ===== verification/Catalog.thy ===== *)
theory Catalog
  imports VersionLabels GoOS GoFloat
begin

text \<open>
  The file catalog of the OpenDSN API server (\<open>src/cmd/opendsn-api/catalog.go\<close> with its
  record types from \<open>types.go\<close>): a list of files, each with its versions; recording an
  initial version or a patch, normalising the version tree into labels, and saving the
  catalog by replacing its JSON file.
\<close>

section \<open>Data\<close>

record CatalogVersion =
  CID :: string
  VRootCID :: string
  VersionLabel :: string
  PreviousCID :: string
  PreviousVersionLabel :: string
  MinerIndex :: string
  SourceName :: string
  SizeBytes :: int
  SizeMB :: string
  UploadedAt :: string
  Kind :: string

record CatalogFile =
  RootCID :: string
  DisplayName :: string
  Extension :: string
  CreatedAt :: string
  Versions :: "CatalogVersion list"

text \<open>The catalog is its list of files.\<close>

record Catalog =
  Files :: "CatalogFile list"

section \<open>Names and sizes\<close>

definition deriveSourceName :: "string \<Rightarrow> string \<Rightarrow> string \<Rightarrow> string" where
  "deriveSourceName sourcePath displayName fallback =
     (let candidate = TrimSpace displayName in
      if candidate \<noteq> [] then Base candidate
      else if TrimSpace sourcePath \<noteq> [] then Base sourcePath
      else fallback)"

text \<open>
  \<open>float64(sizeBytes)/(1024*1024)\<close> printed with \<open>%.2f\<close>: the conversion rounds an
  integer of more than 53 bits to the nearest even, the division by a power of two is exact,
  and the printing rounds the exact value to the nearest hundredth, ties to even.
\<close>

definition formatSizeMB :: "int \<Rightarrow> string" where
  "formatSizeMB sizeBytes =
     (if sizeBytes \<le> 0 then ''0.00''
      else let (m, k) = round53 sizeBytes 1 in format_f 2 (m, k + 20))"

section \<open>Searching\<close>

definition findVersionIndex :: "CatalogVersion list \<Rightarrow> string \<Rightarrow> nat option" where
  "findVersionIndex versions cid = find_index (\<lambda>v. CID v = cid) versions"

definition findFileIndexByRoot :: "Catalog \<Rightarrow> string \<Rightarrow> nat option" where
  "findFileIndexByRoot catalog root = find_index (\<lambda>f. RootCID f = root) (Files catalog)"

fun findLocation :: "CatalogFile list \<Rightarrow> string \<Rightarrow> (nat \<times> nat) option" where
  "findLocation [] cid = None"
| "findLocation (f # fs) cid =
     (case findVersionIndex (Versions f) cid of
        Some versionIndex \<Rightarrow> Some (0, versionIndex)
      | None \<Rightarrow> map_option (\<lambda>(i, j). (Suc i, j)) (findLocation fs cid))"

definition findVersionLocation :: "Catalog \<Rightarrow> string \<Rightarrow> (nat \<times> nat) option" where
  "findVersionLocation catalog cid = findLocation (Files catalog) cid"

section \<open>Normalising the versions of a file\<close>

text \<open>The first loop: fields every version gets.\<close>

definition normalizeFields :: "CatalogFile \<Rightarrow> CatalogVersion \<Rightarrow> CatalogVersion" where
  "normalizeFields file v =
     (let v = v\<lparr>VRootCID := RootCID file\<rparr>;
          v = (if TrimSpace (SourceName v) = [] then v\<lparr>SourceName := DisplayName file\<rparr> else v);
          v = (if Kind v = []
               then v\<lparr>Kind := (if CID v = RootCID file then ''initial'' else ''patch'')\<rparr> else v)
      in if SizeMB v = [] then v\<lparr>SizeMB := formatSizeMB (SizeBytes v)\<rparr> else v)"

text \<open>The comparator of siblings, and the sorted child indices of a CID.\<close>

definition child_less :: "CatalogVersion \<Rightarrow> CatalogVersion \<Rightarrow> bool" where
  "child_less l r =
     (if UploadedAt l \<noteq> UploadedAt r then UploadedAt l < UploadedAt r
      else if SourceName l \<noteq> SourceName r then SourceName l < SourceName r
      else CID l < CID r)"

definition childIndices :: "CatalogVersion list \<Rightarrow> string \<Rightarrow> nat list" where
  "childIndices vs cid =
     sort_by (\<lambda>i j. child_less (vs ! i) (vs ! j))
       (filter (\<lambda>i. let previousCID = TrimSpace (PreviousCID (vs ! i))
                    in previousCID \<noteq> [] \<and> previousCID = cid) [0..<length vs])"

text \<open>
  The closure \<open>walkTree\<close> and the three variables it captures. The recursive calls are the
  last things a call does, so a list of the calls still to make takes the place of the Go
  stack: a call made first is first in the list. Indices come from ranges over the versions;
  a call with any other index does nothing.
\<close>

record walk =
  visited :: "string list"
  labelByCID :: "string \<rightharpoonup> string"
  orderedIndices :: "nat list"

definition childCalls :: "nat list \<Rightarrow> string \<Rightarrow> (nat \<times> string) list" where
  "childCalls childIxs label =
     (case childIxs of
        [] \<Rightarrow> []
      | first # rest \<Rightarrow>
          (let continuationLabel = nextGenerationLabel label in
           (first, continuationLabel) #
           map (\<lambda>(branchOffset, childIndex).
                  (childIndex, continuationLabel @ ''.'' @ Itoa (int branchOffset + 1)))
             (enumerate 0 rest)))"

definition visit :: "CatalogVersion list \<Rightarrow> nat \<Rightarrow> string \<Rightarrow> walk \<Rightarrow> walk" where
  "visit vs i label st =
     st\<lparr>visited := CID (vs ! i) # visited st,
        labelByCID := (labelByCID st)(CID (vs ! i) \<mapsto> label),
        orderedIndices := orderedIndices st @ [i]\<rparr>"

lemma card_visit_less:
  assumes "i < length vs" and "CID (vs ! i) \<notin> set (visited st)"
  shows "card (CID ` set vs - set (visited (visit vs i label st)))
       < card (CID ` set vs - set (visited st))"
proof -
  let ?A = "CID ` set vs - set (visited st)"
  have "CID (vs ! i) \<in> ?A" using assms by simp
  moreover have "CID ` set vs - insert (CID (vs ! i)) (set (visited st)) = ?A - {CID (vs ! i)}"
    by auto
  ultimately have "card (CID ` set vs - insert (CID (vs ! i)) (set (visited st))) < card ?A"
    by (metis List.finite_set card_Diff1_less finite_Diff finite_imageI)
  then show ?thesis by (simp add: visit_def)
qed

function walkTree :: "CatalogVersion list \<Rightarrow> (nat \<times> string) list \<Rightarrow> walk \<Rightarrow> walk" where
  "walkTree vs [] st = st"
| "walkTree vs ((versionIndex, label) # todo) st =
     (if length vs \<le> versionIndex \<or> CID (vs ! versionIndex) \<in> set (visited st)
      then walkTree vs todo st
      else walkTree vs (childCalls (childIndices vs (CID (vs ! versionIndex))) label @ todo)
             (visit vs versionIndex label st))"
  by pat_completeness auto
termination
  by (relation "measures [\<lambda>(vs, todo, st). card (CID ` set vs - set (visited st)),
                          \<lambda>(vs, todo, st). length todo]")
    (auto simp: card_visit_less not_le)

declare walkTree.simps(2) [simp del]

text \<open>The versions no call has reached become roots of trees of their own.\<close>

fun orphanLoop :: "CatalogVersion list \<Rightarrow> nat list \<Rightarrow> int \<Rightarrow> walk \<Rightarrow> walk" where
  "orphanLoop vs [] orphanCount st = st"
| "orphanLoop vs (index # rest) orphanCount st =
     (if CID (vs ! index) \<in> set (visited st) then orphanLoop vs rest orphanCount st
      else
        let orphanSeed = int (length vs) + 1;
            orphanBlockSize = int (length vs) + 1;
            fallbackLabel = CHR ''v'' # Itoa (wrap64 (orphanSeed + orphanCount * orphanBlockSize))
        in orphanLoop vs rest (orphanCount + 1) (walkTree vs [(index, fallbackLabel)] st))"

definition walkAll :: "CatalogVersion list \<Rightarrow> nat \<Rightarrow> walk" where
  "walkAll vs rootIndex =
     (let st0 = \<lparr>visited = [], labelByCID = (\<lambda>_. None), orderedIndices = []\<rparr>;
          st1 = walkTree vs [(rootIndex, ''v1'')] st0
      in if length (orderedIndices st1) < length vs
         then orphanLoop vs [0..<length vs] 0 st1 else st1)"

definition relabel :: "(string \<rightharpoonup> string) \<Rightarrow> CatalogVersion \<Rightarrow> CatalogVersion" where
  "relabel labels version =
     version\<lparr>VersionLabel := (case labels (CID version) of None \<Rightarrow> [] | Some l \<Rightarrow> l),
             PreviousVersionLabel := (case labels (PreviousCID version) of None \<Rightarrow> [] | Some l \<Rightarrow> l)\<rparr>"

definition version_less :: "CatalogVersion \<Rightarrow> CatalogVersion \<Rightarrow> bool" where
  "version_less l r =
     (let compare = compareVersionLabels (VersionLabel l) (VersionLabel r) in
      if compare \<noteq> 0 then compare < 0
      else if UploadedAt l \<noteq> UploadedAt r then UploadedAt l < UploadedAt r
      else CID l < CID r)"

definition rootIndexOf :: "CatalogFile \<Rightarrow> nat" where
  "rootIndexOf file =
     (case findVersionIndex (Versions file) (RootCID file) of Some i \<Rightarrow> i | None \<Rightarrow> 0)"

definition normalizeVersions :: "CatalogFile \<Rightarrow> CatalogFile" where
  "normalizeVersions file =
     (if Versions file = [] then file
      else
        let vs = map (normalizeFields file) (Versions file);
            st = walkAll vs (rootIndexOf file);
            orderedVersions = map (\<lambda>i. relabel (labelByCID st) (vs ! i)) (orderedIndices st)
        in file\<lparr>Versions := sort_by version_less orderedVersions\<rparr>)"

text \<open>All files, and the order of the files.\<close>

definition file_less :: "CatalogFile \<Rightarrow> CatalogFile \<Rightarrow> bool" where
  "file_less l r =
     (let left = ToLower (DisplayName l); right = ToLower (DisplayName r) in
      if left \<noteq> right then left < right else CreatedAt l < CreatedAt r)"

definition normalize :: "Catalog \<Rightarrow> Catalog" where
  "normalize catalog =
     catalog\<lparr>Files := sort_by file_less (map normalizeVersions (Files catalog))\<rparr>"

section \<open>Recording versions\<close>

datatype catalog_error =
    ReadCatalog | ParseCatalog | MkdirCatalog | MarshalCatalog | WriteCatalogTemp | ReplaceCatalog
  | PreviousMissing string | NotFoundAfterNormalize string

type_synonym recorded = "Catalog \<times> CatalogFile \<times> CatalogVersion"

text \<open>\<open>catalog.Files[i]\<close> and \<open>.Versions[j]\<close> with the indices just found.\<close>

definition pickRoot :: "Catalog \<Rightarrow> string \<Rightarrow> (catalog_error, recorded) outcome" where
  "pickRoot catalog root =
     (case findFileIndexByRoot catalog root of
        None \<Rightarrow> Panic
      | Some i \<Rightarrow>
          (case findVersionIndex (Versions (Files catalog ! i)) root of
             None \<Rightarrow> Panic
           | Some j \<Rightarrow> Ok (catalog, Files catalog ! i, Versions (Files catalog ! i) ! j)))"

definition initialVersion ::
  "string \<Rightarrow> string \<Rightarrow> int \<Rightarrow> string \<Rightarrow> string \<Rightarrow> CatalogVersion" where
  "initialVersion root sourceName sizeBytes minerIndex uploadedAt =
     \<lparr>CID = root, VRootCID = root, VersionLabel = ''v1'', PreviousCID = [],
      PreviousVersionLabel = [], MinerIndex = minerIndex, SourceName = sourceName,
      SizeBytes = sizeBytes, SizeMB = formatSizeMB sizeBytes, UploadedAt = uploadedAt,
      Kind = ''initial''\<rparr>"

definition fillFile :: "string \<Rightarrow> string \<Rightarrow> string \<Rightarrow> CatalogFile \<Rightarrow> CatalogFile" where
  "fillFile sourceName ext uploadedAt file =
     (let file = (if TrimSpace (DisplayName file) = [] then file\<lparr>DisplayName := sourceName\<rparr> else file);
          file = (if TrimSpace (Extension file) = [] then file\<lparr>Extension := ext\<rparr> else file)
      in if TrimSpace (CreatedAt file) = [] then file\<lparr>CreatedAt := uploadedAt\<rparr> else file)"

definition upsertInitialVersion ::
  "Catalog \<Rightarrow> string \<Rightarrow> string \<Rightarrow> string \<Rightarrow> int \<Rightarrow> string \<Rightarrow> string \<Rightarrow> (catalog_error, recorded) outcome"
where
  "upsertInitialVersion catalog root sourcePath displayName sizeBytes minerIndex uploadedAt =
     (let sourceName = deriveSourceName sourcePath displayName root;
          ext = ToLower (Ext sourceName);
          version = initialVersion root sourceName sizeBytes minerIndex uploadedAt
      in case findFileIndexByRoot catalog root of
           Some fileIndex \<Rightarrow>
             (let file = fillFile sourceName ext uploadedAt (Files catalog ! fileIndex);
                  file = (case findVersionIndex (Versions file) root of
                            Some _ \<Rightarrow> file
                          | None \<Rightarrow> file\<lparr>Versions := Versions file @ [version]\<rparr>)
              in pickRoot (normalize (catalog\<lparr>Files := (Files catalog)[fileIndex := file]\<rparr>)) root)
         | None \<Rightarrow>
             (let file = \<lparr>RootCID = root, DisplayName = sourceName, Extension = ext,
                          CreatedAt = uploadedAt, Versions = [version]\<rparr>
              in pickRoot (normalize (catalog\<lparr>Files := Files catalog @ [file]\<rparr>)) root))"

definition appendPatchVersion ::
  "Catalog \<Rightarrow> string \<Rightarrow> string \<Rightarrow> string \<Rightarrow> string \<Rightarrow> int \<Rightarrow> string \<Rightarrow> string \<Rightarrow>
   (catalog_error, recorded) outcome" where
  "appendPatchVersion catalog cid previousCID sourcePath displayName sizeBytes minerIndex uploadedAt =
     (case findVersionLocation catalog previousCID of
        None \<Rightarrow> Err (PreviousMissing previousCID)
      | Some (fileIndex, previousVersionIndex) \<Rightarrow>
          (let file = Files catalog ! fileIndex in
           case findVersionIndex (Versions file) cid of
             Some versionIndex \<Rightarrow> Ok (catalog, file, Versions file ! versionIndex)
           | None \<Rightarrow>
               (let previousVersion = Versions file ! previousVersionIndex;
                    version =
                      \<lparr>CID = cid, VRootCID = RootCID file, VersionLabel = [],
                       PreviousCID = CID previousVersion, PreviousVersionLabel = [],
                       MinerIndex = minerIndex,
                       SourceName = deriveSourceName sourcePath displayName cid,
                       SizeBytes = sizeBytes, SizeMB = formatSizeMB sizeBytes,
                       UploadedAt = uploadedAt, Kind = ''patch''\<rparr>;
                    catalog' = normalize (catalog\<lparr>Files := (Files catalog)
                      [fileIndex := file\<lparr>Versions := Versions file @ [version]\<rparr>]\<rparr>)
                in case findVersionLocation catalog' cid of
                     None \<Rightarrow> Err (NotFoundAfterNormalize cid)
                   | Some (i, j) \<Rightarrow>
                       Ok (catalog', Files catalog' ! i, Versions (Files catalog' ! i) ! j))))"

section \<open>Loading and saving\<close>

text \<open>
  \<open>encoding/json\<close> is a parameter: \<open>marshal\<close> is \<open>json.MarshalIndent\<close> on a catalog
  and \<open>unmarshal\<close> is \<open>json.Unmarshal\<close> into one.
\<close>

definition catalogPath :: "string \<Rightarrow> string" where
  "catalogPath repoRoot = JoinPath [repoRoot, ''.opendsn_catalog'', ''catalog.json'']"

definition loadCatalogLocked ::
  "(string \<Rightarrow> Catalog option) \<Rightarrow> string \<Rightarrow> world \<Rightarrow> (catalog_error, Catalog) outcome" where
  "loadCatalogLocked unmarshal repoRoot w =
     (case os_ReadFile w (catalogPath repoRoot) of
        Err ErrNotExist \<Rightarrow> Ok \<lparr>Files = []\<rparr>
      | Err ErrOther \<Rightarrow> Err ReadCatalog
      | Panic \<Rightarrow> Panic
      | Ok data \<Rightarrow>
          (case unmarshal data of
             None \<Rightarrow> Err ParseCatalog
           | Some catalog \<Rightarrow> Ok (normalize catalog)))"

text \<open>The state after the call and its error, if any.\<close>

definition saveCatalogLocked ::
  "(Catalog \<Rightarrow> string option) \<Rightarrow> string \<Rightarrow> Catalog \<Rightarrow> world \<Rightarrow> world \<times> catalog_error option" where
  "saveCatalogLocked marshal repoRoot catalog w =
     (let catalog = normalize catalog in
      case os_MkdirAll w (Dir (catalogPath repoRoot)) of
        Ok w1 \<Rightarrow>
          (case marshal catalog of
             None \<Rightarrow> (w1, Some MarshalCatalog)
           | Some data \<Rightarrow>
               (case replace_file w1 (catalogPath repoRoot) (data @ [CHR 0x0A]) of
                  (w2, None) \<Rightarrow> (w2, None)
                | (w2, Some ReplaceTemp) \<Rightarrow> (w2, Some WriteCatalogTemp)
                | (w2, Some ReplaceRename) \<Rightarrow> (w2, Some ReplaceCatalog)))
      | _ \<Rightarrow> (w, Some MkdirCatalog))"

definition readCatalog ::
  "(string \<Rightarrow> Catalog option) \<Rightarrow> string \<Rightarrow> world \<Rightarrow> (catalog_error, Catalog) outcome" where
  "readCatalog unmarshal repoRoot w = loadCatalogLocked unmarshal repoRoot w"

definition saveRecorded ::
  "(Catalog \<Rightarrow> string option) \<Rightarrow> string \<Rightarrow> world \<Rightarrow> (catalog_error, recorded) outcome \<Rightarrow>
   world \<times> (catalog_error, CatalogFile \<times> CatalogVersion) outcome" where
  "saveRecorded marshal repoRoot w r =
     (case r of
        Err e \<Rightarrow> (w, Err e)
      | Panic \<Rightarrow> (w, Panic)
      | Ok (catalog, file, version) \<Rightarrow>
          (case saveCatalogLocked marshal repoRoot catalog w of
             (w', None) \<Rightarrow> (w', Ok (file, version))
           | (w', Some e) \<Rightarrow> (w', Err e)))"

definition recordInitialVersion ::
  "(Catalog \<Rightarrow> string option) \<Rightarrow> (string \<Rightarrow> Catalog option) \<Rightarrow> string \<Rightarrow> world \<Rightarrow>
   string \<Rightarrow> string \<Rightarrow> string \<Rightarrow> int \<Rightarrow> string \<Rightarrow> string \<Rightarrow>
   world \<times> (catalog_error, CatalogFile \<times> CatalogVersion) outcome" where
  "recordInitialVersion marshal unmarshal repoRoot w root sourcePath displayName sizeBytes minerIndex
     uploadedAt =
     saveRecorded marshal repoRoot w
       (bindO (loadCatalogLocked unmarshal repoRoot w)
         (\<lambda>catalog. upsertInitialVersion catalog root sourcePath displayName sizeBytes minerIndex
                      uploadedAt))"

definition recordPatchVersion ::
  "(Catalog \<Rightarrow> string option) \<Rightarrow> (string \<Rightarrow> Catalog option) \<Rightarrow> string \<Rightarrow> world \<Rightarrow>
   string \<Rightarrow> string \<Rightarrow> string \<Rightarrow> string \<Rightarrow> int \<Rightarrow> string \<Rightarrow> string \<Rightarrow>
   world \<times> (catalog_error, CatalogFile \<times> CatalogVersion) outcome" where
  "recordPatchVersion marshal unmarshal repoRoot w cid previousCID sourcePath displayName sizeBytes
     minerIndex uploadedAt =
     saveRecorded marshal repoRoot w
       (bindO (loadCatalogLocked unmarshal repoRoot w)
         (\<lambda>catalog. appendPatchVersion catalog cid previousCID sourcePath displayName sizeBytes
                      minerIndex uploadedAt))"

end
