(* ===== verification/KeyValueLog.thy ===== *)
theory KeyValueLog
  imports GoOS
begin

text \<open>
  The \<open>key=value\<close> log files the miner writes and the API server reads
  (\<open>proof_info.log\<close>, \<open>miner_info.log\<close>): the scanning loop that \<open>loadState\<close>,
  \<open>parseProofInfo\<close> and \<open>parseMinerInfo\<close> share, and the contract between a writer's list of
  lines and a reader's \<open>switch\<close>.
\<close>

section \<open>Scanning and rendering\<close>

text \<open>One line: trimmed, skipped when empty or without \<open>=\<close>, else the trimmed key and value.\<close>

definition kv_line :: "string \<Rightarrow> (string \<times> string) option" where
  "kv_line text =
     (let line = TrimSpace text in
      if line = [] then None
      else map_option (\<lambda>(k, v). (TrimSpace k, TrimSpace v)) (cut_at (CHR ''='') line))"

definition kv_step :: "(string \<Rightarrow> string \<Rightarrow> 's \<Rightarrow> 's) \<Rightarrow> string \<Rightarrow> 's \<Rightarrow> 's" where
  "kv_step put line s = (case kv_line line of None \<Rightarrow> s | Some (k, v) \<Rightarrow> put k v s)"

definition kv_scan :: "(string \<Rightarrow> string \<Rightarrow> 's \<Rightarrow> 's) \<Rightarrow> string \<Rightarrow> 's \<Rightarrow> 's" where
  "kv_scan put text s = fold (kv_step put) (scan_lines text) s"

text \<open>A line to write: an entry or an empty line.\<close>

definition kv_render :: "(string \<times> string) option \<Rightarrow> string" where
  "kv_render e = (case e of None \<Rightarrow> [] | Some (k, v) \<Rightarrow> k @ ''='' @ v)"

definition kv_file :: "(string \<times> string) option list \<Rightarrow> string" where
  "kv_file es = join_with [CHR 0x0A] (map kv_render es) @ [CHR 0x0A]"

section \<open>A rendered line is read back\<close>

definition key_ok :: "string \<Rightarrow> bool" where
  "key_ok k \<longleftrightarrow> k \<noteq> [] \<and> TrimSpace k = k \<and> CHR ''='' \<notin> set k \<and> CHR 0x0A \<notin> set k"

definition val_ok :: "string \<Rightarrow> bool" where
  "val_ok v \<longleftrightarrow> TrimSpace v = v \<and> CHR 0x0A \<notin> set v"

lemma plain_eq: "plain_char (CHR ''='')"
  by (simp add: plain_char_def asciiSpace_def)

lemma starts_space_snoc:
  "s \<noteq> [] \<Longrightarrow> \<not> starts_space space2 space3 s \<Longrightarrow> \<not> starts_space space2 space3 (s @ [CHR '' ''])"
  by (induction space2 space3 s rule: strip_spaces.induct) (auto simp: space2_def space3_def)

lemma TrimSpace_trailing:
  assumes "TrimSpace s = s" "s \<noteq> []"
  shows "TrimSpace (s @ '' '') = s"
proof -
  let ?q2 = "\<lambda>a b. space2 b a" and ?q3 = "\<lambda>a b c. space3 c b a"
  have "TrimLeftSpace (s @ '' '') = s @ '' ''"
    using assms starts_space_snoc by (simp add: TrimLeftSpace_def strip_spaces_id TrimSpace_fixed_iff)
  moreover have "strip_spaces ?q2 ?q3 (CHR '' '' # r) = strip_spaces ?q2 ?q3 r" for r
    by (cases r; cases "tl r") (auto simp: asciiSpace_def)
  moreover have "strip_spaces ?q2 ?q3 (rev s) = rev s"
    using assms by (simp add: strip_spaces_id TrimSpace_fixed_iff)
  ultimately show ?thesis by (simp add: TrimSpace_def TrimRightSpace_def)
qed

text \<open>A value that is trimmed, or trimmed but for one space at its end.\<close>

definition val_line :: "string \<Rightarrow> bool" where
  "val_line v \<longleftrightarrow> CHR 0x0A \<notin> set v \<and> (TrimSpace v = v \<or> v = TrimSpace v @ '' '')"

lemma val_ok_line: "val_ok v \<Longrightarrow> val_line v"
  by (simp add: val_ok_def val_line_def)

lemma kv_line_render:
  assumes "key_ok k" "val_line v"
  shows "kv_line (k @ CHR ''='' # v) = Some (k, TrimSpace v)"
proof -
  have trimmed: "TrimSpace (k @ CHR ''='' # TrimSpace v) = k @ CHR ''='' # TrimSpace v"
    using TrimSpace_key_value [OF plain_eq, of k "TrimSpace v"] assms(1) by (simp add: key_ok_def)
  have "TrimSpace (k @ CHR ''='' # v) = k @ CHR ''='' # TrimSpace v"
  proof (cases "TrimSpace v = v")
    case True
    with trimmed show ?thesis by simp
  next
    case False
    with assms(2) have "k @ CHR ''='' # v = (k @ CHR ''='' # TrimSpace v) @ '' ''"
      by (simp add: val_line_def)
    then show ?thesis using TrimSpace_trailing [OF trimmed] by simp
  qed
  with assms(1) show ?thesis by (simp add: kv_line_def Let_def cut_at_append key_ok_def)
qed

lemma TrimSpace_last_CR: "TrimSpace v = v \<Longrightarrow> v \<noteq> [] \<Longrightarrow> last v \<noteq> CHR 0x0D"
proof
  assume v: "TrimSpace v = v" "v \<noteq> []" "last v = CHR 0x0D"
  then obtain u where "rev v = CHR 0x0D # u"
    by (metis append_butlast_last_id rev.simps(2) rev_rev_ident rev_append rev_singleton_conv append_Cons append_Nil)
  with v show False
    by (cases u; cases "tl u") (auto simp: TrimSpace_fixed_iff asciiSpace_def)
qed

lemma kv_file_unlines: "es \<noteq> [] \<Longrightarrow> kv_file es = unlines (map kv_render es)"
proof (induction es)
  case (Cons e es)
  then show ?case by (cases "es = []") (simp_all add: kv_file_def join_with_Cons)
qed simp

definition entry_ok :: "(string \<times> string) option \<Rightarrow> bool" where
  "entry_ok e = (case e of None \<Rightarrow> True | Some (k, v) \<Rightarrow> key_ok k \<and> val_line v)"

lemma val_line_last: "val_line v \<Longrightarrow> v \<noteq> [] \<Longrightarrow> last v \<noteq> CHR 0x0D"
proof -
  assume "val_line v" "v \<noteq> []"
  then consider "TrimSpace v = v" | "v = TrimSpace v @ '' ''" by (auto simp: val_line_def)
  then show ?thesis
  proof cases
    case 1
    then show ?thesis using TrimSpace_last_CR \<open>v \<noteq> []\<close> by blast
  next
    case 2
    then have "last v = CHR '' ''" by (metis last_snoc)
    then show ?thesis by simp
  qed
qed

lemma line_ok_render: "entry_ok e \<Longrightarrow> line_ok (kv_render e)"
proof (cases e)
  case (Some kv)
  assume "entry_ok e"
  with Some val_line_last [of "snd kv"] show ?thesis
    by (cases kv; cases "snd kv = []") (auto simp: entry_ok_def key_ok_def val_line_def line_ok_def kv_render_def)
qed (simp add: line_ok_def kv_render_def)

lemma kv_step_render:
  "entry_ok e \<Longrightarrow> kv_step put (kv_render e) s = (case e of None \<Rightarrow> s | Some (k, v) \<Rightarrow> put k (TrimSpace v) s)"
  by (auto simp: kv_step_def kv_render_def entry_ok_def kv_line_render split: option.splits)
    (simp add: kv_line_def)

lemma kv_scan_file:
  assumes "es \<noteq> []" "\<forall>e\<in>set es. entry_ok e"
  shows "kv_scan put (kv_file es) s =
    fold (\<lambda>e s. case e of None \<Rightarrow> s | Some (k, v) \<Rightarrow> put k (TrimSpace v) s) es s"
proof -
  have "scan_lines (kv_file es) = map kv_render es"
    using assms line_ok_render by (simp add: kv_file_unlines scan_lines_unlines)
  then have "kv_scan put (kv_file es) s = fold (\<lambda>e. kv_step put (kv_render e)) es s"
    by (simp add: kv_scan_def fold_map comp_def)
  also have "\<dots> = fold (\<lambda>e s. case e of None \<Rightarrow> s | Some (k, v) \<Rightarrow> put k (TrimSpace v) s) es s"
    by (rule fold_cong) (simp_all add: fun_eq_iff assms(2) kv_step_render)
  finally show ?thesis .
qed

lemma scan_err_file:
  assumes "es \<noteq> []" "\<forall>e\<in>set es. entry_ok e" "\<forall>e\<in>set es. length (kv_render e) < MaxScanTokenSize"
  shows "\<not> scan_err (kv_file es)"
  using assms line_ok_render by (auto simp: kv_file_unlines scan_err_unlines not_less)

section \<open>Texts of plain characters\<close>

lemma plain_ends_trim:
  assumes "s \<noteq> []" "plain_char (hd s)" "plain_char (last s)"
  shows "TrimSpace s = s"
proof -
  have "\<not> starts_space space2 space3 s"
    using assms(1,2) by (cases s) (auto simp: starts_space_plain_Cons)
  moreover have "\<not> starts_space (\<lambda>a b. space2 b a) (\<lambda>a b c. space3 c b a) (rev s)"
  proof (cases "rev s")
    case (Cons c r)
    then have "c = last s" by (metis last_rev list.sel(1) rev_rev_ident hd_rev)
    with assms(3) show ?thesis unfolding Cons by (simp add: starts_space_plain_Cons)
  qed simp
  ultimately show ?thesis by (simp add: TrimSpace_fixed_iff)
qed

lemma plain_no_newline: "\<forall>c\<in>set s. plain_char c \<Longrightarrow> CHR 0x0A \<notin> set s"
  by (auto simp: plain_char_def asciiSpace_def)

lemma plain_text_ok: "\<forall>c\<in>set s. plain_char c \<Longrightarrow> val_ok s"
proof (cases "s = []")
  case False
  moreover assume "\<forall>c\<in>set s. plain_char c"
  ultimately show ?thesis
    using plain_ends_trim [of s] plain_no_newline [of s] by (simp add: val_ok_def)
qed (simp add: val_ok_def)

text \<open>Two plain words with a space between them, as sizes are printed.\<close>

lemma plain_words_ok:
  assumes "\<forall>c\<in>set s. plain_char c" "s \<noteq> []" "\<forall>c\<in>set u. plain_char c"
  shows "val_line (s @ '' '' @ u)"
proof (cases "u = []")
  case True
  have "TrimSpace (s @ '' '') = s"
    using plain_text_ok [OF assms(1)] assms(2) by (intro TrimSpace_trailing) (simp_all add: val_ok_def)
  with True show ?thesis using plain_no_newline [OF assms(1)] by (simp add: val_line_def)
next
  case False
  then have "TrimSpace (s @ '' '' @ u) = s @ '' '' @ u"
    using assms by (intro plain_ends_trim) (simp_all add: hd_append)
  then show ?thesis
    using plain_no_newline [OF assms(1)] plain_no_newline [OF assms(3)] by (simp add: val_line_def)
qed

section \<open>Writers and readers\<close>

text \<open>Entries whose values survive the trimming and whose lines fit the scanner's buffer.\<close>

definition storable :: "(string \<times> string) option list \<Rightarrow> bool" where
  "storable es \<longleftrightarrow> (\<forall>e\<in>set es. length (kv_render e) < MaxScanTokenSize \<and>
     (case e of None \<Rightarrow> True | Some (k, v) \<Rightarrow> val_ok v))"

text \<open>
  A store: the writer's entries, given to the reader's \<open>switch\<close> one by one from a fresh
  state, make up the state that was written.
\<close>

locale kv_store =
  fixes put :: "string \<Rightarrow> string \<Rightarrow> 's \<Rightarrow> 's"
    and entries :: "'s \<Rightarrow> (string \<times> string) option list"
    and fresh :: 's
  assumes entries_ne: "entries s \<noteq> []"
    and entries_key: "Some (k, v) \<in> set (entries s) \<Longrightarrow> key_ok k"
    and restore: "fold (\<lambda>e s. case e of None \<Rightarrow> s | Some (k, v) \<Rightarrow> put k v s) (entries s) fresh = s"
begin

lemma entries_ok: "storable (entries s) \<Longrightarrow> \<forall>e\<in>set (entries s). entry_ok e"
  using entries_key by (fastforce simp: storable_def entry_ok_def val_ok_line split: option.splits)

lemma scan_back:
  assumes "storable (entries s)"
  shows "kv_scan put (kv_file (entries s)) fresh = s"
proof -
  have "fold (\<lambda>e s. case e of None \<Rightarrow> s | Some (k, v) \<Rightarrow> put k (TrimSpace v) s) (entries s) fresh
      = fold (\<lambda>e s. case e of None \<Rightarrow> s | Some (k, v) \<Rightarrow> put k v s) (entries s) fresh"
    using assms
    by (intro fold_cong) (auto simp: storable_def val_ok_def fun_eq_iff split: option.splits)
  then show ?thesis by (simp add: kv_scan_file [OF entries_ne entries_ok [OF assms]] restore)
qed

lemma scan_no_err: "storable (entries s) \<Longrightarrow> \<not> scan_err (kv_file (entries s))"
  by (rule scan_err_file [OF entries_ne entries_ok]) (auto simp: storable_def)

end

text \<open>A second reader of the same text whose state is a view of the first reader's.\<close>

locale kv_view =
  fixes put :: "string \<Rightarrow> string \<Rightarrow> 's \<Rightarrow> 's"
    and put' :: "string \<Rightarrow> string \<Rightarrow> 't \<Rightarrow> 't"
    and view :: "'s \<Rightarrow> 't"
  assumes put_view: "put' k v (view s) = view (put k v s)"
begin

lemma step_view: "kv_step put' l (view s) = view (kv_step put l s)"
  by (simp add: kv_step_def put_view split: option.split)

lemma scan_view: "kv_scan put' text (view s) = view (kv_scan put text s)"
proof -
  have "fold (kv_step put') ls (view s) = view (fold (kv_step put) ls s)" for ls s
    by (induction ls arbitrary: s) (simp_all add: step_view)
  then show ?thesis by (simp add: kv_scan_def)
qed

end

end
