(* ===== verification/ProofLog.thy ===== *)
theory ProofLog
  imports KeyValueLog GoFloat
begin

text \<open>
  The proof log of the miner (\<open>src/storage/prooflog/proof_log.go\<close>): one record for the
  storage proofs and one for the window proofs of spacetime, read, changed and written back
  by \<open>StartProof\<close> and \<open>CompleteProof\<close>.
\<close>

section \<open>Data\<close>

record ProofRecord =
  Type :: string
  Status :: string
  Timestamp :: string
  GenerateDurationSeconds :: string
  VerifyDurationMilliseconds :: string

record proofInfoState =
  StorageProof :: ProofRecord
  WindowPoSt :: ProofRecord

definition fileName :: string where "fileName = ''proof_info.log''"
definition StorageProofT :: string where "StorageProofT = ''storage_proof''"
definition WindowPoStT :: string where "WindowPoStT = ''window_post''"
definition StatusProcessing :: string where "StatusProcessing = ''processing''"
definition StatusCompleted :: string where "StatusCompleted = ''completed''"

text \<open>A clock reading: its nanoseconds, and its RFC 3339 text in the local time zone.\<close>

record Time =
  UnixNano :: int
  RFC3339 :: string

text \<open>\<open>Time.Sub\<close> saturates at the ends of \<open>time.Duration\<close>.\<close>

definition Sub :: "Time \<Rightarrow> Time \<Rightarrow> int" where
  "Sub t u = max (- (2 ^ 63)) (min (2 ^ 63 - 1) (UnixNano t - UnixNano u))"

section \<open>Durations\<close>

text \<open>
  \<open>Duration.Seconds\<close> is the whole seconds plus the correctly rounded fraction;
  \<open>Duration.Microseconds\<close> truncates towards zero.
\<close>

definition seconds64 :: "int \<Rightarrow> int \<times> nat" where
  "seconds64 d =
     (let (m, k) = round53 (d mod 1000000000) 1000000000
      in round53 (d div 1000000000 * 2 ^ k + m) (2 ^ k))"

definition formatSeconds :: "int \<Rightarrow> string" where
  "formatSeconds d =
     (if d < 0 then CHR ''-'' # format_f 3 (seconds64 (- d)) else format_f 3 (seconds64 d))"

definition millis64 :: "int \<Rightarrow> int \<times> nat" where
  "millis64 us = (let (m, k) = round53 us 1 in round53 m (2 ^ k * 1000))"

definition formatMilliseconds :: "int \<Rightarrow> string" where
  "formatMilliseconds d =
     (let us = \<bar>d\<bar> div 1000 in
      if d < 0 \<and> us \<noteq> 0 then CHR ''-'' # format_f 3 (millis64 us) else format_f 3 (millis64 us))"

section \<open>Reading and writing the state\<close>

datatype log_error = LogOpen | LogRead | LogTemp | LogReplace

definition freshState :: proofInfoState where
  "freshState =
     \<lparr>StorageProof = \<lparr>Type = StorageProofT, Status = [], Timestamp = [],
                      GenerateDurationSeconds = ''0'', VerifyDurationMilliseconds = ''0''\<rparr>,
      WindowPoSt = \<lparr>Type = WindowPoStT, Status = [], Timestamp = [],
                    GenerateDurationSeconds = ''0'', VerifyDurationMilliseconds = ''0''\<rparr>\<rparr>"

definition putStorage :: "(ProofRecord \<Rightarrow> ProofRecord) \<Rightarrow> proofInfoState \<Rightarrow> proofInfoState" where
  "putStorage f st = st\<lparr>StorageProof := f (StorageProof st)\<rparr>"

definition putWindow :: "(ProofRecord \<Rightarrow> ProofRecord) \<Rightarrow> proofInfoState \<Rightarrow> proofInfoState" where
  "putWindow f st = st\<lparr>WindowPoSt := f (WindowPoSt st)\<rparr>"

definition putState :: "string \<Rightarrow> string \<Rightarrow> proofInfoState \<Rightarrow> proofInfoState" where
  "putState key val st =
     (if key = ''storage_proof_type'' then putStorage (Type_update (\<lambda>_. val)) st
      else if key = ''storage_proof_status'' then putStorage (Status_update (\<lambda>_. val)) st
      else if key = ''storage_proof_timestamp'' then putStorage (Timestamp_update (\<lambda>_. val)) st
      else if key = ''storage_proof_generate_duration_seconds''
        then putStorage (GenerateDurationSeconds_update (\<lambda>_. val)) st
      else if key = ''storage_proof_verify_duration_milliseconds''
        then putStorage (VerifyDurationMilliseconds_update (\<lambda>_. val)) st
      else if key = ''storage_proof_verify_duration_seconds''
        then putStorage (VerifyDurationMilliseconds_update (\<lambda>_. val)) st
      else if key = ''window_post_type'' then putWindow (Type_update (\<lambda>_. val)) st
      else if key = ''window_post_status'' then putWindow (Status_update (\<lambda>_. val)) st
      else if key = ''window_post_timestamp'' then putWindow (Timestamp_update (\<lambda>_. val)) st
      else if key = ''window_post_generate_duration_seconds''
        then putWindow (GenerateDurationSeconds_update (\<lambda>_. val)) st
      else if key = ''window_post_verify_duration_milliseconds''
        then putWindow (VerifyDurationMilliseconds_update (\<lambda>_. val)) st
      else if key = ''window_post_verify_duration_seconds''
        then putWindow (VerifyDurationMilliseconds_update (\<lambda>_. val)) st
      else st)"

definition loadState :: "string \<Rightarrow> world \<Rightarrow> (log_error, proofInfoState) outcome" where
  "loadState path w =
     (case os_ReadFile w path of
        Err ErrNotExist \<Rightarrow> Ok freshState
      | Err ErrOther \<Rightarrow> Err (if dirs w path then LogRead else LogOpen)
      | Panic \<Rightarrow> Panic
      | Ok text \<Rightarrow> if scan_err text then Err LogRead else Ok (kv_scan putState text freshState))"

definition stateEntries :: "proofInfoState \<Rightarrow> (string \<times> string) option list" where
  "stateEntries st =
     [Some (''storage_proof_type'', Type (StorageProof st)),
      Some (''storage_proof_status'', Status (StorageProof st)),
      Some (''storage_proof_timestamp'', Timestamp (StorageProof st)),
      Some (''storage_proof_generate_duration_seconds'', GenerateDurationSeconds (StorageProof st)),
      Some (''storage_proof_verify_duration_milliseconds'', VerifyDurationMilliseconds (StorageProof st)),
      None,
      Some (''window_post_type'', Type (WindowPoSt st)),
      Some (''window_post_status'', Status (WindowPoSt st)),
      Some (''window_post_timestamp'', Timestamp (WindowPoSt st)),
      Some (''window_post_generate_duration_seconds'', GenerateDurationSeconds (WindowPoSt st)),
      Some (''window_post_verify_duration_milliseconds'', VerifyDurationMilliseconds (WindowPoSt st))]"

definition writeState :: "string \<Rightarrow> proofInfoState \<Rightarrow> world \<Rightarrow> world \<times> log_error option" where
  "writeState path st w =
     (case replace_file w path (kv_file (stateEntries st)) of
        (w', None) \<Rightarrow> (w', None)
      | (w', Some ReplaceTemp) \<Rightarrow> (w', Some LogTemp)
      | (w', Some ReplaceRename) \<Rightarrow> (w', Some LogReplace))"

section \<open>Operations\<close>

definition setRecord :: "proofInfoState \<Rightarrow> ProofRecord \<Rightarrow> proofInfoState" where
  "setRecord st rec =
     (if Type rec = StorageProofT then st\<lparr>StorageProof := rec\<rparr>
      else if Type rec = WindowPoStT then st\<lparr>WindowPoSt := rec\<rparr>
      else st)"

definition updateLog :: "ProofRecord \<Rightarrow> world \<Rightarrow> world \<times> log_error option" where
  "updateLog rec w =
     (case loadState fileName w of
        Ok st \<Rightarrow> writeState fileName (setRecord st rec) w
      | Err e \<Rightarrow> (w, Some e)
      | Panic \<Rightarrow> (w, None))"

definition startRecord :: "string \<Rightarrow> Time \<Rightarrow> ProofRecord" where
  "startRecord pt now =
     \<lparr>Type = pt, Status = StatusProcessing, Timestamp = RFC3339 now,
      GenerateDurationSeconds = ''0'', VerifyDurationMilliseconds = ''0''\<rparr>"

definition completeRecord :: "string \<Rightarrow> Time \<Rightarrow> Time \<Rightarrow> Time \<Rightarrow> ProofRecord" where
  "completeRecord pt startedAt verifyStartedAt now =
     \<lparr>Type = pt, Status = StatusCompleted, Timestamp = RFC3339 now,
      GenerateDurationSeconds = formatSeconds (Sub verifyStartedAt startedAt),
      VerifyDurationMilliseconds = formatMilliseconds (Sub now verifyStartedAt)\<rparr>"

definition StartProof :: "Time \<Rightarrow> string \<Rightarrow> world \<Rightarrow> world \<times> (log_error, Time) outcome" where
  "StartProof now pt w =
     (case updateLog (startRecord pt now) w of
        (w', Some e) \<Rightarrow> (w', Err e)
      | (w', None) \<Rightarrow> (w', Ok now))"

definition CompleteProof ::
  "Time \<Rightarrow> string \<Rightarrow> Time \<Rightarrow> Time \<Rightarrow> world \<Rightarrow> world \<times> log_error option" where
  "CompleteProof now pt startedAt verifyStartedAt w =
     updateLog (completeRecord pt startedAt verifyStartedAt now) w"

section \<open>What is written is read back\<close>

lemma stateEntries_keys: "Some (k, v) \<in> set (stateEntries st) \<Longrightarrow> key_ok k"
proof -
  have "\<forall>k\<in>set (map fst (List.map_filter id (stateEntries st))). key_ok k"
    unfolding stateEntries_def by code_simp
  moreover assume "Some (k, v) \<in> set (stateEntries st)"
  then have "k \<in> set (map fst (List.map_filter id (stateEntries st)))"
    by (force simp: map_filter_def)
  ultimately show "key_ok k" by blast
qed

interpretation plog: kv_store putState stateEntries freshState
proof
  show "stateEntries s \<noteq> []" for s by (simp add: stateEntries_def)
  show "Some (k, v) \<in> set (stateEntries s) \<Longrightarrow> key_ok k" for k v s by (rule stateEntries_keys)
  show "fold (\<lambda>e s. case e of None \<Rightarrow> s | Some (k, v) \<Rightarrow> putState k v s) (stateEntries s) freshState = s" for s
    by (simp add: stateEntries_def putState_def putStorage_def putWindow_def freshState_def)
qed

text \<open>The texts a record may hold: trimmed, on one line, and short.\<close>

definition text_ok :: "string \<Rightarrow> bool" where
  "text_ok s \<longleftrightarrow> val_ok s \<and> length s < 60000"

definition record_ok :: "ProofRecord \<Rightarrow> bool" where
  "record_ok r \<longleftrightarrow> text_ok (Type r) \<and> text_ok (Status r) \<and> text_ok (Timestamp r) \<and>
     text_ok (GenerateDurationSeconds r) \<and> text_ok (VerifyDurationMilliseconds r)"

definition state_ok :: "proofInfoState \<Rightarrow> bool" where
  "state_ok st \<longleftrightarrow> record_ok (StorageProof st) \<and> record_ok (WindowPoSt st)"

lemma state_ok_storable: "state_ok st \<Longrightarrow> storable (stateEntries st)"
  by (simp add: state_ok_def record_ok_def text_ok_def storable_def stateEntries_def kv_render_def
      MaxScanTokenSize_def)

lemma load_after_write:
  assumes "writeState path st w = (w', None)" "state_ok st" "\<not> read_fails w path"
  shows "loadState path w' = Ok st"
proof -
  from assms(1) have r: "replace_file w path (kv_file (stateEntries st)) = (w', None)"
    by (auto simp: writeState_def split: prod.splits option.splits replace_error.splits)
  have "os_ReadFile w' path = Ok (kv_file (stateEntries st))"
    using replace_file_Ok [OF r] assms(3) by (simp add: os_ReadFile_def)
  then show ?thesis
    using plog.scan_back plog.scan_no_err state_ok_storable [OF assms(2)] by (simp add: loadState_def)
qed

lemma writeState_read_fails: "read_fails (fst (writeState path st w)) = read_fails w"
  using replace_file_frame(3) [of w path "kv_file (stateEntries st)"]
  by (auto simp: writeState_def split: prod.splits option.splits replace_error.splits)

lemma writeState_failed:
  assumes "writeState path st w = (w', Some e)"
  shows "loadState path w' = loadState path w"
proof -
  from assms obtain e' where r: "replace_file w path (kv_file (stateEntries st)) = (w', Some e')"
    by (auto simp: writeState_def split: prod.splits option.splits replace_error.splits)
  then have "content w' path = content w path" "read_fails w' = read_fails w" "dirs w' = dirs w"
    using replace_file_Err [OF r, of path] replace_file_frame [of w path "kv_file (stateEntries st)"]
    by simp_all
  then show ?thesis by (simp add: loadState_def os_ReadFile_def)
qed

section \<open>The durations are texts a log line can hold\<close>

lemma format_f_plain: "\<forall>c\<in>set (format_f p x). plain_char c"
proof -
  have "plain_char (CHR ''.'')" "plain_char (CHR ''0'')" "plain_char (CHR ''-'')"
    by (simp_all add: plain_char_def asciiSpace_def)
  then show ?thesis
    using digits_plain by (auto simp: format_f_def Let_def Itoa_def pad_dec_def set_replicate_conv_if split: if_splits)
qed

lemma format_durations_ok: "val_ok (formatSeconds d)" "val_ok (formatMilliseconds e)"
proof -
  have "plain_char (CHR ''-'')" by (simp add: plain_char_def asciiSpace_def)
  then show "val_ok (formatSeconds d)" "val_ok (formatMilliseconds e)"
    by (auto simp: formatSeconds_def formatMilliseconds_def Let_def intro!: plain_text_ok
        dest: format_f_plain [rule_format])
qed

lemma seconds64_le:
  assumes "0 \<le> d" "d \<le> 2 ^ 63"
  shows "0 \<le> fst (seconds64 d) \<and> fst (seconds64 d) \<le> 10 ^ 11 * 2 ^ snd (seconds64 d)"
proof -
  obtain m k where mk: "round53 (d mod 1000000000) 1000000000 = (m, k)" by fastforce
  obtain m' k' where mk': "round53 (d div 1000000000 * 2 ^ k + m) (2 ^ k) = (m', k')" by fastforce
  have "0 \<le> d mod 1000000000" by simp
  note le = round53_le [OF this _ mk]
  have "d mod 1000000000 \<le> 1000000000" by (simp add: less_imp_le)
  then have "d mod 1000000000 * 2 ^ k \<le> 1000000000 * 2 ^ k" by (rule mult_right_mono) simp
  then have m: "0 \<le> m" "m \<le> 2 * 2 ^ k" using le by linarith+
  have s: "0 \<le> d div 1000000000" "d div 1000000000 \<le> 9223372037"
    using assms zdiv_mono1 [of d "2 ^ 63" 1000000000] by (simp_all add: pos_imp_zdiv_nonneg_iff)
  then have "d div 1000000000 * 2 ^ k \<le> 9223372037 * 2 ^ k" by (intro mult_right_mono) simp_all
  with m have b: "d div 1000000000 * 2 ^ k + m \<le> 9223372039 * 2 ^ k" by linarith
  have nn: "0 \<le> d div 1000000000 * 2 ^ k + m" using m s by simp
  have "0 \<le> m'" using round53_le(1) [OF nn _ mk'] by simp
  have "m' * 2 ^ k \<le> 2 * (d div 1000000000 * 2 ^ k + m) * 2 ^ k'"
    using round53_le(2) [OF nn _ mk'] by simp
  also have "2 * (d div 1000000000 * 2 ^ k + m) * 2 ^ k' \<le> 2 * (9223372039 * 2 ^ k) * 2 ^ k'"
    using b by (intro mult_right_mono mult_left_mono) simp_all
  finally have "m' * 2 ^ k \<le> (18446744078 * 2 ^ k') * 2 ^ k" by (simp add: mult_ac)
  then have "m' \<le> 18446744078 * 2 ^ k'" by (rule mult_right_le_imp_le) simp
  also have "\<dots> \<le> 10 ^ 11 * 2 ^ k'" by (rule mult_right_mono) simp_all
  finally show ?thesis using mk mk' \<open>0 \<le> m'\<close> by (simp add: seconds64_def)
qed

lemma millis64_le:
  assumes "0 \<le> us" "us \<le> 2 ^ 63"
  shows "0 \<le> fst (millis64 us) \<and> fst (millis64 us) \<le> 10 ^ 17 * 2 ^ snd (millis64 us)"
proof -
  obtain m k where mk: "round53 us 1 = (m, k)" by fastforce
  obtain m' k' where mk': "round53 m (2 ^ k * 1000) = (m', k')" by fastforce
  have m: "0 \<le> m" "m \<le> 2 * us * 2 ^ k" using round53_le [OF assms(1) _ mk] by simp_all
  have m': "0 \<le> m'" "m' * (2 ^ k * 1000) \<le> 2 * m * 2 ^ k'" using round53_le [OF m(1) _ mk'] by simp_all
  have "2 * us \<le> 2 ^ 64" using assms by simp
  then have "2 * us * 2 ^ k \<le> 2 ^ 64 * 2 ^ k" by (rule mult_right_mono) simp
  with m have "m \<le> 2 ^ 64 * 2 ^ k" by linarith
  then have "2 * m * 2 ^ k' \<le> 2 * (2 ^ 64 * 2 ^ k) * 2 ^ k'" by (intro mult_right_mono mult_left_mono) simp_all
  also have "\<dots> \<le> (36893488147419104 * 2 ^ k') * (2 ^ k * 1000)" by simp
  finally have "m' * (2 ^ k * 1000) \<le> (36893488147419104 * 2 ^ k') * (2 ^ k * 1000)"
    using m'(2) by linarith
  then have "m' \<le> 36893488147419104 * 2 ^ k'" by (rule mult_right_le_imp_le) simp
  also have "\<dots> \<le> 10 ^ 17 * 2 ^ k'" by (rule mult_right_mono) simp_all
  finally show ?thesis using mk mk' m'(1) by (simp add: millis64_def)
qed

lemma Sub_range: "\<bar>Sub t u\<bar> \<le> 2 ^ 63"
  by (simp add: Sub_def)

lemma durations_text_ok: "text_ok (formatSeconds (Sub t u))" "text_ok (formatMilliseconds (Sub t u))"
proof -
  have s: "length (format_f 3 (seconds64 d)) \<le> 30" if "0 \<le> d" "d \<le> 2 ^ 63" for d
    using length_format_f [of "seconds64 d" "10 ^ 11" 3 15] seconds64_le [OF that] by simp
  have m: "length (format_f 3 (millis64 us)) \<le> 40" if "0 \<le> us" "us \<le> 2 ^ 63" for us
    using length_format_f [of "millis64 us" "10 ^ 17" 3 21] millis64_le [OF that] by simp
  have "length (formatSeconds (Sub t u)) < 60000"
    using s [of "Sub t u"] s [of "- Sub t u"] Sub_range [of t u]
    by (cases "Sub t u < 0") (auto simp: formatSeconds_def)
  moreover have "length (formatMilliseconds (Sub t u)) < 60000"
  proof -
    have "\<bar>Sub t u\<bar> div 1000 \<le> \<bar>Sub t u\<bar>"
      using zdiv_mono2 [of "\<bar>Sub t u\<bar>" 1 1000] by simp
    then have "\<bar>Sub t u\<bar> div 1000 \<le> 2 ^ 63" "0 \<le> \<bar>Sub t u\<bar> div 1000"
      using Sub_range [of t u] by linarith+
    with m show ?thesis by (fastforce simp: formatMilliseconds_def Let_def)
  qed
  ultimately show "text_ok (formatSeconds (Sub t u))" "text_ok (formatMilliseconds (Sub t u))"
    by (simp_all add: text_ok_def format_durations_ok)
qed

section \<open>One update\<close>

lemma setRecord_ok: "state_ok st \<Longrightarrow> record_ok r \<Longrightarrow> state_ok (setRecord st r)"
  by (simp add: state_ok_def setRecord_def)

lemma updateLog_load:
  assumes "loadState fileName w = Ok st" "state_ok st" "record_ok r" "\<not> read_fails w fileName"
    and "updateLog r w = (w', None)"
  shows "loadState fileName w' = Ok (setRecord st r)"
  using assms load_after_write [OF _ setRecord_ok [OF assms(2,3)]] by (simp add: updateLog_def)

lemma updateLog_succeeds:
  assumes "loadState fileName w = Ok st" "\<forall>p. \<not> write_fails w p" "\<forall>p. \<not> dirs w p"
  obtains w' where "updateLog r w = (w', None)" "\<forall>p. \<not> write_fails w' p" "\<forall>p. \<not> dirs w' p"
proof -
  let ?data = "kv_file (stateEntries (setRecord st r))"
  obtain w' where w': "replace_file w fileName ?data = (w', None)"
    using replace_file_succeeds [of w fileName ?data] assms by (metis prod.collapse)
  then have "dirs w' = dirs w" "write_fails w' = write_fails w"
    using replace_file_Ok by blast+
  with w' assms show ?thesis by (intro that [of w']) (simp_all add: updateLog_def writeState_def)
qed

lemma updateLog_failed: "updateLog r w = (w', Some e) \<Longrightarrow> loadState fileName w' = loadState fileName w"
  using writeState_failed by (auto simp: updateLog_def split: outcome.splits)

lemma started_ok: "text_ok pt \<Longrightarrow> text_ok (RFC3339 now) \<Longrightarrow> record_ok (startRecord pt now)"
  by (simp add: record_ok_def startRecord_def StatusProcessing_def text_ok_def val_ok_def) code_simp

lemma completed_ok:
  "text_ok pt \<Longrightarrow> text_ok (RFC3339 now) \<Longrightarrow> record_ok (completeRecord pt s v now)"
proof -
  have "val_ok StatusCompleted" by code_simp
  then have "text_ok StatusCompleted" by (simp add: text_ok_def StatusCompleted_def)
  then show "text_ok pt \<Longrightarrow> text_ok (RFC3339 now) \<Longrightarrow> record_ok (completeRecord pt s v now)"
    by (simp add: record_ok_def completeRecord_def durations_text_ok)
qed

lemma proof_types_ok: "text_ok StorageProofT" "text_ok WindowPoStT" "StorageProofT \<noteq> WindowPoStT"
proof -
  have "val_ok StorageProofT" "val_ok WindowPoStT" by code_simp+
  then show "text_ok StorageProofT" "text_ok WindowPoStT" "StorageProofT \<noteq> WindowPoStT"
    by (simp_all add: text_ok_def StorageProofT_def WindowPoStT_def)
qed

section \<open>Properties\<close>

text \<open>
  C5: Writing a state and loading the file gives the state back, whatever texts its ten
  fields hold, as long as they are trimmed, on one line and short.
\<close>

theorem loadState_writeState:
  assumes "writeState path st w = (w', None)" "state_ok st" "\<not> read_fails w path"
  shows "loadState path w' = Ok st"
  using assms by (rule load_after_write)


text \<open>
  A start or a completion that reports an error, at whatever step, leaves the state that
  is loaded from the log as it was.
\<close>

theorem proofLog_failed_update:
  assumes "StartProof now pt w = (w', Err e) \<or>
    CompleteProof now pt startedAt verifyStartedAt w = (w', Some e)"
  shows "loadState fileName w' = loadState fileName w"
  using assms updateLog_failed
  by (auto simp: StartProof_def CompleteProof_def split: prod.splits option.splits)

section \<open>A run of the log\<close>

lemma fresh_ok: "state_ok freshState"
proof -
  have "val_ok StorageProofT" "val_ok WindowPoStT" "val_ok ''0''" "val_ok []" by code_simp+
  then show ?thesis
    by (simp add: state_ok_def record_ok_def text_ok_def freshState_def StorageProofT_def WindowPoStT_def)
qed

lemma fresh_loaded: "loadState fileName emptyWorld = Ok freshState"
  by (simp add: loadState_def os_ReadFile_def)

definition noon :: Time where
  "noon = \<lparr>UnixNano = 1000000000, RFC3339 = ''2026-07-11T12:00:00Z''\<rparr>"

definition later :: Time where
  "later = \<lparr>UnixNano = 3500000000, RFC3339 = ''2026-07-11T12:00:03Z''\<rparr>"

lemma times_ok: "text_ok (RFC3339 noon)" "text_ok (RFC3339 later)"
proof -
  have "val_ok (RFC3339 noon)" "val_ok (RFC3339 later)" by code_simp+
  then show "text_ok (RFC3339 noon)" "text_ok (RFC3339 later)"
    by (simp_all add: text_ok_def noon_def later_def)
qed

theorem loadState_writeState_witness:
  "\<exists>w'. writeState fileName freshState emptyWorld = (w', None) \<and> loadState fileName w' = Ok freshState"
proof -
  have "snd (writeState fileName freshState emptyWorld) = None" by code_simp
  then have w: "writeState fileName freshState emptyWorld
      = (fst (writeState fileName freshState emptyWorld), None)"
    by (metis prod.collapse)
  show ?thesis using w loadState_writeState [OF w fresh_ok] by auto
qed


theorem proofLog_failed_update_witness:
  "\<exists>w'. StartProof noon StorageProofT readOnlyWorld = (w', Err LogTemp) \<and>
     loadState fileName w' = loadState fileName readOnlyWorld"
proof -
  have "StartProof noon StorageProofT readOnlyWorld = (readOnlyWorld, Err LogTemp)"
    by (simp add: StartProof_def updateLog_def loadState_def os_ReadFile_def readOnlyWorld_def
        writeState_def replace_file_def os_WriteFile_def)
  then show ?thesis
    using proofLog_failed_update [of noon StorageProofT readOnlyWorld readOnlyWorld LogTemp] by auto
qed

end
