(* ===== verification/SizeStrings.thy ===== *)
theory SizeStrings
  imports GoFloat
begin

text \<open>
  Sizes in binary units (\<open>src/chain/types/bigint.go\<close>: \<open>SizeStr\<close>, \<open>DeciStr\<close>). The loop
  keeps an exact rational; its \<open>float64\<close> value decides when to stop and is printed with
  four (three) significant digits.
\<close>

definition byteSizeUnits :: "string list" where
  "byteSizeUnits = [''B'', ''KiB'', ''MiB'', ''GiB'', ''TiB'', ''PiB'', ''EiB'', ''ZiB'']"

definition deciUnits :: "string list" where
  "deciUnits = ['''', ''Ki'', ''Mi'', ''Gi'', ''Ti'', ''Pi'', ''Ei'', ''Zi'']"

text \<open>\<open>f >= 1024\<close> for the \<open>float64\<close> value of \<open>n / 1024^i\<close>.\<close>

definition atLeast1024 :: "int \<Rightarrow> nat \<Rightarrow> bool" where
  "atLeast1024 n i = (let (m, k) = round53 n (1024 ^ i) in 1024 * 2 ^ k \<le> m)"

function unitLoop :: "int \<Rightarrow> nat \<Rightarrow> nat \<Rightarrow> nat" where
  "unitLoop n units i = (if atLeast1024 n i \<and> i + 1 < units then unitLoop n units (i + 1) else i)"
  by auto
termination by (relation "measure (\<lambda>(n, units, i). units - i)") auto

declare unitLoop.simps [simp del]

definition scaled_g :: "nat \<Rightarrow> int \<Rightarrow> nat \<Rightarrow> string" where
  "scaled_g p n i =
     (if n < 0 then CHR ''-'' # format_g p (round53 (- n) (1024 ^ i)) else format_g p (round53 n (1024 ^ i)))"

definition SizeStr :: "int \<Rightarrow> string" where
  "SizeStr bi =
     (let i = unitLoop bi (length byteSizeUnits) 0 in scaled_g 4 bi i @ '' '' @ byteSizeUnits ! i)"

definition DeciStr :: "int \<Rightarrow> string" where
  "DeciStr bi =
     (let i = unitLoop bi (length deciUnits) 0 in scaled_g 3 bi i @ '' '' @ deciUnits ! i)"

section \<open>The unit is in range\<close>

lemma unitLoop_less: "i < units \<Longrightarrow> unitLoop n units i < units"
  by (induction n units i rule: unitLoop.induct) (subst unitLoop.simps, simp)

lemma unitLoop_mono: "i \<le> unitLoop n units i"
  by (induction n units i rule: unitLoop.induct) (subst unitLoop.simps, force)

lemma unitLoop_below: "j < unitLoop n units i \<Longrightarrow> i \<le> j \<Longrightarrow> atLeast1024 n j"
proof (induction n units i rule: unitLoop.induct)
  case (1 n units i)
  show ?case
  proof (cases "atLeast1024 n i \<and> i + 1 < units")
    case True
    with 1 show ?thesis by (cases "i = j") (simp_all add: unitLoop.simps [of n units i])
  next
    case False
    with 1(2,3) show ?thesis by (simp add: unitLoop.simps [of n units i] split: if_splits)
  qed
qed

lemma unitLoop_stops: "unitLoop n units i + 1 < units \<Longrightarrow> \<not> atLeast1024 n (unitLoop n units i)"
proof (induction n units i rule: unitLoop.induct)
  case (1 n units i)
  then show ?case
    by (cases "atLeast1024 n i \<and> i + 1 < units") (auto simp: unitLoop.simps [of n units i])
qed

section \<open>The characters of a size\<close>

lemma plain_extra:
  "plain_char (CHR ''.'')" "plain_char (CHR ''0'')" "plain_char (CHR ''-'')" "plain_char (CHR ''e'')"
  "plain_char (CHR ''+'')"
  by (simp_all add: plain_char_def asciiSpace_def)

lemma Itoa_plain: "\<forall>c\<in>set (Itoa n). plain_char c"
  using digits_plain plain_extra by (auto simp: Itoa_def)

lemma pad_dec_plain: "\<forall>c\<in>set (pad_dec p n). plain_char c"
  using digits_plain plain_extra by (auto simp: pad_dec_def Let_def)

lemma strip_zeros_subset: "set (strip_zeros s) \<subseteq> set s"
  by (auto simp: strip_zeros_def dest: set_dropWhileD)

lemma format_g_plain: "\<forall>c\<in>set (format_g p x). plain_char c"
proof -
  have z: "\<forall>c\<in>set (strip_zeros (Itoa n)). plain_char c" for n
    using Itoa_plain strip_zeros_subset by blast
  have "\<forall>c\<in>set (format_e (strip_zeros (Itoa n)) e). plain_char c" for n e
    using z [of n] plain_extra pad_dec_plain
    by (auto simp: format_e_def dest: in_set_takeD in_set_dropD)
  moreover have "\<forall>c\<in>set (format_plain (strip_zeros (Itoa n)) e). plain_char c" for n e
    using z [of n] plain_extra
    by (auto simp: format_plain_def dest: in_set_takeD in_set_dropD)
  moreover have "plain_char (CHR ''0'')" by (rule plain_extra)
  ultimately show ?thesis
    by (cases "fst x \<le> 0") (simp_all add: format_g_def Let_def split_beta)
qed

lemma format_g_ne: "format_g p x \<noteq> []"
proof -
  have "0 < dp \<Longrightarrow> format_plain digs dp \<noteq> []" for digs dp
    by (cases "length digs \<le> dp"; cases digs) (simp_all add: format_plain_def)
  moreover have "format_e digs e \<noteq> []" for digs e
    by (simp add: format_e_def)
  ultimately show ?thesis
    by (cases "fst x \<le> 0") (simp_all add: format_g_def Let_def split_beta)
qed

lemma scaled_g_plain: "\<forall>c\<in>set (scaled_g p n i). plain_char c"
  using format_g_plain plain_extra by (auto simp: scaled_g_def)

lemma scaled_g_ne: "scaled_g p n i \<noteq> []"
  by (simp add: scaled_g_def format_g_ne)

lemma units_plain:
  "i < length byteSizeUnits \<Longrightarrow> \<forall>c\<in>set (byteSizeUnits ! i). plain_char c"
  "i < length deciUnits \<Longrightarrow> \<forall>c\<in>set (deciUnits ! i). plain_char c"
proof -
  have "\<forall>u\<in>set byteSizeUnits. \<forall>c\<in>set u. plain_char c" "\<forall>u\<in>set deciUnits. \<forall>c\<in>set u. plain_char c"
    by (simp_all add: byteSizeUnits_def deciUnits_def plain_char_def asciiSpace_def)
  then show "i < length byteSizeUnits \<Longrightarrow> \<forall>c\<in>set (byteSizeUnits ! i). plain_char c"
    "i < length deciUnits \<Longrightarrow> \<forall>c\<in>set (deciUnits ! i). plain_char c"
    using nth_mem by blast+
qed

end
