(* ===== verification/SectorStates.thy ===== *)
theory SectorStates
  imports Main
begin

text \<open>
  The states of a sector in the sealing pipeline
  (\<open>src/storage/pipeline/sector_state.go\<close>) and the two classifications of them.
  \<open>SectorState\<close> is a string type in the source: \<open>OtherState\<close> stands for a
  string that is none of its constants.
\<close>

datatype (plugins only: code size) SectorState =
    UndefinedSectorState | Empty | WaitDeals | AddPiece | Packing | GetTicket |
    PreCommit1 | PreCommit2 | PreCommitting | PreCommitWait | SubmitPreCommitBatch |
    PreCommitBatchWait | WaitSeed | Committing | CommitFinalize | CommitFinalizeFailed |
    SubmitCommit | CommitWait | SubmitCommitAggregate | CommitAggregateWait |
    FinalizeSector | Proving | Available | SnapDealsWaitDeals | SnapDealsAddPiece |
    SnapDealsPacking | UpdateReplica | ProveReplicaUpdate | SubmitReplicaUpdate |
    ReplicaUpdateWait | FinalizeReplicaUpdate | UpdateActivating | ReleaseSectorKey |
    ReceiveSector | FailedUnrecoverable | AddPieceFailed | SealPreCommit1Failed |
    SealPreCommit2Failed | PreCommitFailed | ComputeProofFailed | RemoteCommitFailed |
    CommitFailed | PackingFailed | FinalizeFailed | DealsExpired | RecoverDealIDs |
    SnapDealsAddPieceFailed | SnapDealsDealsExpired | SnapDealsRecoverDealIDs |
    AbortUpgrade | ReplicaUpdateFailed | ReleaseSectorKeyFailed |
    FinalizeReplicaUpdateFailed | Faulty | FaultReported | FaultedFinal | Terminating |
    TerminateWait | TerminateFinality | TerminateFailed | Removing | RemoveFailed |
    Removed | OtherState string

datatype statSectorState = sstStaging | sstSealing | sstFailed | sstProving

definition toStatState :: "SectorState \<Rightarrow> bool \<Rightarrow> statSectorState" where
  "toStatState st finEarly =
     (if st \<in> set
        [UndefinedSectorState, Empty, WaitDeals, AddPiece, AddPieceFailed,
        SnapDealsWaitDeals, SnapDealsAddPiece]
      then sstStaging
      else if st \<in> set
        [Packing, GetTicket, PreCommit1, PreCommit2, PreCommitting, PreCommitWait,
        SubmitPreCommitBatch, PreCommitBatchWait, WaitSeed, Committing, CommitFinalize,
        FinalizeSector, SnapDealsPacking, UpdateReplica, ProveReplicaUpdate,
        FinalizeReplicaUpdate, ReceiveSector]
      then sstSealing
      else if st \<in> set
        [SubmitCommit, CommitWait, SubmitCommitAggregate, CommitAggregateWait,
        SubmitReplicaUpdate, ReplicaUpdateWait]
      then (if finEarly then sstProving else sstSealing)
      else if st \<in> set
        [Proving, Available, UpdateActivating, ReleaseSectorKey, Removed, Removing,
        Terminating, TerminateWait, TerminateFinality, TerminateFailed]
      then sstProving
      else sstFailed)"

definition IsUpgradeState :: "SectorState \<Rightarrow> bool" where
  "IsUpgradeState st \<longleftrightarrow> st \<in> set
        [SnapDealsWaitDeals, SnapDealsAddPiece, SnapDealsPacking, UpdateReplica,
        ProveReplicaUpdate, SubmitReplicaUpdate, SnapDealsAddPieceFailed,
        SnapDealsDealsExpired, SnapDealsRecoverDealIDs, AbortUpgrade, ReplicaUpdateFailed,
        ReleaseSectorKeyFailed, FinalizeReplicaUpdateFailed]"

end
