(* ===== verification/MinerInfo.thy ===== *)
theory MinerInfo
  imports KeyValueLog SizeStrings SectorStates "HOL-Library.Word"
begin

text \<open>
  The miner's own report (\<open>src/cmd/lotus-miner/miner_info.go\<close>): the address of the host,
  the power, the committed space and the user data of the miner, collected every minute and
  written to \<open>miner_info.log\<close>. The answers of the node and miner APIs and of the
  network stack are fields of the environment.
\<close>

section \<open>Addresses\<close>

text \<open>
  \<open>net.IP\<close> is a slice of 4 or 16 bytes, empty for \<open>nil\<close>. \<open>To4\<close> gives the four
  bytes of an IPv4 address, also of one in IPv6 form.
\<close>

type_synonym IP = "8 word list"

definition To4 :: "IP \<Rightarrow> IP option" where
  "To4 ip =
     (if length ip = 4 then Some ip
      else if length ip = 16 \<and> take 10 ip = replicate 10 0 \<and> ip ! 10 = 0xFF \<and> ip ! 11 = 0xFF
      then Some (drop 12 ip) else None)"

definition IsLoopback :: "IP \<Rightarrow> bool" where
  "IsLoopback ip =
     (case To4 ip of Some ip4 \<Rightarrow> ip4 ! 0 = 127
      | None \<Rightarrow> ip = replicate 15 0 @ [1])"

text \<open>\<open>IsGlobalUnicast\<close> of four bytes: not broadcast, unspecified, loopback, multicast, link local.\<close>

definition IsGlobalUnicast :: "IP \<Rightarrow> bool" where
  "IsGlobalUnicast ip4 \<longleftrightarrow>
     length ip4 = 4 \<and> ip4 \<noteq> [255, 255, 255, 255] \<and> ip4 \<noteq> [0, 0, 0, 0] \<and> ip4 ! 0 \<noteq> 127 \<and>
     \<not> (0xE0 \<le> ip4 ! 0 \<and> ip4 ! 0 \<le> 0xEF) \<and> \<not> (ip4 ! 0 = 169 \<and> ip4 ! 1 = 254)"

definition ipString :: "IP \<Rightarrow> string" where
  "ipString ip4 = join_with ''.'' (map (\<lambda>b. Itoa (uint b)) ip4)"

definition isPrivateIPv4 :: "IP \<Rightarrow> bool" where
  "isPrivateIPv4 ip =
     (case To4 ip of
        None \<Rightarrow> False
      | Some ip4 \<Rightarrow>
          if ip4 ! 0 = 10 then True
          else if ip4 ! 0 = 172 \<and> ip4 ! 1 \<ge> 16 \<and> ip4 ! 1 \<le> 31 then True
          else ip4 ! 0 = 192 \<and> ip4 ! 1 = 168)"

definition isCarrierGradeNATIPv4 :: "IP \<Rightarrow> bool" where
  "isCarrierGradeNATIPv4 ip =
     (case To4 ip of
        None \<Rightarrow> False
      | Some ip4 \<Rightarrow> ip4 ! 0 = 100 \<and> ip4 ! 1 \<ge> 64 \<and> ip4 ! 1 \<le> 127)"

definition isPublicIPv4 :: "IP \<Rightarrow> bool" where
  "isPublicIPv4 ip \<longleftrightarrow> IsGlobalUnicast ip \<and> \<not> isPrivateIPv4 ip \<and> \<not> isCarrierGradeNATIPv4 ip"

fun pickPreferredIP :: "string list list \<Rightarrow> string" where
  "pickPreferredIP [] = []"
| "pickPreferredIP (ips # groups) = (case ips of [] \<Rightarrow> pickPreferredIP groups | ip # _ \<Rightarrow> ip)"

section \<open>Detecting the host address\<close>

datatype net_addr = IPNet IP | IPAddr IP | OtherAddr

record net_iface =
  FlagUp :: bool
  FlagLoopback :: bool
  Addrs :: "net_addr list option"

record ip_groups =
  publicIPs :: "string list"
  privateIPs :: "string list"
  cgnatIPs :: "string list"
  otherIPs :: "string list"

definition noIPs :: ip_groups where
  "noIPs = \<lparr>publicIPs = [], privateIPs = [], cgnatIPs = [], otherIPs = []\<rparr>"

text \<open>The last part of both loops: an address that is not usable changes nothing.\<close>

definition classifyIP :: "IP \<Rightarrow> ip_groups \<Rightarrow> ip_groups" where
  "classifyIP ip g =
     (if ip = [] \<or> IsLoopback ip then g
      else case To4 ip of
             None \<Rightarrow> g
           | Some ip4 \<Rightarrow>
               if \<not> IsGlobalUnicast ip4 then g
               else if isPublicIPv4 ip4 then g\<lparr>publicIPs := publicIPs g @ [ipString ip4]\<rparr>
               else if isPrivateIPv4 ip4 then g\<lparr>privateIPs := privateIPs g @ [ipString ip4]\<rparr>
               else if isCarrierGradeNATIPv4 ip4 then g\<lparr>cgnatIPs := cgnatIPs g @ [ipString ip4]\<rparr>
               else g\<lparr>otherIPs := otherIPs g @ [ipString ip4]\<rparr>)"

definition ifaceAddrStep :: "net_addr \<Rightarrow> ip_groups \<Rightarrow> ip_groups" where
  "ifaceAddrStep addr g =
     (case addr of IPNet ip \<Rightarrow> classifyIP ip g | IPAddr ip \<Rightarrow> classifyIP ip g | OtherAddr \<Rightarrow> g)"

definition ifaceStep :: "net_iface \<Rightarrow> ip_groups \<Rightarrow> ip_groups" where
  "ifaceStep iface g =
     (if \<not> FlagUp iface then g
      else if FlagLoopback iface then g
      else case Addrs iface of None \<Rightarrow> g | Some addrs \<Rightarrow> fold ifaceAddrStep addrs g)"

text \<open>The second loop takes \<open>*net.IPNet\<close> addresses only.\<close>

definition hostAddrStep :: "net_addr \<Rightarrow> ip_groups \<Rightarrow> ip_groups" where
  "hostAddrStep addr g = (case addr of IPNet ip \<Rightarrow> classifyIP ip g | _ \<Rightarrow> g)"

definition preferred :: "ip_groups \<Rightarrow> string" where
  "preferred g = pickPreferredIP [publicIPs g, privateIPs g, cgnatIPs g, otherIPs g]"

datatype host_error = ListInterfaces | ListAddresses | NoAddress

definition detectHostIP ::
  "net_iface list option \<Rightarrow> net_addr list option \<Rightarrow> (host_error, string) outcome" where
  "detectHostIP interfaces interfaceAddrs =
     (case interfaces of
        None \<Rightarrow> Err ListInterfaces
      | Some ifaces \<Rightarrow>
          (let ip = preferred (fold ifaceStep ifaces noIPs) in
           if ip \<noteq> [] then Ok ip
           else case interfaceAddrs of
                  None \<Rightarrow> Err ListAddresses
                | Some addrs \<Rightarrow>
                    (let ip = preferred (fold hostAddrStep addrs noIPs) in
                     if ip \<noteq> [] then Ok ip else Err NoAddress)))"

section \<open>Power, committed space, user data\<close>

record SectorPiece =
  PieceSize :: "64 word"
  HasDealInfo :: bool

record SectorInfo =
  State :: SectorState
  Pieces :: "SectorPiece list"
  Activation :: int
  Expiration :: int
  DealWeight :: int
  VerifiedDealWeight :: int

text \<open>
  What the two APIs and the network stack answer; \<open>None\<close> is an error. Epochs are
  \<open>int64\<close>, weights and powers are big integers.
\<close>

record miner_env =
  Interfaces :: "net_iface list option"
  InterfaceAddrs :: "net_addr list option"
  ActorAddress :: "string option"
  QualityAdjPower :: "int option"
  SectorSize :: "64 word option"
  LiveSectors :: "64 word option"
  SectorsList :: "nat list option"
  SectorsStatus :: "nat \<Rightarrow> SectorInfo option"

datatype info_error =
    GetAddress | GetPower | GetMinerInfo | GetSectorCount | ListSectors | GetStatus nat
  | MkInfoDir | WriteInfoTemp | ReplaceInfo

definition computeCommittedSpace :: "miner_env \<Rightarrow> (info_error, string) outcome" where
  "computeCommittedSpace env =
     (case SectorSize env of
        None \<Rightarrow> Err GetMinerInfo
      | Some sectorSize \<Rightarrow>
          (case LiveSectors env of
             None \<Rightarrow> Err GetSectorCount
           | Some live \<Rightarrow> Ok (SizeStr (uint live * uint sectorSize))))"

text \<open>\<open>big.Int.Uint64\<close> is the low 64 bits of the absolute value.\<close>

definition sectorBytes :: "SectorInfo \<Rightarrow> 64 word" where
  "sectorBytes st =
     (let lifetime = wrap64 (Expiration st - Activation st) in
      if \<not> (lifetime \<le> 0 \<or> IsUpgradeState (State st))
      then word_of_int \<bar>(DealWeight st + VerifiedDealWeight st) div lifetime\<bar>
      else fold (\<lambda>piece acc. if HasDealInfo piece then acc + PieceSize piece else acc) (Pieces st) 0)"

fun userDataLoop :: "(nat \<Rightarrow> SectorInfo option) \<Rightarrow> nat list \<Rightarrow> 64 word \<Rightarrow> (info_error, 64 word) outcome" where
  "userDataLoop status [] sum64 = Ok sum64"
| "userDataLoop status (n # ns) sum64 =
     (case status n of
        None \<Rightarrow> Err (GetStatus n)
      | Some st \<Rightarrow>
          if State st = Removed then userDataLoop status ns sum64
          else userDataLoop status ns (sum64 + sectorBytes st))"

definition computeUserDataSize :: "miner_env \<Rightarrow> (info_error, string) outcome" where
  "computeUserDataSize env =
     (case SectorsList env of
        None \<Rightarrow> Err ListSectors
      | Some ns \<Rightarrow> bindO (userDataLoop (SectorsStatus env) ns 0) (\<lambda>sum64. Ok (SizeStr (uint sum64))))"

record minerInfoSnapshot =
  IPText :: string
  Miner :: string
  QualityAdjustedPower :: string
  CommittedSpace :: string
  UserDataSize :: string

definition collectMinerInfoSnapshot :: "miner_env \<Rightarrow> (info_error, minerInfoSnapshot) outcome" where
  "collectMinerInfoSnapshot env =
     (let ip = (case detectHostIP (Interfaces env) (InterfaceAddrs env) of Ok ip \<Rightarrow> ip | _ \<Rightarrow> ''unknown'') in
      case ActorAddress env of
        None \<Rightarrow> Err GetAddress
      | Some maddr \<Rightarrow>
          (case QualityAdjPower env of
             None \<Rightarrow> Err GetPower
           | Some pow \<Rightarrow>
               bindO (computeCommittedSpace env) (\<lambda>committedSpace.
                 let userDataSize = (case computeUserDataSize env of Ok s \<Rightarrow> s | _ \<Rightarrow> ''unknown'')
                 in Ok \<lparr>IPText = ip, Miner = maddr, QualityAdjustedPower = DeciStr pow,
                        CommittedSpace = committedSpace, UserDataSize = userDataSize\<rparr>)))"

section \<open>Writing the log\<close>

definition snapshotEntries :: "minerInfoSnapshot \<Rightarrow> (string \<times> string) option list" where
  "snapshotEntries info =
     [Some (''ip'', IPText info), Some (''miner'', Miner info),
      Some (''quality_adjusted_power'', QualityAdjustedPower info),
      Some (''committed_space'', CommittedSpace info), Some (''user_data_size'', UserDataSize info)]"

definition writeMinerInfoLog :: "string \<Rightarrow> minerInfoSnapshot \<Rightarrow> world \<Rightarrow> world \<times> info_error option" where
  "writeMinerInfoLog path info w =
     (let dir = Dir path;
          made = (if dir \<noteq> [] \<and> dir \<noteq> ''.'' then os_MkdirAll w dir else Ok w)
      in case made of
           Ok w1 \<Rightarrow>
             (case replace_file w1 path (kv_file (snapshotEntries info)) of
                (w2, None) \<Rightarrow> (w2, None)
              | (w2, Some ReplaceTemp) \<Rightarrow> (w2, Some WriteInfoTemp)
              | (w2, Some ReplaceRename) \<Rightarrow> (w2, Some ReplaceInfo))
         | _ \<Rightarrow> (w, Some MkInfoDir))"

definition updateMinerInfoLog :: "miner_env \<Rightarrow> string \<Rightarrow> world \<Rightarrow> world \<times> info_error option" where
  "updateMinerInfoLog env logPath w =
     (case collectMinerInfoSnapshot env of
        Ok info \<Rightarrow> writeMinerInfoLog logPath info w
      | Err e \<Rightarrow> (w, Some e)
      | Panic \<Rightarrow> (w, None))"

text \<open>
  The monitor: one update at once, one at each tick of the ticker, until the shutdown
  channel or the context is done. An error is only logged.
\<close>

datatype monitor_event = Tick miner_env | Shutdown | CtxDone

fun monitorLoop :: "string \<Rightarrow> monitor_event list \<Rightarrow> world \<Rightarrow> world" where
  "monitorLoop logPath [] w = w"
| "monitorLoop logPath (Tick env # events) w =
     monitorLoop logPath events (fst (updateMinerInfoLog env logPath w))"
| "monitorLoop logPath (Shutdown # events) w = w"
| "monitorLoop logPath (CtxDone # events) w = w"

definition startMinerInfoMonitor :: "miner_env \<Rightarrow> string \<Rightarrow> monitor_event list \<Rightarrow> world \<Rightarrow> world" where
  "startMinerInfoMonitor env logPath events w =
     monitorLoop logPath events (fst (updateMinerInfoLog env logPath w))"

section \<open>The classes of addresses\<close>

lemma To4_length: "To4 ip = Some ip4 \<Longrightarrow> length ip4 = 4"
  by (auto simp: To4_def split: if_splits)

lemma To4_self: "length ip4 = 4 \<Longrightarrow> To4 ip4 = Some ip4"
  by (simp add: To4_def)

lemma ipString_ne: "length ip4 = 4 \<Longrightarrow> ipString ip4 \<noteq> []"
proof (cases ip4)
  case (Cons a rest)
  moreover assume "length ip4 = 4"
  ultimately have "map (\<lambda>b. Itoa (uint b)) rest \<noteq> []" by auto
  with Cons show ?thesis by (simp add: ipString_def join_with_Cons)
qed simp

text \<open>The address an interface address stands for, if the loops use it.\<close>

definition usableIP :: "IP \<Rightarrow> IP option" where
  "usableIP ip =
     (if ip = [] \<or> IsLoopback ip then None
      else case To4 ip of None \<Rightarrow> None | Some ip4 \<Rightarrow> if IsGlobalUnicast ip4 then Some ip4 else None)"

definition addrIP :: "bool \<Rightarrow> net_addr \<Rightarrow> IP list" where
  "addrIP netOnly addr =
     (case addr of
        IPNet ip \<Rightarrow> (case usableIP ip of None \<Rightarrow> [] | Some ip4 \<Rightarrow> [ip4])
      | IPAddr ip \<Rightarrow> if netOnly then [] else (case usableIP ip of None \<Rightarrow> [] | Some ip4 \<Rightarrow> [ip4])
      | OtherAddr \<Rightarrow> [])"

definition ifaceIPs :: "net_iface \<Rightarrow> IP list" where
  "ifaceIPs iface =
     (if FlagUp iface \<and> \<not> FlagLoopback iface
      then (case Addrs iface of None \<Rightarrow> [] | Some addrs \<Rightarrow> concat (map (addrIP False) addrs)) else [])"

definition byClass :: "IP list \<Rightarrow> IP list" where
  "byClass ips = filter isPublicIPv4 ips @ filter isPrivateIPv4 ips @ filter isCarrierGradeNATIPv4 ips"

text \<open>The groups after seeing the usable addresses \<open>ips\<close>; the last group stays empty.\<close>

definition groupsOf :: "IP list \<Rightarrow> ip_groups" where
  "groupsOf ips =
     \<lparr>publicIPs = map ipString (filter isPublicIPv4 ips),
      privateIPs = map ipString (filter isPrivateIPv4 ips),
      cgnatIPs = map ipString (filter isCarrierGradeNATIPv4 ips), otherIPs = []\<rparr>"

lemma classes_disjoint: "isPrivateIPv4 ip \<Longrightarrow> \<not> isCarrierGradeNATIPv4 ip"
  by (auto simp: isPrivateIPv4_def isCarrierGradeNATIPv4_def split: option.splits if_splits)

lemma classifyIP_groups:
  "classifyIP ip (groupsOf ips) = groupsOf (ips @ (case usableIP ip of None \<Rightarrow> [] | Some ip4 \<Rightarrow> [ip4]))"
proof (cases "usableIP ip")
  case None
  then show ?thesis
    by (auto simp: usableIP_def classifyIP_def split: option.splits if_splits)
next
  case (Some ip4)
  then have ip4: "ip \<noteq> []" "\<not> IsLoopback ip" "To4 ip = Some ip4" "IsGlobalUnicast ip4"
    by (auto simp: usableIP_def split: option.splits if_splits)
  consider "isPublicIPv4 ip4" "\<not> isPrivateIPv4 ip4" "\<not> isCarrierGradeNATIPv4 ip4"
    | "\<not> isPublicIPv4 ip4" "isPrivateIPv4 ip4" "\<not> isCarrierGradeNATIPv4 ip4"
    | "\<not> isPublicIPv4 ip4" "\<not> isPrivateIPv4 ip4" "isCarrierGradeNATIPv4 ip4"
    using ip4(4) classes_disjoint by (auto simp: isPublicIPv4_def)
  then show ?thesis
    using ip4 Some by cases (simp_all add: classifyIP_def groupsOf_def)
qed

lemma fold_addr_groups:
  "fold ifaceAddrStep addrs (groupsOf ips) = groupsOf (ips @ concat (map (addrIP False) addrs))"
  "fold hostAddrStep addrs (groupsOf ips) = groupsOf (ips @ concat (map (addrIP True) addrs))"
proof -
  have "ifaceAddrStep a (groupsOf ips) = groupsOf (ips @ addrIP False a)"
    "hostAddrStep a (groupsOf ips) = groupsOf (ips @ addrIP True a)" for a ips
    by (cases a; simp add: ifaceAddrStep_def hostAddrStep_def addrIP_def classifyIP_groups)+
  then show "fold ifaceAddrStep addrs (groupsOf ips) = groupsOf (ips @ concat (map (addrIP False) addrs))"
    "fold hostAddrStep addrs (groupsOf ips) = groupsOf (ips @ concat (map (addrIP True) addrs))"
    by (induction addrs arbitrary: ips) simp_all
qed

lemma fold_iface_groups: "fold ifaceStep ifaces (groupsOf ips) = groupsOf (ips @ concat (map ifaceIPs ifaces))"
proof (induction ifaces arbitrary: ips)
  case (Cons i ifaces)
  have "ifaceStep i (groupsOf ips) = groupsOf (ips @ ifaceIPs i)"
    by (auto simp: ifaceStep_def ifaceIPs_def fold_addr_groups split: option.splits)
  with Cons show ?case by simp
qed simp

lemma byClass_length: "\<forall>ip\<in>set ips. length ip = 4 \<Longrightarrow> byClass ips = ip # rest \<Longrightarrow> length ip = 4"
proof -
  assume four: "\<forall>ip\<in>set ips. length ip = 4" and "byClass ips = ip # rest"
  then have "ip \<in> set (byClass ips)" by simp
  then have "ip \<in> set ips" by (auto simp: byClass_def)
  with four show ?thesis by simp
qed

lemma preferred_groups:
  assumes "\<forall>ip\<in>set ips. length ip = 4"
  shows "preferred (groupsOf ips) = (case byClass ips of [] \<Rightarrow> [] | ip # _ \<Rightarrow> ipString ip)"
    and "preferred (groupsOf ips) = [] \<longleftrightarrow> byClass ips = []"
proof -
  show eq: "preferred (groupsOf ips) = (case byClass ips of [] \<Rightarrow> [] | ip # _ \<Rightarrow> ipString ip)"
    by (auto simp: preferred_def groupsOf_def byClass_def split: list.splits)
  show "preferred (groupsOf ips) = [] \<longleftrightarrow> byClass ips = []"
    using eq byClass_length [OF assms] ipString_ne by (auto split: list.splits)
qed

lemma addrIP_length: "ip4 \<in> set (addrIP b a) \<Longrightarrow> length ip4 = 4"
proof -
  have "usableIP ip = Some ip4 \<Longrightarrow> length ip4 = 4" for ip
    by (auto simp: usableIP_def To4_length split: option.splits if_splits)
  then show "ip4 \<in> set (addrIP b a) \<Longrightarrow> length ip4 = 4"
    by (cases a) (auto simp: addrIP_def split: option.splits if_splits)
qed

lemma ifaceIPs_length: "ip4 \<in> set (ifaceIPs i) \<Longrightarrow> length ip4 = 4"
  by (cases "FlagUp i \<and> \<not> FlagLoopback i"; cases "Addrs i") (auto simp: ifaceIPs_def intro: addrIP_length)

lemma noIPs_groups: "noIPs = groupsOf []"
  by (simp add: noIPs_def groupsOf_def)

section \<open>The texts of a snapshot\<close>

definition snapshot_ok :: "minerInfoSnapshot \<Rightarrow> bool" where
  "snapshot_ok info \<longleftrightarrow> (\<forall>e\<in>set (snapshotEntries info). entry_ok e)"

lemma sizes_line: "val_line (SizeStr n)" "val_line (DeciStr n)"
proof -
  have b: "unitLoop n (length byteSizeUnits) 0 < length byteSizeUnits"
    and d: "unitLoop n (length deciUnits) 0 < length deciUnits"
    by (rule unitLoop_less; simp add: byteSizeUnits_def deciUnits_def)+
  show "val_line (SizeStr n)"
    unfolding SizeStr_def Let_def by (rule plain_words_ok [OF scaled_g_plain scaled_g_ne units_plain(1) [OF b]])
  show "val_line (DeciStr n)"
    unfolding DeciStr_def Let_def by (rule plain_words_ok [OF scaled_g_plain scaled_g_ne units_plain(2) [OF d]])
qed

lemma join_plain: "\<forall>w\<in>set ws. \<forall>c\<in>set w. plain_char c \<Longrightarrow> \<forall>c\<in>set (join_with ''.'' ws). plain_char c"
proof (induction ws)
  case (Cons w ws)
  then show ?case using plain_extra by (cases "ws = []") (auto simp: join_with_Cons)
qed simp

lemma ipString_plain: "\<forall>c\<in>set (ipString ip). plain_char c"
  unfolding ipString_def by (rule join_plain) (auto simp: Itoa_plain)

lemma preferred_plain:
  assumes "\<forall>ip\<in>set ips. length ip = 4"
  shows "\<forall>c\<in>set (preferred (groupsOf ips)). plain_char c"
  using preferred_groups(1) [OF assms] ipString_plain by (auto split: list.splits)

lemma detectHostIP_plain: "detectHostIP ifs as = Ok ip \<Longrightarrow> \<forall>c\<in>set ip. plain_char c"
proof -
  have "\<forall>c\<in>set (preferred (fold ifaceStep ifaces noIPs)). plain_char c" for ifaces
    unfolding noIPs_groups fold_iface_groups append_Nil by (rule preferred_plain) (force dest: ifaceIPs_length)
  moreover have "\<forall>c\<in>set (preferred (fold hostAddrStep addrs noIPs)). plain_char c" for addrs
    unfolding noIPs_groups fold_addr_groups append_Nil by (rule preferred_plain) (force dest: addrIP_length)
  ultimately show "detectHostIP ifs as = Ok ip \<Longrightarrow> \<forall>c\<in>set ip. plain_char c"
    by (auto simp: detectHostIP_def Let_def split: option.splits if_splits)
qed

lemma unknown_plain: "val_line ''unknown''"
  by (rule val_ok_line, rule plain_text_ok) (simp add: plain_char_def asciiSpace_def)

lemma snapshot_keys: "key_ok ''ip''" "key_ok ''miner''" "key_ok ''quality_adjusted_power''"
  "key_ok ''committed_space''" "key_ok ''user_data_size''"
  by code_simp+

lemma collected_ok:
  assumes "collectMinerInfoSnapshot env = Ok info" "\<And>a. ActorAddress env = Some a \<Longrightarrow> val_line a"
  shows "snapshot_ok info"
proof -
  have ip: "val_line (case detectHostIP (Interfaces env) (InterfaceAddrs env) of Ok ip \<Rightarrow> ip | _ \<Rightarrow> ''unknown'')"
    using unknown_plain val_ok_line [OF plain_text_ok [OF detectHostIP_plain]] by (auto split: outcome.split)
  have cs: "computeCommittedSpace env = Ok s \<Longrightarrow> val_line s" for s
    using sizes_line by (auto simp: computeCommittedSpace_def split: option.splits)
  have ud: "val_line (case computeUserDataSize env of Ok s \<Rightarrow> s | _ \<Rightarrow> ''unknown'')"
    using sizes_line unknown_plain
    by (auto simp: computeUserDataSize_def bindO_eq_Ok split: outcome.split option.splits)
  from assms(1) obtain a p s where "ActorAddress env = Some a" "computeCommittedSpace env = Ok s"
    "info = \<lparr>IPText = (case detectHostIP (Interfaces env) (InterfaceAddrs env) of Ok ip \<Rightarrow> ip | _ \<Rightarrow> ''unknown''),
       Miner = a, QualityAdjustedPower = DeciStr p, CommittedSpace = s,
       UserDataSize = (case computeUserDataSize env of Ok s \<Rightarrow> s | _ \<Rightarrow> ''unknown'')\<rparr>"
    by (auto simp: collectMinerInfoSnapshot_def Let_def bindO_eq_Ok split: option.splits)
  then show ?thesis
    using ip cs ud assms(2) sizes_line snapshot_keys
    by (simp add: snapshot_ok_def snapshotEntries_def entry_ok_def)
qed

section \<open>Properties\<close>

text \<open>
  The host address. Among the usable addresses (IPv4, global unicast, of an interface that
  is up and not a loopback) the first public one is chosen, else the first private one, else
  the first carrier-grade NAT one; every usable address is in one of these classes. Only when
  there is none the addresses of the host are searched the same way.
\<close>

theorem detectHostIP_prefers:
  "detectHostIP (Some ifaces) addrs =
     (case byClass (concat (map ifaceIPs ifaces)) of
        ip # _ \<Rightarrow> Ok (ipString ip)
      | [] \<Rightarrow> (case addrs of
          None \<Rightarrow> Err ListAddresses
        | Some as \<Rightarrow> (case byClass (concat (map (addrIP True) as)) of
            ip # _ \<Rightarrow> Ok (ipString ip)
          | [] \<Rightarrow> Err NoAddress)))"
proof -
  have p: "preferred (fold ifaceStep ifaces noIPs)
      = (case byClass (concat (map ifaceIPs ifaces)) of [] \<Rightarrow> [] | ip # _ \<Rightarrow> ipString ip)"
    "preferred (fold ifaceStep ifaces noIPs) = [] \<longleftrightarrow> byClass (concat (map ifaceIPs ifaces)) = []"
    unfolding noIPs_groups fold_iface_groups append_Nil
    by (intro preferred_groups; force dest: ifaceIPs_length)+
  have q: "preferred (fold hostAddrStep as noIPs)
      = (case byClass (concat (map (addrIP True) as)) of [] \<Rightarrow> [] | ip # _ \<Rightarrow> ipString ip)"
    "preferred (fold hostAddrStep as noIPs) = [] \<longleftrightarrow> byClass (concat (map (addrIP True) as)) = []" for as
    unfolding noIPs_groups fold_addr_groups append_Nil
    by (intro preferred_groups; force dest: addrIP_length)+
  show ?thesis
    using p q by (auto simp: detectHostIP_def Let_def split: list.splits option.splits)
qed

text \<open>
  The user data size. The loop stops with an error at the first sector without a status;
  otherwise the total is the sum, modulo \<open>2^64\<close>, of the bytes of the sectors that are not
  removed.
\<close>

theorem userDataLoop_sum:
  "userDataLoop status ns acc =
     (case find (\<lambda>n. status n = None) ns of
        Some n \<Rightarrow> Err (GetStatus n)
      | None \<Rightarrow> Ok (acc + sum_list (map sectorBytes
          (filter (\<lambda>st. State st \<noteq> Removed) (map (\<lambda>n. the (status n)) ns)))))"
  by (induction status ns acc rule: userDataLoop.induct) (auto simp: add.assoc split: option.splits)

end
