(* ===== verification/LogHttp.thy ===== *)
theory LogHttp
  imports GoOS
begin

text \<open>
  The HTTP side of the miner (\<open>src/cmd/lotus-miner/log_http.go\<close>): it serves the two log
  files. A response is its status, content type and body; \<open>http.Error\<close> and the \<open>404\<close> of
  \<open>http.ServeMux\<close> are plain text with a newline.
\<close>

record http_response =
  StatusCode :: int
  ContentType :: string
  Body :: string

definition textPlain :: string where "textPlain = ''text/plain; charset=utf-8''"

definition http_Error :: "string \<Rightarrow> int \<Rightarrow> http_response" where
  "http_Error msg code = \<lparr>StatusCode = code, ContentType = textPlain, Body = msg @ [CHR 0x0A]\<rparr>"

definition serveStaticLogFile :: "string \<Rightarrow> string \<Rightarrow> world \<Rightarrow> http_response" where
  "serveStaticLogFile path reqMethod w =
     (if reqMethod \<noteq> ''GET'' then http_Error ''method not allowed'' 405
      else case os_ReadFile w path of
             Ok data \<Rightarrow> \<lparr>StatusCode = 200, ContentType = textPlain, Body = data\<rparr>
           | Err ErrNotExist \<Rightarrow> http_Error (path @ '' not found'') 404
           | _ \<Rightarrow> http_Error (''read '' @ path @ '' failed'') 500)"

text \<open>The handler tree of \<open>startMinerLogHTTPServer\<close>.\<close>

definition minerLogMux :: "string \<Rightarrow> string \<Rightarrow> world \<Rightarrow> http_response" where
  "minerLogMux reqMethod urlPath w =
     (if urlPath = ''/miner_info.log'' then serveStaticLogFile ''miner_info.log'' reqMethod w
      else if urlPath = ''/proof_info.log'' then serveStaticLogFile ''proof_info.log'' reqMethod w
      else http_Error ''404 page not found'' 404)"

end
