(* ===== verification/ApiInfo.thy ===== *)
theory ApiInfo
  imports ProofLog MinerInfo LogHttp
begin

text \<open>
  The part of the API server that gathers miner and proof information
  (\<open>src/cmd/opendsn-api/handlers.go\<close>, the collecting and parsing functions, and their types
  in \<open>types.go\<close>): the local log files and those of the other miners, fetched over HTTP. The
  HTTP client is a parameter, a function from a URL to the answer of the remote server;
  \<open>None\<close> is a failed request.
\<close>

section \<open>Types\<close>

record Config =
  Addr :: string
  RepoRoot :: string
  LotusBin :: string
  MinerHTTPPort :: int
  DealPrice :: string
  DealDuration :: string

record MinerInfoJ =
  NodeIP :: string
  Index :: string
  StoragePower :: string
  JCommittedSpace :: string
  JUserDataSize :: string

record ProofInfo =
  PNodeIP :: string
  ProofType :: string
  PStatus :: string
  PTimestamp :: string
  PGenerateDurationSeconds :: string
  PVerifyDurationMilliseconds :: string

type_synonym http_client = "string \<Rightarrow> http_response option"

section \<open>Parsing\<close>

definition noMinerInfo :: MinerInfoJ where
  "noMinerInfo = \<lparr>NodeIP = [], Index = [], StoragePower = [], JCommittedSpace = [], JUserDataSize = []\<rparr>"

definition putMinerInfo :: "string \<Rightarrow> string \<Rightarrow> MinerInfoJ \<Rightarrow> MinerInfoJ" where
  "putMinerInfo key val info =
     (if key = ''ip'' then info\<lparr>NodeIP := val\<rparr>
      else if key = ''miner'' then info\<lparr>Index := val\<rparr>
      else if key = ''quality_adjusted_power'' then info\<lparr>StoragePower := val\<rparr>
      else if key = ''committed_space'' then info\<lparr>JCommittedSpace := val\<rparr>
      else if key = ''user_data_size'' then info\<lparr>JUserDataSize := val\<rparr>
      else info)"

definition parseMinerInfo :: "string \<Rightarrow> (os_error, MinerInfoJ) outcome" where
  "parseMinerInfo text =
     (if scan_err text then Err ErrOther else Ok (kv_scan putMinerInfo text noMinerInfo))"

text \<open>The two records the map of \<open>parseProofInfo\<close> points to: storage proof and window proof.\<close>

definition freshProofInfos :: "ProofInfo \<times> ProofInfo" where
  "freshProofInfos =
     (\<lparr>PNodeIP = [], ProofType = ''storage_proof'', PStatus = [], PTimestamp = [],
       PGenerateDurationSeconds = ''0'', PVerifyDurationMilliseconds = ''0''\<rparr>,
      \<lparr>PNodeIP = [], ProofType = ''window_post'', PStatus = [], PTimestamp = [],
       PGenerateDurationSeconds = ''0'', PVerifyDurationMilliseconds = ''0''\<rparr>)"

definition putProofInfo :: "string \<Rightarrow> string \<Rightarrow> ProofInfo \<times> ProofInfo \<Rightarrow> ProofInfo \<times> ProofInfo" where
  "putProofInfo key val rs =
     (if key = ''storage_proof_type'' then apfst (ProofType_update (\<lambda>_. val)) rs
      else if key = ''storage_proof_status'' then apfst (PStatus_update (\<lambda>_. val)) rs
      else if key = ''storage_proof_timestamp'' then apfst (PTimestamp_update (\<lambda>_. val)) rs
      else if key = ''storage_proof_generate_duration_seconds''
        then apfst (PGenerateDurationSeconds_update (\<lambda>_. val)) rs
      else if key = ''storage_proof_verify_duration_milliseconds''
        then apfst (PVerifyDurationMilliseconds_update (\<lambda>_. val)) rs
      else if key = ''storage_proof_verify_duration_seconds''
        then apfst (PVerifyDurationMilliseconds_update (\<lambda>_. val)) rs
      else if key = ''window_post_type'' then apsnd (ProofType_update (\<lambda>_. val)) rs
      else if key = ''window_post_status'' then apsnd (PStatus_update (\<lambda>_. val)) rs
      else if key = ''window_post_timestamp'' then apsnd (PTimestamp_update (\<lambda>_. val)) rs
      else if key = ''window_post_generate_duration_seconds''
        then apsnd (PGenerateDurationSeconds_update (\<lambda>_. val)) rs
      else if key = ''window_post_verify_duration_milliseconds''
        then apsnd (PVerifyDurationMilliseconds_update (\<lambda>_. val)) rs
      else if key = ''window_post_verify_duration_seconds''
        then apsnd (PVerifyDurationMilliseconds_update (\<lambda>_. val)) rs
      else rs)"

definition parseProofInfo :: "string \<Rightarrow> (os_error, ProofInfo list) outcome" where
  "parseProofInfo text =
     (if scan_err text then Err ErrOther
      else let (storage, window) = kv_scan putProofInfo text freshProofInfos in Ok [storage, window])"

section \<open>Files\<close>

definition readMinerInfoFile :: "string \<Rightarrow> world \<Rightarrow> (os_error, MinerInfoJ) outcome" where
  "readMinerInfoFile path w = bindO (os_ReadFile w path) parseMinerInfo"

definition readProofInfoFile :: "string \<Rightarrow> world \<Rightarrow> (os_error, ProofInfo list) outcome" where
  "readProofInfoFile path w = bindO (os_ReadFile w path) parseProofInfo"

text \<open>The scanning loops of \<open>loadIPs\<close> and \<open>loadRoots\<close>, with the set of lines seen.\<close>

fun uniqueLines :: "string list \<Rightarrow> string list \<Rightarrow> string list" where
  "uniqueLines seen [] = []"
| "uniqueLines seen (l # ls) =
     (let ip = TrimSpace l in
      if ip = [] then uniqueLines seen ls
      else if ip \<in> set seen then uniqueLines seen ls
      else ip # uniqueLines (ip # seen) ls)"

definition loadLines :: "string \<Rightarrow> world \<Rightarrow> (os_error, string list) outcome" where
  "loadLines path w =
     (case os_ReadFile w path of
        Err ErrNotExist \<Rightarrow> Ok []
      | Err ErrOther \<Rightarrow> Err ErrOther
      | Panic \<Rightarrow> Panic
      | Ok text \<Rightarrow> if scan_err text then Err ErrOther else Ok (uniqueLines [] (scan_lines text)))"

definition loadIPs :: "string \<Rightarrow> world \<Rightarrow> (os_error, string list) outcome" where
  "loadIPs path w = loadLines path w"

record RootInfo =
  Root :: string

definition loadRoots :: "string \<Rightarrow> world \<Rightarrow> (os_error, RootInfo list) outcome" where
  "loadRoots path w = bindO (loadLines path w) (\<lambda>ls. Ok (map (\<lambda>l. \<lparr>Root = l\<rparr>) ls))"

section \<open>Remote miners\<close>

definition logURL :: "Config \<Rightarrow> string \<Rightarrow> string \<Rightarrow> string" where
  "logURL cfg ip path = ''http://'' @ ip @ '':'' @ Itoa (MinerHTTPPort cfg) @ path"

definition fetchRemoteMinerInfo :: "http_client \<Rightarrow> Config \<Rightarrow> string \<Rightarrow> (os_error, MinerInfoJ) outcome" where
  "fetchRemoteMinerInfo get cfg ip =
     (case get (logURL cfg ip ''/miner_info.log'') of
        None \<Rightarrow> Err ErrOther
      | Some resp \<Rightarrow>
          if StatusCode resp \<noteq> 200 then Err ErrOther
          else bindO (parseMinerInfo (Body resp))
                 (\<lambda>info. Ok (if NodeIP info = [] then info\<lparr>NodeIP := ip\<rparr> else info)))"

definition fetchRemoteProofInfo :: "http_client \<Rightarrow> Config \<Rightarrow> string \<Rightarrow> (os_error, ProofInfo list) outcome" where
  "fetchRemoteProofInfo get cfg ip =
     (case get (logURL cfg ip ''/proof_info.log'') of
        None \<Rightarrow> Err ErrOther
      | Some resp \<Rightarrow> if StatusCode resp \<noteq> 200 then Err ErrOther else parseProofInfo (Body resp))"

text \<open>The loops over the addresses: blank and local ones are passed over, failures too.\<close>

fun minerLoop :: "(string \<Rightarrow> (os_error, MinerInfoJ) outcome) \<Rightarrow> string \<Rightarrow> string list \<Rightarrow> MinerInfoJ list" where
  "minerLoop fetch localIP [] = []"
| "minerLoop fetch localIP (ip # ips) =
     (if ip = [] then minerLoop fetch localIP ips
      else if localIP \<noteq> [] \<and> ip = localIP then minerLoop fetch localIP ips
      else case fetch ip of
             Ok info \<Rightarrow> info # minerLoop fetch localIP ips
           | _ \<Rightarrow> minerLoop fetch localIP ips)"

definition collectMinerInfos :: "http_client \<Rightarrow> Config \<Rightarrow> world \<Rightarrow> (os_error, MinerInfoJ list) outcome" where
  "collectMinerInfos get cfg w =
     (let rest = (\<lambda>out localIP.
            bindO (loadIPs (JoinPath [RepoRoot cfg, ''miner_ip.log'']) w)
              (\<lambda>ips. Ok (out @ minerLoop (fetchRemoteMinerInfo get cfg) localIP ips)))
      in case readMinerInfoFile (JoinPath [RepoRoot cfg, ''miner_info.log'']) w of
           Ok localInfo \<Rightarrow> rest [localInfo] (NodeIP localInfo)
         | Err ErrNotExist \<Rightarrow> rest [] []
         | Err e \<Rightarrow> Err e
         | Panic \<Rightarrow> Panic)"

text \<open>Proofs with a status, marked with the address they came from.\<close>

definition statusProofs :: "string \<Rightarrow> ProofInfo list \<Rightarrow> ProofInfo list" where
  "statusProofs ip ps =
     map (\<lambda>p. p\<lparr>PNodeIP := ip\<rparr>) (filter (\<lambda>p. TrimSpace (PStatus p) \<noteq> []) ps)"

fun proofLoop :: "(string \<Rightarrow> (os_error, ProofInfo list) outcome) \<Rightarrow> string \<Rightarrow> string list \<Rightarrow> ProofInfo list" where
  "proofLoop fetch localIP [] = []"
| "proofLoop fetch localIP (ip # ips) =
     (if ip = [] then proofLoop fetch localIP ips
      else if localIP \<noteq> [] \<and> ip = localIP then proofLoop fetch localIP ips
      else case fetch ip of
             Ok proofs \<Rightarrow> statusProofs ip proofs @ proofLoop fetch localIP ips
           | _ \<Rightarrow> proofLoop fetch localIP ips)"

definition collectProofInfos :: "http_client \<Rightarrow> Config \<Rightarrow> world \<Rightarrow> (os_error, ProofInfo list) outcome" where
  "collectProofInfos get cfg w =
     (let localIP = (case readMinerInfoFile (JoinPath [RepoRoot cfg, ''miner_info.log'']) w of
                       Ok info \<Rightarrow> NodeIP info | _ \<Rightarrow> []);
          rest = (\<lambda>out.
            bindO (loadIPs (JoinPath [RepoRoot cfg, ''miner_ip.log'']) w)
              (\<lambda>ips. Ok (out @ proofLoop (fetchRemoteProofInfo get cfg) localIP ips)))
      in case readProofInfoFile (JoinPath [RepoRoot cfg, ''proof_info.log'']) w of
           Ok localProofs \<Rightarrow> rest (statusProofs localIP localProofs)
         | Err ErrNotExist \<Rightarrow> rest []
         | Err e \<Rightarrow> Err e
         | Panic \<Rightarrow> Panic)"

section \<open>The server reads what the miner writes\<close>

text \<open>The server's view of the miner's proof log.\<close>

definition proofView :: "ProofRecord \<Rightarrow> ProofInfo" where
  "proofView r =
     \<lparr>PNodeIP = [], ProofType = Type r, PStatus = Status r, PTimestamp = Timestamp r,
      PGenerateDurationSeconds = GenerateDurationSeconds r,
      PVerifyDurationMilliseconds = VerifyDurationMilliseconds r\<rparr>"

definition stateView :: "proofInfoState \<Rightarrow> ProofInfo \<times> ProofInfo" where
  "stateView st = (proofView (StorageProof st), proofView (WindowPoSt st))"

interpretation pview: kv_view putState putProofInfo stateView
proof
  show "putProofInfo k v (stateView s) = stateView (putState k v s)" for k v s
    by (simp add: putProofInfo_def putState_def stateView_def proofView_def putStorage_def putWindow_def)
qed

lemma stateView_fresh: "stateView freshState = freshProofInfos"
  by (simp add: stateView_def proofView_def freshState_def freshProofInfos_def StorageProofT_def WindowPoStT_def)

lemma parseProofInfo_view:
  "\<not> scan_err s \<Longrightarrow> parseProofInfo s =
     Ok [proofView (StorageProof (kv_scan putState s freshState)),
         proofView (WindowPoSt (kv_scan putState s freshState))]"
  using pview.scan_view [of s freshState, unfolded stateView_fresh]
  by (simp add: parseProofInfo_def, simp add: stateView_def)

text \<open>Whatever the file holds, the miner and the server read the same records from it.\<close>

lemma readProofInfoFile_view:
  "loadState path w = Ok st \<Longrightarrow> content w path \<noteq> None \<Longrightarrow>
   readProofInfoFile path w = Ok [proofView (StorageProof st), proofView (WindowPoSt st)]"
  by (auto simp: loadState_def readProofInfoFile_def os_ReadFile_def parseProofInfo_view split: if_splits)

text \<open>The server's view of a miner snapshot: its texts, trimmed.\<close>

definition snapshotView :: "minerInfoSnapshot \<Rightarrow> MinerInfoJ" where
  "snapshotView info =
     \<lparr>NodeIP = TrimSpace (IPText info), Index = TrimSpace (Miner info),
      StoragePower = TrimSpace (QualityAdjustedPower info),
      JCommittedSpace = TrimSpace (CommittedSpace info), JUserDataSize = TrimSpace (UserDataSize info)\<rparr>"

definition lines_fit :: "(string \<times> string) option list \<Rightarrow> bool" where
  "lines_fit es \<longleftrightarrow> (\<forall>e\<in>set es. length (kv_render e) < MaxScanTokenSize)"

lemma parseMinerInfo_snapshot:
  assumes "snapshot_ok info" "lines_fit (snapshotEntries info)"
  shows "parseMinerInfo (kv_file (snapshotEntries info)) = Ok (snapshotView info)"
proof -
  have ne: "snapshotEntries info \<noteq> []" by (simp add: snapshotEntries_def)
  have "\<not> scan_err (kv_file (snapshotEntries info))"
    using assms by (intro scan_err_file [OF ne]) (simp_all add: snapshot_ok_def lines_fit_def)
  moreover have "kv_scan putMinerInfo (kv_file (snapshotEntries info)) noMinerInfo = snapshotView info"
    using kv_scan_file [OF ne, of putMinerInfo] assms(1)
    by (simp add: snapshot_ok_def snapshotEntries_def putMinerInfo_def noMinerInfo_def snapshotView_def)
  ultimately show ?thesis by (simp add: parseMinerInfo_def)
qed

lemma writeMinerInfoLog_content:
  assumes "writeMinerInfoLog path info w = (w', None)"
  shows "content w' path = Some (kv_file (snapshotEntries info))" "read_fails w' = read_fails w"
proof -
  let ?w = "w\<lparr>dirs := (dirs w)(Dir path := True)\<rparr>"
  obtain w1 where w1: "read_fails w1 = read_fails w"
    "replace_file w1 path (kv_file (snapshotEntries info)) = (w', None)"
  proof (cases "Dir path \<noteq> [] \<and> Dir path \<noteq> ''.''")
    case True
    with assms have "replace_file ?w path (kv_file (snapshotEntries info)) = (w', None)"
      by (auto simp: writeMinerInfoLog_def Let_def os_MkdirAll_def
          split: if_splits prod.splits option.splits replace_error.splits)
    then show ?thesis by (intro that [of ?w]) simp_all
  next
    case False
    with assms have "replace_file w path (kv_file (snapshotEntries info)) = (w', None)"
      by (auto simp: writeMinerInfoLog_def Let_def split: prod.splits option.splits replace_error.splits)
    then show ?thesis by (intro that [of w]) simp_all
  qed
  then show "content w' path = Some (kv_file (snapshotEntries info))" "read_fails w' = read_fails w"
    using replace_file_Ok [OF w1(2)] by simp_all
qed

section \<open>Lists without duplicates\<close>

definition firstOccurrences :: "'a list \<Rightarrow> 'a list" where
  "firstOccurrences xs = rev (remdups (rev xs))"

lemma firstOccurrences_Cons:
  "firstOccurrences (x # xs) = x # filter (\<lambda>y. y \<noteq> x) (firstOccurrences xs)"
proof (induction xs rule: rev_induct)
  case (snoc y ys)
  then show ?case by (auto simp: firstOccurrences_def filter_id_conv)
qed (simp add: firstOccurrences_def)

lemma uniqueLines_filter:
  "uniqueLines seen ls =
     filter (\<lambda>l. l \<notin> set seen) (firstOccurrences (filter (\<lambda>l. l \<noteq> []) (map TrimSpace ls)))"
proof (induction seen ls rule: uniqueLines.induct)
  case (2 seen l ls)
  show ?case
    using 2 by (cases "TrimSpace l = []"; cases "TrimSpace l \<in> set seen")
      (auto simp: Let_def firstOccurrences_Cons intro!: filter_cong)
qed (simp add: firstOccurrences_def)

section \<open>Properties\<close>

text \<open>
  C7: The server sees what the miner logged: after a proof is completed on the miner, the
  server's parser finds, in the file the miner wrote, the completed record of that type.
\<close>

theorem completed_proof_seen:
  assumes "loadState fileName w = Ok st" "state_ok st" "\<not> read_fails w fileName"
    and pt: "pt = StorageProofT \<or> pt = WindowPoStT"
    and now: "text_ok (RFC3339 now)"
    and complete: "CompleteProof now pt startedAt verifyStartedAt w = (w', None)"
  shows "\<exists>proofs. readProofInfoFile fileName w' = Ok proofs \<and>
    proofView (completeRecord pt startedAt verifyStartedAt now) \<in> set proofs"
proof -
  let ?r = "completeRecord pt startedAt verifyStartedAt now"
  have ptok: "text_ok pt" using pt proof_types_ok by blast
  have u: "updateLog ?r w = (w', None)" using complete by (simp add: CompleteProof_def)
  have l: "loadState fileName w' = Ok (setRecord st ?r)"
    by (rule updateLog_load [OF assms(1,2) completed_ok [OF ptok now] assms(3) u])
  have "replace_file w fileName (kv_file (stateEntries (setRecord st ?r))) = (w', None)"
    using u assms(1)
    by (auto simp: updateLog_def writeState_def split: prod.splits option.splits replace_error.splits)
  then have "content w' fileName \<noteq> None" using replace_file_Ok(1) by (metis fun_upd_same option.distinct(1))
  from readProofInfoFile_view [OF l this] show ?thesis
    using pt by (auto simp: setRecord_def completeRecord_def)
qed

text \<open>
  C8: A miner's report reaches the server: after the miner has updated its log, the server
  that fetches it over HTTP gets the collected snapshot, with the texts trimmed.
\<close>

theorem miner_report_fetched:
  assumes collect: "collectMinerInfoSnapshot env = Ok info" "\<And>a. ActorAddress env = Some a \<Longrightarrow> val_line a"
    and "lines_fit (snapshotEntries info)"
    and upd: "updateMinerInfoLog env ''miner_info.log'' w = (w', None)" "\<not> read_fails w ''miner_info.log''"
    and get: "get (logURL cfg ip ''/miner_info.log'') = Some (minerLogMux ''GET'' ''/miner_info.log'' w')"
  shows "fetchRemoteMinerInfo get cfg ip =
    Ok (if TrimSpace (IPText info) = [] then (snapshotView info)\<lparr>NodeIP := ip\<rparr> else snapshotView info)"
proof -
  have "writeMinerInfoLog ''miner_info.log'' info w = (w', None)"
    using upd(1) collect(1) by (simp add: updateMinerInfoLog_def)
  note c = writeMinerInfoLog_content [OF this]
  have "minerLogMux ''GET'' ''/miner_info.log'' w' =
      \<lparr>StatusCode = 200, ContentType = textPlain, Body = kv_file (snapshotEntries info)\<rparr>"
    using c upd(2) by (simp add: minerLogMux_def serveStaticLogFile_def os_ReadFile_def)
  then show ?thesis
    using parseMinerInfo_snapshot [OF collected_ok [OF collect] assms(3)] get
    by (simp add: fetchRemoteMinerInfo_def snapshotView_def)
qed

text \<open>
  The address and root lists: each line once, trimmed, blanks dropped, in the order of
  the first occurrence.
\<close>

theorem loadIPs_lines:
  assumes "os_ReadFile w path = Ok s" "\<not> scan_err s"
  shows "loadIPs path w = Ok (firstOccurrences (filter (\<lambda>l. l \<noteq> []) (map TrimSpace (scan_lines s))))"
  using assms by (simp add: loadIPs_def loadLines_def uniqueLines_filter)

section \<open>A miner and a server\<close>

theorem completed_proof_seen_witness:
  "\<exists>w' proofs. CompleteProof later StorageProofT noon noon emptyWorld = (w', None) \<and>
     readProofInfoFile fileName w' = Ok proofs \<and>
     proofView (completeRecord StorageProofT noon noon later) \<in> set proofs"
proof -
  obtain w' where w': "updateLog (completeRecord StorageProofT noon noon later) emptyWorld = (w', None)"
    by (rule updateLog_succeeds [OF fresh_loaded]) auto
  then have c: "CompleteProof later StorageProofT noon noon emptyWorld = (w', None)"
    by (simp add: CompleteProof_def)
  show ?thesis
    using c completed_proof_seen [OF fresh_loaded fresh_ok _ _ times_ok(2) c] by auto
qed

definition demoEnv :: miner_env where
  "demoEnv =
     \<lparr>Interfaces = Some [], InterfaceAddrs = Some [IPNet [10, 0, 0, 7], IPNet [203, 0, 113, 5]],
      ActorAddress = Some ''f01000'', QualityAdjPower = Some 4096, SectorSize = Some 2048,
      LiveSectors = Some 2, SectorsList = Some [1],
      SectorsStatus = (\<lambda>_. Some \<lparr>State = Proving, Pieces = [], Activation = 0, Expiration = 10,
         DealWeight = 5120, VerifiedDealWeight = 0\<rparr>)\<rparr>"

definition demoSnapshot :: minerInfoSnapshot where
  "demoSnapshot =
     \<lparr>IPText = ''203.0.113.5'', Miner = ''f01000'', QualityAdjustedPower = ''4 Ki'',
      CommittedSpace = ''4 KiB'', UserDataSize = ''512 B''\<rparr>"

lemma demo_collected: "collectMinerInfoSnapshot demoEnv = Ok demoSnapshot"
  by code_simp

lemma demo_fit: "lines_fit (snapshotEntries demoSnapshot)"
  by (simp add: lines_fit_def snapshotEntries_def demoSnapshot_def kv_render_def MaxScanTokenSize_def)

lemma demo_update:
  obtains w' where "updateMinerInfoLog demoEnv ''miner_info.log'' emptyWorld = (w', None)"
proof -
  have "Dir ''miner_info.log'' = ''.''" by code_simp
  moreover obtain w' where
    "replace_file emptyWorld ''miner_info.log'' (kv_file (snapshotEntries demoSnapshot)) = (w', None)"
    using replace_file_succeeds [of emptyWorld "''miner_info.log''" "kv_file (snapshotEntries demoSnapshot)"]
    by (metis emptyWorld_simps(2,5) prod.collapse)
  ultimately show ?thesis
    by (intro that [of w']) (simp add: updateMinerInfoLog_def demo_collected writeMinerInfoLog_def)
qed

theorem miner_report_fetched_witness:
  "\<exists>w'. updateMinerInfoLog demoEnv ''miner_info.log'' emptyWorld = (w', None) \<and>
     fetchRemoteMinerInfo (\<lambda>_. Some (minerLogMux ''GET'' ''/miner_info.log'' w'))
       \<lparr>Addr = [], RepoRoot = [], LotusBin = [], MinerHTTPPort = 18080, DealPrice = [], DealDuration = []\<rparr>
       ''203.0.113.5'' = Ok (snapshotView demoSnapshot)"
proof -
  obtain w' where u: "updateMinerInfoLog demoEnv ''miner_info.log'' emptyWorld = (w', None)"
    by (rule demo_update)
  have "val_line ''f01000''" by code_simp
  then have a: "val_line a" if "ActorAddress demoEnv = Some a" for a
    using that by (simp add: demoEnv_def)
  have "TrimSpace (IPText demoSnapshot) \<noteq> []" by code_simp
  then show ?thesis
    using u miner_report_fetched [OF demo_collected a demo_fit u] by auto
qed

definition ipWorld :: world where
  "ipWorld = emptyWorld\<lparr>content := [''/d/miner_ip.log'' \<mapsto>
     unlines [''10.0.0.1'', '' 10.0.0.2 '', [], ''10.0.0.1'']]\<rparr>"

theorem loadIPs_lines_witness:
  "loadIPs ''/d/miner_ip.log'' ipWorld = Ok [''10.0.0.1'', ''10.0.0.2'']"
proof -
  let ?s = "unlines [''10.0.0.1'', '' 10.0.0.2 '', [], ''10.0.0.1'']"
  have r: "os_ReadFile ipWorld ''/d/miner_ip.log'' = Ok ?s"
    by (simp add: os_ReadFile_def ipWorld_def)
  have "\<forall>l\<in>set [''10.0.0.1'', '' 10.0.0.2 '', [], ''10.0.0.1'']. line_ok l" by (simp add: line_ok_def)
  from scan_err_unlines [OF this] have e: "\<not> scan_err ?s" by (simp add: MaxScanTokenSize_def)
  have "firstOccurrences (filter (\<lambda>l. l \<noteq> []) (map TrimSpace (scan_lines ?s))) = [''10.0.0.1'', ''10.0.0.2'']"
    by code_simp
  then show ?thesis using loadIPs_lines [OF r e] by simp
qed

end
