(* ===== verification/VersionMeta.thy ===== *)
theory VersionMeta
  imports KeyValueLog
begin

text \<open>
  The version chain of a file: one \<open><cid>_meta\<close> file per version, its first line the previous
  version and its second the next one, \<open>NULL\<close> at the two ends. The files are written by
  \<open>lotus client deal --create\<close> and \<open>--update\<close> (\<open>src/cli/client.go\<close>) and
  walked forwards by \<open>list-version\<close> and by the API server (\<open>loadVersionsFromMeta\<close> in
  \<open>src/cmd/opendsn-api/handlers.go\<close>) and backwards by \<open>retrieve-version\<close>
  (\<open>src/cli/client_retr.go\<close>).
\<close>

section \<open>Walking a chain\<close>

text \<open>
  The loop the three walks share. \<open>step\<close> reads the metadata of a version and says where
  to go, if anywhere; a version met again is an error. The loop returns the versions it went
  to, in order. It need not end on an infinite chain, so its result is an option.
\<close>

partial_function (option) chainLoop ::
  "(string \<Rightarrow> ('e, string option) outcome) \<Rightarrow> (string \<Rightarrow> 'e) \<Rightarrow> string list \<Rightarrow> string \<Rightarrow>
   ('e, string list) outcome option" where
  "chainLoop step cycle visited current =
     (if current \<in> set visited then Some (Err (cycle current))
      else case step current of
             Err e \<Rightarrow> Some (Err e)
           | Panic \<Rightarrow> Some Panic
           | Ok None \<Rightarrow> Some (Ok [])
           | Ok (Some next) \<Rightarrow>
               Option.bind (chainLoop step cycle (current # visited) next)
                 (\<lambda>r. Some (bindO r (\<lambda>rest. Ok (next # rest)))))"

declare chainLoop.simps [code]

text \<open>The lines of a metadata file.\<close>

definition metaLines :: "string \<Rightarrow> string list" where
  "metaLines meta = split_on (CHR 0x0A) (TrimRightNL (ReplaceCRLF meta))"

definition NULL :: string where "NULL = ''NULL''"

section \<open>The server's list of versions\<close>

record VersionInfo =
  Label :: string
  VCID :: string

datatype meta_error =
    MetaNotFound string | MetaStat | MetaCycle string | MetaRead string | MetaInvalid string | MetaEmptyHead string
  | MetaBadCid string string | MetaEmptyFirst string

definition apiMetaPath :: "string \<Rightarrow> string \<Rightarrow> string" where
  "apiMetaPath repoRoot cid = JoinPath [repoRoot, cid @ ''_meta'']"

definition apiStep :: "world \<Rightarrow> string \<Rightarrow> string \<Rightarrow> (meta_error, string option) outcome" where
  "apiStep w repoRoot current =
     (case os_ReadFile w (apiMetaPath repoRoot current) of
        Ok meta \<Rightarrow>
          (let lines = metaLines meta in
           if length lines < 2 then Err (MetaInvalid current)
           else let nextCID = TrimSpace (lines ! 1) in
             if nextCID = [] then Err (MetaEmptyHead current)
             else if nextCID = NULL then Ok None
             else Ok (Some nextCID))
      | _ \<Rightarrow> Err (MetaRead current))"

definition versionInfos :: "string \<Rightarrow> string list \<Rightarrow> VersionInfo list" where
  "versionInfos root cids =
     \<lparr>Label = ''ROOT(v1)'', VCID = root\<rparr> #
     map (\<lambda>(i, c). \<lparr>Label = ''HEAD(v'' @ Itoa (int i) @ '')'', VCID = c\<rparr>) (enumerate 2 cids)"

definition loadVersionsFromMeta :: "string \<Rightarrow> string \<Rightarrow> world \<Rightarrow> (meta_error, VersionInfo list) outcome option" where
  "loadVersionsFromMeta repoRoot root w =
     (case os_Stat w (apiMetaPath repoRoot root) of
        Err ErrNotExist \<Rightarrow> Some (Err (MetaNotFound root))
      | Err ErrOther \<Rightarrow> Some (Err MetaStat)
      | Panic \<Rightarrow> Some Panic
      | Ok _ \<Rightarrow> Option.bind (chainLoop (apiStep w repoRoot) MetaCycle [] root)
                  (\<lambda>r. Some (bindO r (\<lambda>cids. Ok (versionInfos root cids)))))"

section \<open>The commands of the client\<close>

definition metaPath :: "string \<Rightarrow> string" where
  "metaPath cid = cid @ ''_meta''"

text \<open>\<open>list-version\<close>; \<open>cidParse\<close> is \<open>cid.Parse\<close> of the go-cid package.\<close>

definition listStep :: "(string \<Rightarrow> string option) \<Rightarrow> world \<Rightarrow> string \<Rightarrow> (meta_error, string option) outcome" where
  "listStep cidParse w current =
     (case os_ReadFile w (metaPath current) of
        Ok meta \<Rightarrow>
          (let lines = metaLines meta in
           if length lines < 2 then Err (MetaInvalid current)
           else let nextCid = TrimSpace (lines ! 1) in
             if nextCid = [] then Err (MetaEmptyHead current)
             else if nextCid = NULL then Ok None
             else case cidParse nextCid of
                    None \<Rightarrow> Err (MetaBadCid current nextCid)
                  | Some _ \<Rightarrow> Ok (Some nextCid))
      | _ \<Rightarrow> Err (MetaRead current))"

datatype list_error = ListArgs | ListEmpty | ListParse | ListChecking | ListMeta meta_error

text \<open>What is printed: the message that there is no such file, or the chain.\<close>

datatype list_output = NoSuchFile | VersionChain "string list"

definition listVersion ::
  "(string \<Rightarrow> string option) \<Rightarrow> string list \<Rightarrow> world \<Rightarrow> (list_error, list_output) outcome option" where
  "listVersion cidParse args w =
     (if length args \<noteq> 1 then Some (Err ListArgs)
      else let rootCid = TrimSpace (args ! 0) in
        if rootCid = [] then Some (Err ListEmpty)
        else if cidParse rootCid = None then Some (Err ListParse)
        else case os_Stat w (metaPath rootCid) of
               Err ErrNotExist \<Rightarrow> Some (Ok NoSuchFile)
             | Err ErrOther \<Rightarrow> Some (Err ListChecking)
             | Panic \<Rightarrow> Some Panic
             | Ok _ \<Rightarrow>
                 Option.bind (chainLoop (listStep cidParse w) MetaCycle [] rootCid)
                   (\<lambda>r. Some (case r of
                       Ok cids \<Rightarrow> Ok (VersionChain (rootCid # cids))
                     | Err e \<Rightarrow> Err (ListMeta e)
                     | Panic \<Rightarrow> Panic)))"

text \<open>The backward walk of \<open>retrieve-version\<close>: the chain from the root to the target.\<close>

definition backStep :: "(string \<Rightarrow> string option) \<Rightarrow> world \<Rightarrow> string \<Rightarrow> (meta_error, string option) outcome" where
  "backStep cidParse w current =
     (case os_ReadFile w (metaPath current) of
        Ok meta \<Rightarrow>
          (let lines = metaLines meta in
           if length lines < 2 then Err (MetaInvalid current)
           else let previousCidStr = TrimSpace (lines ! 0) in
             if previousCidStr = [] then Err (MetaEmptyFirst current)
             else if previousCidStr = NULL then Ok None
             else case cidParse previousCidStr of
                    None \<Rightarrow> Err (MetaBadCid current previousCidStr)
                  | Some _ \<Rightarrow> Ok (Some previousCidStr))
      | _ \<Rightarrow> Err (MetaRead current))"

definition resolveChain ::
  "(string \<Rightarrow> string option) \<Rightarrow> string \<Rightarrow> world \<Rightarrow> (meta_error, string list) outcome option" where
  "resolveChain cidParse target w =
     Option.bind (chainLoop (backStep cidParse w) MetaCycle [] target)
       (\<lambda>r. Some (bindO r (\<lambda>cids. Ok (rev (target # cids)))))"

text \<open>\<open>list-root\<close>: the numbered roots, or one of the two messages.\<close>

datatype roots_output = NoRoots | EmptyRoots | Roots "(nat \<times> string) list"

definition listRoot :: "string list \<Rightarrow> world \<Rightarrow> (list_error, roots_output) outcome" where
  "listRoot args w =
     (if length args \<noteq> 0 then Err ListArgs
      else case os_ReadFile w ''fileroots.log'' of
             Err ErrNotExist \<Rightarrow> Ok NoRoots
           | Ok meta \<Rightarrow>
               (let normalized = TrimSpace (ReplaceCRLF meta) in
                if normalized = [] then Ok EmptyRoots
                else Ok (Roots (enumerate 0
                       (filter (\<lambda>c. c \<noteq> []) (map TrimSpace (split_on (CHR 0x0A) normalized))))))
           | _ \<Rightarrow> Err ListChecking)"

section \<open>Recording a version\<close>

datatype record_error = OpenRoots | WriteMeta string | ReadMeta string | InvalidMeta string

text \<open>After a deal with \<open>--create\<close>: the root list and the metadata of a first version.\<close>

definition recordCreate :: "string \<Rightarrow> world \<Rightarrow> world \<times> record_error option" where
  "recordCreate dataCid w =
     (case os_AppendFile w ''fileroots.log'' (dataCid @ [CHR 0x0A]) of
        Ok w1 \<Rightarrow>
          (case os_WriteFile w1 (metaPath dataCid) (unlines [NULL, NULL]) of
             Ok w2 \<Rightarrow> (w2, None)
           | _ \<Rightarrow> (w1, Some (WriteMeta (metaPath dataCid))))
      | _ \<Rightarrow> (w, Some OpenRoots))"

text \<open>After a deal with \<open>--update\<close>: the link from the previous version and the new metadata.\<close>

definition recordUpdate :: "string \<Rightarrow> string \<Rightarrow> world \<Rightarrow> world \<times> record_error option" where
  "recordUpdate previousCid dataCid w =
     (case os_ReadFile w (metaPath previousCid) of
        Ok meta \<Rightarrow>
          (let lines = metaLines meta in
           if length lines < 2 then (w, Some (InvalidMeta (metaPath previousCid)))
           else
             case os_WriteFile w (metaPath previousCid)
                    (join_with [CHR 0x0A] (lines[1 := dataCid]) @ [CHR 0x0A]) of
               Ok w1 \<Rightarrow>
                 (case os_WriteFile w1 (metaPath dataCid) (unlines [previousCid, NULL]) of
                    Ok w2 \<Rightarrow> (w2, None)
                  | _ \<Rightarrow> (w1, Some (WriteMeta (metaPath dataCid))))
             | _ \<Rightarrow> (w, Some (WriteMeta (metaPath previousCid))))
      | _ \<Rightarrow> (w, Some (ReadMeta (metaPath previousCid))))"

section \<open>The loop ends\<close>

lemma chainLoop_terminates:
  assumes "finite S" "\<And>c n. c \<in> S \<Longrightarrow> step c = Ok (Some n) \<Longrightarrow> n \<in> S" "current \<in> S"
  shows "\<exists>r. chainLoop step cycle visited current = Some r"
proof -
  have "current \<in> S \<Longrightarrow> card (S - set visited) = k \<Longrightarrow> \<exists>r. chainLoop step cycle visited current = Some r" for k
  proof (induction k arbitrary: visited current rule: less_induct)
    case (less k)
    show ?case
    proof (cases "current \<notin> set visited \<and> (\<exists>n. step current = Ok (Some n))")
      case True
      then obtain n where n: "step current = Ok (Some n)" by blast
      have "S - set (current # visited) = (S - set visited) - {current}" by auto
      then have "card (S - set (current # visited)) < k"
        using True assms(1) less.prems by (metis DiffI card_Diff1_less finite_Diff)
      then obtain r where "chainLoop step cycle (current # visited) n = Some r"
        using less.IH assms(2) less.prems(1) n by blast
      with True n show ?thesis by (subst chainLoop.simps) simp
    next
      case False
      then show ?thesis
        by (subst chainLoop.simps) (auto split: outcome.split option.split)
    qed
  qed
  with assms(3) show ?thesis by blast
qed

lemma chainLoop_range_terminates:
  assumes "finite {n. \<exists>c. step c = Ok (Some n)}"
  shows "\<exists>r. chainLoop step cycle visited current = Some r"
  by (rule chainLoop_terminates [of "insert current {n. \<exists>c. step c = Ok (Some n)}"]) (use assms in auto)

lemma read_lines_finite:
  assumes "finite (dom (content w))"
    and "\<And>c n. step c = Ok (Some n) \<Longrightarrow> \<exists>p x. os_ReadFile w p = Ok x \<and> n = TrimSpace (metaLines x ! i)"
  shows "finite {n. \<exists>c. step c = Ok (Some n)}"
proof (rule finite_subset)
  show "finite ((\<lambda>x. TrimSpace (metaLines x ! i)) ` ran (content w))"
    using assms(1) by (simp add: finite_ran)
  have "os_ReadFile w p = Ok x \<Longrightarrow> x \<in> ran (content w)" for p x
    by (auto simp: os_ReadFile_def ran_def split: if_splits option.splits)
  with assms(2) show "{n. \<exists>c. step c = Ok (Some n)} \<subseteq> (\<lambda>x. TrimSpace (metaLines x ! i)) ` ran (content w)"
    by blast
qed

lemma meta_steps_line:
  "apiStep w repoRoot c = Ok (Some n) \<Longrightarrow> \<exists>p x. os_ReadFile w p = Ok x \<and> n = TrimSpace (metaLines x ! 1)"
  "listStep cidParse w c = Ok (Some n) \<Longrightarrow> \<exists>p x. os_ReadFile w p = Ok x \<and> n = TrimSpace (metaLines x ! 1)"
  "backStep cidParse w c = Ok (Some n) \<Longrightarrow> \<exists>p x. os_ReadFile w p = Ok x \<and> n = TrimSpace (metaLines x ! 0)"
  by (cases "os_ReadFile w (apiMetaPath repoRoot c)";
      fastforce simp: apiStep_def Let_def split: if_splits)
    (cases "os_ReadFile w (metaPath c)";
      fastforce simp: listStep_def backStep_def Let_def split: if_splits option.splits)+

lemma meta_steps_range:
  assumes "finite (dom (content w))"
  shows "finite {n. \<exists>c. apiStep w repoRoot c = Ok (Some n)}"
    and "finite {n. \<exists>c. listStep cidParse w c = Ok (Some n)}"
    and "finite {n. \<exists>c. backStep cidParse w c = Ok (Some n)}"
  by (rule read_lines_finite [OF assms], erule meta_steps_line)+

lemma chainLoop_Ok:
  "chainLoop step cycle visited current = Some (Ok cids) \<longleftrightarrow>
     current \<notin> set visited \<and>
     (case cids of
        [] \<Rightarrow> step current = Ok None
      | a # r \<Rightarrow> step current = Ok (Some a) \<and> chainLoop step cycle (current # visited) a = Some (Ok r))"
  by (subst chainLoop.simps)
    (auto simp: bindO_eq_Ok bind_eq_Some_conv split: list.split outcome.split option.split)

lemma chainLoop_cong:
  assumes "chainLoop step cycle visited current = Some (Ok cids)"
    and "\<And>c. c \<in> set (current # cids) \<Longrightarrow> step' c = step c"
  shows "chainLoop step' cycle visited current = Some (Ok cids)"
  using assms
  by (induction cids arbitrary: visited current) (simp_all add: chainLoop_Ok)

text \<open>A list the step function follows to its end.\<close>

fun follows :: "(string \<Rightarrow> ('e, string option) outcome) \<Rightarrow> string list \<Rightarrow> bool" where
  "follows step [] = False"
| "follows step [c] = (step c = Ok None)"
| "follows step (c # d # cs) = (step c = Ok (Some d) \<and> follows step (d # cs))"

lemma chainLoop_follows:
  "follows step cs \<Longrightarrow> distinct cs \<Longrightarrow> set visited \<inter> set cs = {} \<Longrightarrow>
   chainLoop step cycle visited (hd cs) = Some (Ok (tl cs))"
proof (induction step cs arbitrary: visited rule: follows.induct)
  case (2 step c)
  then show ?case by (subst chainLoop.simps) simp
next
  case (3 step c d cs)
  then have "chainLoop step cycle (c # visited) d = Some (Ok cs)"
    using "3.IH" [of "c # visited"] by auto
  with 3 show ?case by (subst chainLoop.simps) simp
qed simp

section \<open>The chain the metadata files hold\<close>

definition cid_ok :: "string \<Rightarrow> bool" where
  "cid_ok c \<longleftrightarrow> c \<noteq> [] \<and> c \<noteq> NULL \<and> (\<forall>x\<in>set c. plain_char x \<and> x \<noteq> CHR ''/'')"

fun linked :: "world \<Rightarrow> string \<Rightarrow> string list \<Rightarrow> bool" where
  "linked w previous [] = True"
| "linked w previous [c] = (os_ReadFile w (metaPath c) = Ok (unlines [previous, NULL]))"
| "linked w previous (c # d # cs) =
     (os_ReadFile w (metaPath c) = Ok (unlines [previous, d]) \<and> linked w c (d # cs))"

definition chain_ok :: "world \<Rightarrow> string list \<Rightarrow> bool" where
  "chain_ok w cs \<longleftrightarrow> cs \<noteq> [] \<and> distinct cs \<and> (\<forall>c\<in>set cs. cid_ok c) \<and> linked w NULL cs"

lemma cid_ok_line:
  assumes "cid_ok c \<or> c = NULL"
  shows "CHR 0x0A \<notin> set c" "CHR 0x0D \<notin> set c" "c \<noteq> []" "TrimSpace c = c"
proof -
  from assms have p: "\<forall>x\<in>set c. plain_char x" by (auto simp: cid_ok_def NULL_def plain_char_def asciiSpace_def)
  then show "CHR 0x0A \<notin> set c" "CHR 0x0D \<notin> set c" by (auto simp: plain_char_def asciiSpace_def)
  show "c \<noteq> []" using assms by (auto simp: cid_ok_def NULL_def)
  show "TrimSpace c = c" using p plain_ends_trim [of c] by (cases "c = []") simp_all
qed

lemma cid_ok_NULL [simp]: "\<not> cid_ok NULL"
  by (simp add: cid_ok_def)

lemma metaLines_two:
  assumes "cid_ok a \<or> a = NULL" "cid_ok b \<or> b = NULL"
  shows "metaLines (unlines [a, b]) = [a, b]"
proof -
  note a = cid_ok_line [OF assms(1)] and b = cid_ok_line [OF assms(2)]
  have "last b \<noteq> CHR 0x0A" using b(1,3) last_in_set by metis
  then have "TrimRightNL (a @ CHR 0x0A # b) = a @ CHR 0x0A # b"
    using b(3) by (intro TrimRightNL_id) simp
  moreover have "unlines [a, b] = (a @ CHR 0x0A # b) @ [CHR 0x0A]" by (simp add: unlines_def)
  moreover have "ReplaceCRLF (unlines [a, b]) = unlines [a, b]"
    using a(2) b(2) by (intro ReplaceCRLF_id) (simp add: unlines_def)
  ultimately have "metaLines (unlines [a, b]) = split_on (CHR 0x0A) (a @ CHR 0x0A # b)"
    unfolding metaLines_def by (metis TrimRightNL_snoc)
  then show ?thesis using a(1) b(1) by (simp add: split_on_append split_on_no_sep)
qed

abbreviation end_ok :: "string \<Rightarrow> bool" where
  "end_ok c \<equiv> cid_ok c \<or> c = NULL"

lemma meta_steps:
  assumes "os_ReadFile w (metaPath c) = Ok (unlines [a, b])" "end_ok a" "end_ok b"
  shows "listStep cidParse w c =
      (if b = NULL then Ok None else if cidParse b = None then Err (MetaBadCid c b) else Ok (Some b))"
    and "backStep cidParse w c =
      (if a = NULL then Ok None else if cidParse a = None then Err (MetaBadCid c a) else Ok (Some a))"
  using assms cid_ok_line [of a] cid_ok_line [of b]
  by (auto simp: listStep_def backStep_def metaLines_two simp del: unlines_simps split: option.split)

lemma follows_list:
  "linked w p cs \<Longrightarrow> cs \<noteq> [] \<Longrightarrow> end_ok p \<Longrightarrow> \<forall>c\<in>set cs. cid_ok c \<and> cidParse c \<noteq> None \<Longrightarrow>
   follows (listStep cidParse w) cs"
  by (induction w p cs rule: linked.induct) (auto simp: meta_steps simp del: unlines_simps)

lemma linked_read_head:
  "linked w p (c # cs) \<Longrightarrow> \<forall>c\<in>set cs. cid_ok c \<Longrightarrow>
   \<exists>n. end_ok n \<and> os_ReadFile w (metaPath c) = Ok (unlines [p, n])"
  by (cases cs) auto

lemma follows_back_from:
  "linked w p cs \<Longrightarrow> k < length cs \<Longrightarrow> cid_ok p \<Longrightarrow> cidParse p \<noteq> None \<Longrightarrow>
   \<forall>c\<in>set cs. cid_ok c \<and> cidParse c \<noteq> None \<Longrightarrow> follows (backStep cidParse w) (p # rest) \<Longrightarrow>
   follows (backStep cidParse w) (rev (take (Suc k) cs) @ p # rest)"
proof (induction cs arbitrary: p k rest)
  case (Cons c cs)
  obtain n where n: "end_ok n" "os_ReadFile w (metaPath c) = Ok (unlines [p, n])"
    using linked_read_head [OF Cons.prems(1)] Cons.prems(5) by auto
  have one: "follows (backStep cidParse w) (c # p # rest)"
    using meta_steps(2) [OF n(2) _ n(1), of cidParse] Cons.prems by auto
  show ?case
  proof (cases k)
    case (Suc j)
    with Cons.prems(2) obtain d ds where cs: "cs = d # ds" by (cases cs) auto
    show ?thesis
      using Cons.IH [of c j "p # rest"] Cons.prems one Suc cs by simp
  qed (use one in simp)
qed simp

lemma follows_back:
  assumes "linked w NULL cs" "k < length cs" "\<forall>c\<in>set cs. cid_ok c \<and> cidParse c \<noteq> None"
  shows "follows (backStep cidParse w) (rev (take (Suc k) cs))"
proof -
  obtain c ds where cs: "cs = c # ds" using assms(2) by (cases cs) auto
  obtain n where n: "end_ok n" "os_ReadFile w (metaPath c) = Ok (unlines [NULL, n])"
    using linked_read_head [of w NULL c ds] assms cs by auto
  have one: "follows (backStep cidParse w) [c]"
    using meta_steps(2) [OF n(2) _ n(1), of cidParse] by simp
  show ?thesis
  proof (cases k)
    case (Suc j)
    with assms(2) cs obtain d es where ds: "ds = d # es" by (cases ds) auto
    show ?thesis
      using follows_back_from [of w c ds j cidParse "[]"] assms one Suc cs ds by simp
  qed (use one cs in simp)
qed

section \<open>What a record keeps of the chain\<close>

lemma metaPath_inject [simp]: "metaPath a = metaPath b \<longleftrightarrow> a = b"
  by (simp add: metaPath_def)

lemma metaPath_roots [simp]: "metaPath c \<noteq> ''fileroots.log''" "''fileroots.log'' \<noteq> metaPath c"
  using arg_cong [of "metaPath c" "''fileroots.log''" last] by (auto simp: metaPath_def)

definition meta_writable :: "world \<Rightarrow> string \<Rightarrow> bool" where
  "meta_writable w c \<longleftrightarrow> \<not> write_fails w (metaPath c) \<and> \<not> dirs w (metaPath c) \<and>
     \<not> read_fails w (metaPath c) \<and> \<not> stat_fails w (metaPath c)"

lemma recordCreate_chain:
  assumes "meta_writable w c" "\<not> write_fails w ''fileroots.log''" "\<not> dirs w ''fileroots.log''" "cid_ok c"
  obtains w' where "recordCreate c w = (w', None)" "chain_ok w' [c]"
    "\<And>d. meta_writable w' d = meta_writable w d"
  using assms that
  by (auto simp: recordCreate_def os_AppendFile_def os_WriteFile_def meta_writable_def chain_ok_def os_ReadFile_def)

lemma linked_cong:
  "linked w p cs \<Longrightarrow> \<forall>c\<in>set cs. os_ReadFile w' (metaPath c) = os_ReadFile w (metaPath c) \<Longrightarrow> linked w' p cs"
  by (induction w p cs rule: linked.induct) auto

lemma linked_snoc:
  "linked w p (cs @ [c]) \<Longrightarrow> \<forall>x\<in>set cs. os_ReadFile w' (metaPath x) = os_ReadFile w (metaPath x) \<Longrightarrow>
   os_ReadFile w' (metaPath c) = Ok (unlines [last (p # cs), d]) \<Longrightarrow>
   os_ReadFile w' (metaPath d) = Ok (unlines [c, NULL]) \<Longrightarrow> linked w' p (cs @ [c, d])"
proof (induction cs arbitrary: p)
  case (Cons a cs)
  then show ?case by (cases cs) auto
qed simp

lemma linked_last:
  "linked w p (cs @ [c]) \<Longrightarrow> os_ReadFile w (metaPath c) = Ok (unlines [last (p # cs), NULL])"
proof (induction cs arbitrary: p)
  case (Cons a cs)
  then show ?case by (cases cs) auto
qed simp

lemma recordUpdate_writes:
  assumes "os_ReadFile w (metaPath c) = Ok (unlines [p, n])" "end_ok p" "end_ok n"
    and "meta_writable w c" "meta_writable w d"
  shows "recordUpdate c d w =
    (w\<lparr>content := (content w)(metaPath c \<mapsto> unlines [p, d], metaPath d \<mapsto> unlines [c, NULL])\<rparr>, None)"
  using assms metaLines_two [OF assms(2,3)]
  by (simp add: recordUpdate_def os_WriteFile_def meta_writable_def del: unlines_simps) simp

lemma recordUpdate_chain:
  assumes "chain_ok w cs" "meta_writable w (last cs)" "meta_writable w d" "cid_ok d" "d \<notin> set cs"
  obtains w' where "recordUpdate (last cs) d w = (w', None)" "chain_ok w' (cs @ [d])"
    "\<And>e. meta_writable w' e = meta_writable w e"
proof -
  obtain bs c where cs: "cs = bs @ [c]" using assms(1) by (cases cs rule: rev_cases) (auto simp: chain_ok_def)
  define p where "p = last (NULL # bs)"
  have l: "linked w NULL (bs @ [c])" and oks: "\<forall>x\<in>set bs. cid_ok x" "cid_ok c" and "c \<noteq> d" "c \<notin> set bs"
    using assms cs by (auto simp: chain_ok_def)
  then have p: "end_ok p" by (auto simp: p_def)
  have rd: "os_ReadFile w (metaPath c) = Ok (unlines [p, NULL])"
    using linked_last [OF l] by (simp add: p_def)
  let ?w2 = "w\<lparr>content := (content w)(metaPath c \<mapsto> unlines [p, d], metaPath d \<mapsto> unlines [c, NULL])\<rparr>"
  have up: "recordUpdate c d w = (?w2, None)"
    using recordUpdate_writes [OF rd p] assms(2,3) cs by simp
  have "linked ?w2 NULL (bs @ [c, d])"
    using l assms(2,3,5) cs \<open>c \<noteq> d\<close> \<open>c \<notin> set bs\<close>
    by (intro linked_snoc [of w]) (auto simp: os_ReadFile_def meta_writable_def p_def)
  then have "chain_ok ?w2 (cs @ [d])"
    using assms cs by (auto simp: chain_ok_def)
  with up cs show ?thesis by (intro that [of ?w2]) (auto simp: meta_writable_def)
qed

text \<open>The file versions of a whole history: a root, then updates one after the other.\<close>

fun recordUpdates :: "string \<Rightarrow> string list \<Rightarrow> world \<Rightarrow> world \<times> record_error option" where
  "recordUpdates previous [] w = (w, None)"
| "recordUpdates previous (c # cs) w =
     (case recordUpdate previous c w of
        (w', None) \<Rightarrow> recordUpdates c cs w'
      | r \<Rightarrow> r)"

lemma recordUpdates_chain:
  "chain_ok w (bs @ [b]) \<Longrightarrow> \<forall>c\<in>set (b # cs). meta_writable w c \<Longrightarrow> \<forall>c\<in>set cs. cid_ok c \<Longrightarrow>
   distinct (bs @ b # cs) \<Longrightarrow>
   \<exists>w'. recordUpdates b cs w = (w', None) \<and> chain_ok w' (bs @ b # cs) \<and>
        (\<forall>c. meta_writable w' c = meta_writable w c)"
proof (induction cs arbitrary: w bs b)
  case (Cons c cs)
  obtain w' where w': "recordUpdate b c w = (w', None)" "chain_ok w' ((bs @ [b]) @ [c])"
    "\<And>e. meta_writable w' e = meta_writable w e"
    using recordUpdate_chain [of w "bs @ [b]" c] Cons.prems by auto
  from Cons.IH [OF w'(2)] Cons.prems w' show ?case by simp
qed auto

lemma chain_listed:
  assumes "chain_ok w (c # cs)" "\<forall>d\<in>set (c # cs). cidParse d \<noteq> None" "\<not> stat_fails w (metaPath c)"
  shows "listVersion cidParse [c] w = Some (Ok (VersionChain (c # cs)))"
proof -
  have f: "follows (listStep cidParse w) (c # cs)"
    using assms by (intro follows_list [of w NULL]) (auto simp: chain_ok_def)
  have "chainLoop (listStep cidParse w) MetaCycle [] c = Some (Ok cs)"
    using chainLoop_follows [OF f, of "[]" MetaCycle] assms(1) by (simp add: chain_ok_def)
  moreover obtain x where "os_ReadFile w (metaPath c) = Ok x"
    using assms(1) by (cases cs) (auto simp: chain_ok_def)
  then have "\<exists>i. os_Stat w (metaPath c) = Ok i"
    using assms(3) by (auto simp: os_ReadFile_def os_Stat_def split: if_splits option.splits)
  moreover have "TrimSpace c = c" "c \<noteq> []" using assms(1) cid_ok_line [of c] by (auto simp: chain_ok_def)
  ultimately show ?thesis using assms(2) by (auto simp: listVersion_def)
qed

lemma chain_resolved:
  assumes "chain_ok w cs" "\<forall>d\<in>set cs. cidParse d \<noteq> None" "k < length cs"
  shows "resolveChain cidParse (cs ! k) w = Some (Ok (take (Suc k) cs))"
proof -
  let ?b = "rev (take (Suc k) cs)"
  have f: "follows (backStep cidParse w) ?b"
    using assms by (intro follows_back) (auto simp: chain_ok_def)
  have b: "?b = cs ! k # tl ?b" using assms(3) by (simp add: take_Suc_conv_app_nth)
  have "chainLoop (backStep cidParse w) MetaCycle [] (hd ?b) = Some (Ok (tl ?b))"
    using assms(1) by (intro chainLoop_follows [OF f]) (auto simp: chain_ok_def distinct_take)
  then have "chainLoop (backStep cidParse w) MetaCycle [] (cs ! k) = Some (Ok (tl ?b))"
    using b by (metis list.sel(1))
  then show ?thesis using b by (simp add: resolveChain_def)
qed

section \<open>The server and the command\<close>

text \<open>The machine as a process sees it whose working directory is \<open>repoRoot\<close>.\<close>

definition inDir :: "string \<Rightarrow> world \<Rightarrow> world" where
  "inDir repoRoot w =
     (let at = (\<lambda>p. JoinPath [repoRoot, p]) in
      \<lparr>content = content w \<circ> at, dirs = dirs w \<circ> at, stat_fails = stat_fails w \<circ> at,
       read_fails = read_fails w \<circ> at, write_fails = write_fails w \<circ> at\<rparr>)"

lemma inDir_calls:
  "os_ReadFile (inDir repoRoot w) (metaPath c) = os_ReadFile w (apiMetaPath repoRoot c)"
  "os_Stat (inDir repoRoot w) (metaPath c) = os_Stat w (apiMetaPath repoRoot c)"
  by (simp_all add: inDir_def Let_def os_ReadFile_def os_Stat_def apiMetaPath_def metaPath_def)

lemma apiStep_list:
  "apiStep w repoRoot c = Ok r \<Longrightarrow> (\<And>n. r = Some n \<Longrightarrow> cidParse n \<noteq> None) \<Longrightarrow>
   listStep cidParse (inDir repoRoot w) c = Ok r"
  by (auto simp: apiStep_def listStep_def inDir_calls Let_def split: outcome.splits if_splits)

lemma map_versionInfos: "map VCID (versionInfos root cids) = root # cids"
proof -
  have "map (snd :: nat \<times> string \<Rightarrow> string) (enumerate 2 cids) = cids" by simp
  then show ?thesis by (simp add: versionInfos_def comp_def case_prod_beta)
qed

lemma apiLoop_list:
  "chainLoop (apiStep w repoRoot) MetaCycle visited c = Some (Ok cids) \<Longrightarrow>
   \<forall>n\<in>set cids. cidParse n \<noteq> None \<Longrightarrow>
   chainLoop (listStep cidParse (inDir repoRoot w)) MetaCycle visited c = Some (Ok cids)"
proof (induction cids arbitrary: visited c)
  case Nil
  then show ?case using apiStep_list [of w repoRoot c None cidParse] by (simp add: chainLoop_Ok)
next
  case (Cons a cids)
  then show ?case using apiStep_list [of w repoRoot c "Some a" cidParse] by (simp add: chainLoop_Ok)
qed

section \<open>Properties\<close>

text \<open>
  C32: A root recorded by \<open>deal --create\<close> and updates recorded one after the other by
  \<open>deal --update\<close>, each naming the version before it, are listed by \<open>list-version\<close> in the
  order they were made, and from every version \<open>retrieve-version\<close> resolves the chain of all
  the versions up to it, the root first.
\<close>

theorem recorded_history:
  assumes "\<forall>d\<in>set (c # cs). meta_writable w d \<and> cid_ok d \<and> cidParse d \<noteq> None"
    and "distinct (c # cs)" "\<not> write_fails w ''fileroots.log''" "\<not> dirs w ''fileroots.log''"
  shows "\<exists>w1 w2. recordCreate c w = (w1, None) \<and> recordUpdates c cs w1 = (w2, None) \<and>
    listVersion cidParse [c] w2 = Some (Ok (VersionChain (c # cs))) \<and>
    (\<forall>k<length (c # cs). resolveChain cidParse ((c # cs) ! k) w2 = Some (Ok (take (Suc k) (c # cs))))"
proof -
  obtain w1 where w1: "recordCreate c w = (w1, None)" "chain_ok w1 [c]" "\<And>d. meta_writable w1 d = meta_writable w d"
    using recordCreate_chain [of w c] assms by auto
  obtain w2 where w2: "recordUpdates c cs w1 = (w2, None)" "chain_ok w2 (c # cs)" "\<And>d. meta_writable w2 d = meta_writable w d"
    using recordUpdates_chain [of w1 "[]" c cs] w1 assms by auto
  have st: "\<not> stat_fails w2 (metaPath c)" using w2(3) [of c] assms(1) by (simp add: meta_writable_def)
  have ps: "\<forall>d\<in>set (c # cs). cidParse d \<noteq> None" using assms(1) by blast
  show ?thesis
    using w1(1) w2(1) chain_listed [OF w2(2) ps st] chain_resolved [OF w2(2) ps] by (intro exI conjI) auto
qed

text \<open>
  C33: The three walks over the metadata files return, with a result or an error, whatever the
  files hold: on a machine with finitely many files no chain makes them run forever.
\<close>

theorem chain_walks_return:
  assumes "finite (dom (content w))"
  shows "(\<exists>r. loadVersionsFromMeta repoRoot root w = Some r) \<and>
    (\<exists>r. listVersion cidParse args w = Some r) \<and> (\<exists>r. resolveChain cidParse target w = Some r)"
proof (intro conjI)
  have ret: "\<exists>r. chainLoop (apiStep w repoRoot) MetaCycle [] root = Some r"
    "\<And>c. \<exists>r. chainLoop (listStep cidParse w) MetaCycle [] c = Some r"
    "\<exists>r. chainLoop (backStep cidParse w) MetaCycle [] target = Some r"
    by (intro chainLoop_range_terminates meta_steps_range assms)+
  show "\<exists>r. loadVersionsFromMeta repoRoot root w = Some r"
    using ret(1) by (auto simp: loadVersionsFromMeta_def split: outcome.split os_error.split)
  show "\<exists>r. listVersion cidParse args w = Some r"
    using ret(2) [of "TrimSpace (args ! 0)"]
    by (auto simp: listVersion_def Let_def split: outcome.split os_error.split)
  show "\<exists>r. resolveChain cidParse target w = Some r"
    using ret(3) by (auto simp: resolveChain_def)
qed

text \<open>
  C34: The versions the API server reports for a root are the chain that
  \<open>lotus client list-version\<close> prints in the server's directory, provided the versions are
  identifiers the command accepts.
\<close>

theorem loadVersionsFromMeta_list:
  assumes "loadVersionsFromMeta repoRoot root w = Some (Ok vs)"
    and "\<forall>v\<in>set vs. cidParse (VCID v) \<noteq> None" "TrimSpace root = root" "root \<noteq> []"
  shows "listVersion cidParse [root] (inDir repoRoot w) = Some (Ok (VersionChain (map VCID vs)))"
proof -
  from assms(1) obtain i cids where st: "os_Stat w (apiMetaPath repoRoot root) = Ok i"
    and c: "chainLoop (apiStep w repoRoot) MetaCycle [] root = Some (Ok cids)"
    and vs: "vs = versionInfos root cids"
    by (auto simp: loadVersionsFromMeta_def bindO_eq_Ok bind_eq_Some_conv split: outcome.splits os_error.splits)
  have ps: "\<forall>n\<in>set (root # cids). cidParse n \<noteq> None"
    using assms(2) map_versionInfos [of root cids] vs by (metis image_eqI list.set_map imageE)
  have "chainLoop (listStep cidParse (inDir repoRoot w)) MetaCycle [] root = Some (Ok cids)"
    using apiLoop_list [OF c] ps by simp
  then show ?thesis using assms(3,4) ps st vs by (auto simp: listVersion_def inDir_calls map_versionInfos)
qed

text \<open>
  A second update of the same version replaces the link of the first one: from then on
  \<open>list-version\<close> shows only the second, although the first can still be retrieved.
\<close>

theorem second_update_hides_first:
  assumes "\<forall>x\<in>{c, d, e}. meta_writable w x \<and> cid_ok x \<and> cidParse x \<noteq> None" "distinct [c, d, e]"
    and "chain_ok w [c]"
  shows "\<exists>w1 w2. recordUpdate c d w = (w1, None) \<and> recordUpdate c e w1 = (w2, None) \<and>
    listVersion cidParse [c] w1 = Some (Ok (VersionChain [c, d])) \<and>
    listVersion cidParse [c] w2 = Some (Ok (VersionChain [c, e])) \<and>
    resolveChain cidParse d w2 = Some (Ok [c, d])"
proof -
  obtain w1 where w1: "recordUpdate c d w = (w1, None)" "chain_ok w1 [c, d]"
    "\<And>x. meta_writable w1 x = meta_writable w x"
    using recordUpdate_chain [of w "[c]" d] assms by auto
  let ?w2 = "w1\<lparr>content := (content w1)(metaPath c \<mapsto> unlines [NULL, e], metaPath e \<mapsto> unlines [c, NULL])\<rparr>"
  have up: "recordUpdate c e w1 = (?w2, None)"
    using w1 assms by (intro recordUpdate_writes [where n = d]) (auto simp: chain_ok_def)
  have "os_ReadFile w1 (metaPath d) = Ok (unlines [c, NULL])" using w1(2) by (simp add: chain_ok_def)
  then have rd: "os_ReadFile ?w2 (metaPath d) = Ok (unlines [c, NULL])"
    using assms(2) by (auto simp: os_ReadFile_def split: if_splits option.splits)
  have "\<not> read_fails w1 (metaPath c)" "\<not> read_fails w1 (metaPath e)"
    using w1(3) [of c] w1(3) [of e] assms(1) by (auto simp: meta_writable_def)
  then have rc: "os_ReadFile ?w2 (metaPath c) = Ok (unlines [NULL, e])"
    and ok: "chain_ok ?w2 [c, e]"
    using assms(1,2) by (auto simp: chain_ok_def os_ReadFile_def)
  have st: "\<not> stat_fails w1 (metaPath c)" "\<not> stat_fails ?w2 (metaPath c)"
    using w1(3) [of c] assms(1) by (auto simp: meta_writable_def)
  have "follows (backStep cidParse ?w2) [d, c]"
    using meta_steps(2) [OF rd, of cidParse] meta_steps(2) [OF rc, of cidParse] assms by auto
  then have "chainLoop (backStep cidParse ?w2) MetaCycle [] d = Some (Ok [c])"
    using chainLoop_follows [of "backStep cidParse ?w2" "[d, c]" "[]" MetaCycle] assms(2) by auto
  then have "resolveChain cidParse d ?w2 = Some (Ok [c, d])" by (simp add: resolveChain_def)
  moreover have "listVersion cidParse [c] w1 = Some (Ok (VersionChain [c, d]))"
    "listVersion cidParse [c] ?w2 = Some (Ok (VersionChain [c, e]))"
    using chain_listed [OF w1(2) _ st(1)] chain_listed [OF ok _ st(2)] assms(1) by simp_all
  ultimately show ?thesis using w1(1) up by (intro exI conjI)
qed

section \<open>Witnesses\<close>

lemma demo_cids:
  "\<forall>d\<in>{''bafy0'', ''bafy1'', ''bafy2''}. meta_writable emptyWorld d \<and> cid_ok d \<and> Some d \<noteq> None"
  by (auto simp: meta_writable_def cid_ok_def plain_char_def asciiSpace_def NULL_def)

theorem recorded_history_witness:
  "\<exists>w1 w2. recordCreate ''bafy0'' emptyWorld = (w1, None) \<and>
    recordUpdates ''bafy0'' [''bafy1'', ''bafy2''] w1 = (w2, None) \<and>
    listVersion Some [''bafy0''] w2 = Some (Ok (VersionChain [''bafy0'', ''bafy1'', ''bafy2'']))"
  using recorded_history [of "''bafy0''" "[''bafy1'', ''bafy2'']" emptyWorld Some] demo_cids by fastforce

text \<open>A file whose two versions point at each other.\<close>

definition cycleWorld :: world where
  "cycleWorld = emptyWorld\<lparr>content := [''a_meta'' \<mapsto> unlines [''b'', ''b''], ''b_meta'' \<mapsto> unlines [''a'', ''a'']]\<rparr>"

theorem chain_walks_return_witness:
  "finite (dom (content cycleWorld)) \<and> (\<exists>r. resolveChain Some ''a'' cycleWorld = Some r)"
  using chain_walks_return [of cycleWorld "''/''" "''a''" Some "[''a'']" "''a''"]
  by (simp add: cycleWorld_def)

definition chainWorld :: world where
  "chainWorld = emptyWorld\<lparr>content := [''/r/a_meta'' \<mapsto> unlines [NULL, ''b''], ''/r/b_meta'' \<mapsto> unlines [''a'', NULL]]\<rparr>"

lemma chainWorld_versions:
  "loadVersionsFromMeta ''/r'' ''a'' chainWorld = Some (Ok (versionInfos ''a'' [''b'']))"
  by code_simp

theorem loadVersionsFromMeta_list_witness:
  "listVersion Some [''a''] (inDir ''/r'' chainWorld) = Some (Ok (VersionChain [''a'', ''b'']))"
  using loadVersionsFromMeta_list [OF chainWorld_versions, of Some] cid_ok_line(4) [of "''a''"]
  by (simp add: map_versionInfos cid_ok_def NULL_def plain_char_def asciiSpace_def)

theorem second_update_hides_first_witness:
  "\<exists>w w1 w2. recordUpdate ''bafy0'' ''bafy1'' w = (w1, None) \<and> recordUpdate ''bafy0'' ''bafy2'' w1 = (w2, None) \<and>
    listVersion Some [''bafy0''] w2 = Some (Ok (VersionChain [''bafy0'', ''bafy2'']))"
proof -
  obtain w where w: "chain_ok w [''bafy0'']" "\<And>d. meta_writable w d = meta_writable emptyWorld d"
    using recordCreate_chain [of emptyWorld "''bafy0''"] demo_cids by auto
  show ?thesis
    using second_update_hides_first [of "''bafy0''" "''bafy1''" "''bafy2''" w Some] w demo_cids by auto
qed

end
