(* ===== verification/Preview.thy ===== *)
theory Preview
  imports Catalog ApiInfo VersionMeta GoHash
begin

text \<open>
  Browsing and previewing files on the API server
  (\<open>src/cmd/opendsn-api/browse_preview.go\<close>), with the requests and responses all its
  handlers share. A response is its status, its headers and its body; the values given to
  \<open>writeJSON\<close> are kept as the values of their Go types. What the server gets from its
  environment (directory listings, modification times, the clock, the programs it runs,
  \<open>encoding/json\<close>, the MIME table) is a record of functions.
\<close>

section \<open>Requests and responses\<close>

record api_request =
  Method :: string
  UrlPath :: string
  QueryGet :: "string \<Rightarrow> string"
  ReqBody :: string

record BrowseEntry =
  EntryName :: string
  EntryIsDir :: bool
  EntrySize :: int

record BrowseResponse =
  BrowsePath :: string
  Entries :: "BrowseEntry list"

record PreviewResponse =
  Filename :: string
  PreviewKind :: string
  Content :: string
  ResourceURL :: string

record ImportRequest =
  ImportPath :: string

record ImportResponse =
  ImportSuccess :: bool
  ImportMessage :: string
  ImportRoot :: string
  ImportOutput :: string
  ImportedPath :: string
  ImportFileName :: string
  ImportFileExtension :: string
  ImportSizeBytes :: int
  ImportSizeMB :: string

record DealRequest =
  ReqRoot :: string
  ReqMiner :: string
  ReqPreviousRoot :: string
  ReqSourcePath :: string
  ReqDisplayName :: string
  ReqSizeBytes :: int

text \<open>Messages: fixed texts, and the texts of the errors of the components.\<close>

datatype api_text =
    Msg string
  | OsText os_error
  | MetaText meta_error
  | CatalogText catalog_error
  | CatalogUpdateFailed catalog_error
  | ConvertFailed string

record DealResponse =
  DealSuccess :: bool
  DealMessage :: api_text
  ProposalCID :: string
  DealOutput :: string
  InitialRoot :: string
  DealVersionLabel :: string
  DealFileName :: string
  DealFileSizeMB :: string
  DealUploadedAt :: string

record RetrieveVersionRequest =
  RetrRoot :: string
  RetrCID :: string
  OutputName :: string

record RetrieveVersionResponse =
  RetrSuccess :: bool
  RetrMessageText :: string
  OutputPath :: string
  RetrOutput :: string
  RetrievedCID :: string
  RetrSizeBytes :: int
  RetrSizeMB :: string

datatype api_body =
    NoBody
  | ErrorBody api_text
  | HealthBody
  | MinersBody "MinerInfoJ list"
  | ProofsBody "ProofInfo list"
  | ImportBody ImportResponse
  | DealBody DealResponse
  | RetrieveBody RetrieveVersionResponse
  | RootsBody "RootInfo list"
  | VersionsBody string "VersionInfo list"
  | CatalogBody "CatalogFile list"
  | BrowseBody BrowseResponse
  | PreviewBody PreviewResponse
  | FileBody string
  | NotFoundBody
  | RedirectBody string

record api_response =
  RespStatus :: int
  RespHeaders :: "(string \<times> string) list"
  RespBody :: api_body

definition jsonType :: string where
  "jsonType = ''application/json; charset=utf-8''"

definition writeJSON :: "int \<Rightarrow> api_body \<Rightarrow> api_response" where
  "writeJSON status v = \<lparr>RespStatus = status, RespHeaders = [(''Content-Type'', jsonType)], RespBody = v\<rparr>"

definition writeError :: "int \<Rightarrow> api_text \<Rightarrow> api_response" where
  "writeError status msg = writeJSON status (ErrorBody msg)"

record dir_entry =
  DirName :: string
  DirIsDir :: bool
  DirInfoSize :: "int option"

record server_env =
  getwd :: "string option"
  readDir :: "string \<Rightarrow> dir_entry list option"
  modTimeNanos :: "string \<Rightarrow> int"
  lookPath :: "string \<Rightarrow> string option"
  mkdirTemp :: "string \<Rightarrow> string \<Rightarrow> string option"
  runProgram :: "string \<Rightarrow> string \<Rightarrow> string list \<Rightarrow> world \<Rightarrow> world \<times> string \<times> bool"
  typeByExtension :: "string \<Rightarrow> string"
  clockRFC3339 :: string
  httpGet :: http_client
  decodeImport :: "string \<Rightarrow> ImportRequest option"
  decodeDeal :: "string \<Rightarrow> DealRequest option"
  decodeRetrieve :: "string \<Rightarrow> RetrieveVersionRequest option"
  marshalCatalog :: "Catalog \<Rightarrow> string option"
  unmarshalCatalog :: "string \<Rightarrow> Catalog option"

text \<open>\<open>filepath.Abs\<close>.\<close>

definition Abs :: "server_env \<Rightarrow> string \<Rightarrow> string option" where
  "Abs env p =
     (if p \<noteq> [] \<and> hd p = CHR ''/'' then Some (Clean p)
      else map_option (\<lambda>wd. JoinPath [wd, p]) (getwd env))"

section \<open>Browsing\<close>

definition visibleEntries :: "dir_entry list \<Rightarrow> BrowseEntry list" where
  "visibleEntries entries =
     List.map_filter (\<lambda>e.
       if HasPrefix (DirName e) ''.'' then None
       else map_option (\<lambda>size. \<lparr>EntryName = DirName e, EntryIsDir = DirIsDir e, EntrySize = size\<rparr>)
              (DirInfoSize e)) entries"

definition entry_less :: "BrowseEntry \<Rightarrow> BrowseEntry \<Rightarrow> bool" where
  "entry_less a b =
     (if EntryIsDir a \<noteq> EntryIsDir b then EntryIsDir a
      else ToLower (EntryName a) < ToLower (EntryName b))"

definition handleBrowse :: "server_env \<Rightarrow> api_request \<Rightarrow> world \<Rightarrow> api_response" where
  "handleBrowse env r w =
     (if Method r \<noteq> ''GET'' then writeError 405 (Msg ''method not allowed'')
      else let dir = (if TrimSpace (QueryGet r ''dir'') = [] then ''/'' else QueryGet r ''dir'') in
        case Abs env dir of
          None \<Rightarrow> writeError 400 (Msg ''invalid directory path'')
        | Some absDir \<Rightarrow>
            (case os_Stat w absDir of
               Ok info \<Rightarrow>
                 if \<not> IsDir info then writeError 400 (Msg ''path is not a directory'')
                 else (case readDir env absDir of
                         None \<Rightarrow> writeError 500 (Msg ''cannot read directory'')
                       | Some entries \<Rightarrow>
                           writeJSON 200 (BrowseBody
                             \<lparr>BrowsePath = absDir, Entries = sort_by entry_less (visibleEntries entries)\<rparr>))
             | _ \<Rightarrow> writeError 400 (Msg ''cannot access directory'')))"

section \<open>Previewing\<close>

definition previewMaxTextSize :: nat where
  "previewMaxTextSize = 10 * 1024 * 1024"

definition previewCacheDir :: string where
  "previewCacheDir = ''.opendsn_preview_cache''"

definition resolvePreviewTarget ::
  "server_env \<Rightarrow> string \<Rightarrow> world \<Rightarrow> api_text + string \<times> file_info" where
  "resolvePreviewTarget env fileParam w =
     (if TrimSpace fileParam = [] then Inl (Msg ''file parameter is required'')
      else case Abs env fileParam of
             None \<Rightarrow> Inl (Msg ''invalid file path'')
           | Some absPath \<Rightarrow>
               (case os_Stat w absPath of
                  Ok info \<Rightarrow> if IsDir info then Inl (Msg ''path is a directory, not a file'') else Inr (absPath, info)
                | _ \<Rightarrow> Inl (Msg ''cannot access file'')))"

definition isWordDocument :: "string \<Rightarrow> bool" where
  "isWordDocument ext \<longleftrightarrow> ext = ''.doc'' \<or> ext = ''.docx''"

definition isLikelyBinary :: "string \<Rightarrow> bool" where
  "isLikelyBinary data \<longleftrightarrow> (CHR 0x00) \<in> set (take 4096 data)"

definition readPreviewText :: "string \<Rightarrow> int \<Rightarrow> world \<Rightarrow> api_text + string" where
  "readPreviewText absPath sz w =
     (if sz > int previewMaxTextSize then Inl (Msg ''file too large (max 10MB) for text preview'')
      else case os_ReadFile w absPath of
             Ok all \<Rightarrow>
               (let data = take (previewMaxTextSize + 1) all in
                if isLikelyBinary data then Inl (Msg ''preview is supported for text, PDF, .doc, and .docx files'')
                else Inr data)
           | _ \<Rightarrow> Inl (Msg ''cannot open file''))"

definition previewCacheKey :: "server_env \<Rightarrow> string \<Rightarrow> file_info \<Rightarrow> string" where
  "previewCacheKey env sourcePath info =
     EncodeToString (take 16 (Sum256
       (sourcePath @ ''|'' @ Itoa (modTimeNanos env sourcePath) @ ''|'' @ Itoa (Size info))))"

fun firstFound :: "(string \<Rightarrow> string option) \<Rightarrow> string list \<Rightarrow> string option" where
  "firstFound look [] = None"
| "firstFound look (c # cs) = (case look c of Some p \<Rightarrow> Some p | None \<Rightarrow> firstFound look cs)"

definition lookupLibreOfficeBinary :: "server_env \<Rightarrow> api_text + string" where
  "lookupLibreOfficeBinary env =
     (case firstFound (lookPath env) [''libreoffice'', ''soffice''] of
        Some p \<Rightarrow> Inr p
      | None \<Rightarrow> Inl (Msg ''libreoffice is required for Word preview but was not found in PATH''))"

text \<open>A rename, or else a copy that leaves the source in place.\<close>

definition moveOrCopyFile :: "string \<Rightarrow> string \<Rightarrow> world \<Rightarrow> (os_error, world) outcome" where
  "moveOrCopyFile src dst w =
     (case os_Rename w src dst of
        Ok w' \<Rightarrow> Ok w'
      | _ \<Rightarrow> bindO (os_ReadFile w src) (os_WriteFile w dst))"

definition os_RemoveAll :: "string \<Rightarrow> world \<Rightarrow> world" where
  "os_RemoveAll dir w =
     (let under = (\<lambda>p. p = dir \<or> HasPrefix p (dir @ ''/'')) in
      w\<lparr>content := (\<lambda>p. if under p then None else content w p),
        dirs := (\<lambda>p. \<not> under p \<and> dirs w p)\<rparr>)"

definition convertWord ::
  "server_env \<Rightarrow> string \<Rightarrow> string \<Rightarrow> string \<Rightarrow> string \<Rightarrow> world \<Rightarrow> world \<times> (api_text + string)" where
  "convertWord env converter tempDir sourcePath cachedPDF w =
     (case runProgram env converter [] [''--headless'', ''--convert-to'', ''pdf'', ''--outdir'', tempDir, sourcePath] w of
        (w1, out, False) \<Rightarrow> (w1, Inl (ConvertFailed (TrimSpace out)))
      | (w1, out, True) \<Rightarrow>
          (let generatedPDF = JoinPath [tempDir, TrimSuffix (Base sourcePath) (Ext sourcePath) @ ''.pdf''] in
           case os_Stat w1 generatedPDF of
             Ok _ \<Rightarrow>
               (case moveOrCopyFile generatedPDF cachedPDF w1 of
                  Ok w2 \<Rightarrow> (w2, Inr cachedPDF)
                | _ \<Rightarrow> (w1, Inl (Msg ''store preview pdf'')))
           | _ \<Rightarrow> (w1, Inl (Msg ''converted pdf not found''))))"

definition ensurePreviewPDF ::
  "server_env \<Rightarrow> Config \<Rightarrow> string \<Rightarrow> file_info \<Rightarrow> world \<Rightarrow> world \<times> (api_text + string)" where
  "ensurePreviewPDF env cfg sourcePath info w =
     (let cacheRoot = JoinPath [RepoRoot cfg, previewCacheDir] in
      case os_MkdirAll w cacheRoot of
        Ok w1 \<Rightarrow>
          (let cachedPDF = JoinPath [cacheRoot, previewCacheKey env sourcePath info @ ''.pdf''] in
           case os_Stat w1 cachedPDF of
             Ok _ \<Rightarrow> (w1, Inr cachedPDF)
           | _ \<Rightarrow>
               (case lookupLibreOfficeBinary env of
                  Inl e \<Rightarrow> (w1, Inl e)
                | Inr converter \<Rightarrow>
                    (case mkdirTemp env cacheRoot ''doc-preview-'' of
                       None \<Rightarrow> (w1, Inl (Msg ''create preview temp dir''))
                     | Some tempDir \<Rightarrow>
                         (case convertWord env converter tempDir sourcePath cachedPDF
                                 (w1\<lparr>dirs := (dirs w1)(tempDir := True)\<rparr>) of
                            (w2, r) \<Rightarrow> (os_RemoveAll tempDir w2, r)))))
      | _ \<Rightarrow> (w, Inl (Msg ''create preview cache'')))"

text \<open>\<open>url.QueryEscape\<close>.\<close>

definition upperHex :: "nat \<Rightarrow> char" where
  "upperHex d = (if d < 10 then char_of (48 + d) else char_of (55 + d))"

definition unreserved :: "char \<Rightarrow> bool" where
  "unreserved c =
     (let n = (of_char c :: nat) in
      48 \<le> n \<and> n \<le> 57 \<or> 65 \<le> n \<and> n \<le> 90 \<or> 97 \<le> n \<and> n \<le> 122 \<or> c \<in> set ''-_.~'')"

definition escape_char :: "char \<Rightarrow> string" where
  "escape_char c =
     (if unreserved c then [c]
      else if c = CHR '' '' then ''+''
      else [CHR ''%'', upperHex (of_char c div 16), upperHex (of_char c mod 16)])"

definition QueryEscape :: "string \<Rightarrow> string" where
  "QueryEscape s = concat (map escape_char s)"

text \<open>\<open>%q\<close>: \<open>strconv.Quote\<close> of a text in valid UTF-8 whose runes above ASCII are printable.\<close>

definition quote_char :: "char \<Rightarrow> string" where
  "quote_char c =
     (let n = (of_char c :: nat) in
      if c = CHR 0x22 \<or> c = CHR 0x5C then [CHR 0x5C, c]
      else if 7 \<le> n \<and> n \<le> 13 then [CHR 0x5C, ''abtnvfr'' ! (n - 7)]
      else if n < 32 \<or> n = 127 then [CHR 0x5C, CHR ''x'', hexDigit (n div 16), hexDigit (n mod 16)]
      else [c])"

definition Quote :: "string \<Rightarrow> string" where
  "Quote s = [CHR 0x22] @ concat (map quote_char s) @ [CHR 0x22]"

definition handlePreview :: "server_env \<Rightarrow> Config \<Rightarrow> api_request \<Rightarrow> world \<Rightarrow> world \<times> api_response" where
  "handlePreview env cfg r w =
     (if Method r \<noteq> ''GET'' then (w, writeError 405 (Msg ''method not allowed''))
      else case resolvePreviewTarget env (QueryGet r ''file'') w of
             Inl e \<Rightarrow> (w, writeError 400 e)
           | Inr (absPath, info) \<Rightarrow>
               (let ext = ToLower (Ext absPath);
                    pdf = (\<lambda>p. writeJSON 200 (PreviewBody \<lparr>Filename = Base absPath, PreviewKind = ''pdf'', Content = [],
                             ResourceURL = ''/api/preview/raw?file='' @ QueryEscape p\<rparr>))
                in if isWordDocument ext then
                     (case ensurePreviewPDF env cfg absPath info w of
                        (w1, Inr pdfPath) \<Rightarrow> (w1, pdf pdfPath)
                      | (w1, Inl e) \<Rightarrow> (w1, writeError 500 e))
                   else if ext = ''.pdf'' then (w, pdf absPath)
                   else (case readPreviewText absPath (Size info) w of
                           Inr text_data \<Rightarrow>
                             (w, writeJSON 200 (PreviewBody \<lparr>Filename = Base absPath, PreviewKind = ''text'',
                                   Content = text_data, ResourceURL = []\<rparr>))
                         | Inl e \<Rightarrow> (w, writeError 400 e))))"

text \<open>
  \<open>http.ServeFile\<close> on a request without range or condition headers: the whole file, and
  status 500 when it cannot be opened.
\<close>

definition handlePreviewRaw :: "server_env \<Rightarrow> api_request \<Rightarrow> world \<Rightarrow> api_response" where
  "handlePreviewRaw env r w =
     (if Method r \<noteq> ''GET'' then writeError 405 (Msg ''method not allowed'')
      else case resolvePreviewTarget env (QueryGet r ''file'') w of
             Inl e \<Rightarrow> writeError 400 e
           | Inr (absPath, _) \<Rightarrow>
               (let ext = ToLower (Ext absPath);
                    byExt = typeByExtension env ext;
                    contentType = (if byExt \<noteq> [] then byExt
                                   else if ext = ''.pdf'' then ''application/pdf'' else ''application/octet-stream'');
                    headers = [(''Content-Type'', contentType),
                               (''Content-Disposition'', ''inline; filename='' @ Quote (Base absPath))]
                in case os_ReadFile w absPath of
                     Ok data \<Rightarrow> \<lparr>RespStatus = 200, RespHeaders = headers, RespBody = FileBody data\<rparr>
                   | _ \<Rightarrow> \<lparr>RespStatus = 500, RespHeaders = headers, RespBody = NoBody\<rparr>))"

section \<open>Lemmas\<close>

interpretation entry_order: slice_less entry_less
  by unfold_locales (auto simp: entry_less_def split: if_splits)

lemma visibleEntries_names: "e \<in> set (visibleEntries es) \<Longrightarrow> \<not> HasPrefix (EntryName e) ''.''"
  by (auto simp: visibleEntries_def map_filter_def split: if_splits)

text \<open>Undoing \<open>QueryEscape\<close>, as the parser of a query string does.\<close>

definition unhex :: "char \<Rightarrow> nat option" where
  "unhex c =
     (let n = (of_char c :: nat) in
      if 48 \<le> n \<and> n \<le> 57 then Some (n - 48)
      else if 65 \<le> n \<and> n \<le> 70 then Some (n - 55)
      else if 97 \<le> n \<and> n \<le> 102 then Some (n - 87) else None)"

fun QueryUnescape :: "string \<Rightarrow> string option" where
  "QueryUnescape [] = Some []"
| "QueryUnescape (c # s) =
     (if c = CHR ''%'' then
        (case s of
           a # b # s' \<Rightarrow>
             (case (unhex a, unhex b) of
                (Some x, Some y) \<Rightarrow> map_option ((#) (char_of (16 * x + y))) (QueryUnescape s')
              | _ \<Rightarrow> None)
         | _ \<Rightarrow> None)
      else map_option ((#) (if c = CHR ''+'' then CHR '' '' else c)) (QueryUnescape s))"

lemma of_char_16: "(of_char c :: nat) div 16 < 16"
proof -
  have "(of_char c :: nat) < 256" by simp
  then show ?thesis by (simp add: less_mult_imp_div_less)
qed

lemma unhex_upperHex: "d < 16 \<Longrightarrow> unhex (upperHex d) = Some d"
  by (auto simp: unhex_def upperHex_def Let_def)

lemma unreserved_plain: "unreserved c \<Longrightarrow> c \<noteq> CHR ''%'' \<and> c \<noteq> CHR ''+''"
  by (auto simp: unreserved_def Let_def)

lemma QueryUnescape_char: "QueryUnescape (escape_char c @ s) = map_option ((#) c) (QueryUnescape s)"
  using of_char_16 [of c] unreserved_plain [of c]
  by (auto simp: escape_char_def unhex_upperHex split: option.split)

lemma QueryUnescape_QueryEscape: "QueryUnescape (QueryEscape s) = Some s"
  by (induction s) (simp_all add: QueryEscape_def QueryUnescape_char)

section \<open>Properties\<close>

text \<open>
  The listing of a directory holds exactly its entries that are not hidden and whose size
  can be read, directories before files, each group in the order of the lower-case names.
\<close>

theorem handleBrowse_sorted:
  assumes "RespBody (handleBrowse env r w) = BrowseBody b"
  shows "\<exists>es. readDir env (BrowsePath b) = Some es \<and> mset (Entries b) = mset (visibleEntries es) \<and>
    (\<forall>e\<in>set (Entries b). \<not> HasPrefix (EntryName e) ''.'') \<and>
    sorted_wrt (\<lambda>x y. EntryIsDir y \<longrightarrow> EntryIsDir x) (Entries b) \<and>
    sorted_wrt (\<lambda>x y. EntryIsDir x = EntryIsDir y \<longrightarrow> ToLower (EntryName x) \<le> ToLower (EntryName y)) (Entries b)"
proof -
  obtain es where es: "readDir env (BrowsePath b) = Some es" "Entries b = sort_by entry_less (visibleEntries es)"
    using assms
    by (auto simp: handleBrowse_def writeError_def writeJSON_def Let_def split: if_splits option.splits outcome.splits)
  have s: "sorted_wrt (\<lambda>x y. \<not> entry_less y x) (Entries b)"
    using entry_order.sorted_sort_by es(2) by simp
  show ?thesis
    using es visibleEntries_names
    by (intro exI [of _ es] conjI sorted_wrt_mono_rel [OF _ s])
      (auto simp: entry_less_def split: if_splits)
qed

text \<open>
  C39: A text preview is the whole content of a file of at most 10 MiB whose first 4096 bytes
  hold no zero byte.
\<close>

theorem handlePreview_text:
  assumes "RespBody (snd (handlePreview env cfg r w)) = PreviewBody p" "PreviewKind p = ''text''"
  shows "fst (handlePreview env cfg r w) = w \<and>
    (\<exists>path. os_ReadFile w path = Ok (Content p) \<and> Filename p = Base path) \<and>
    length (Content p) \<le> previewMaxTextSize \<and> CHR 0x00 \<notin> set (take 4096 (Content p))"
proof -
  obtain path info where rp: "Method r = ''GET''" "resolvePreviewTarget env (QueryGet r ''file'') w = Inr (path, info)"
    using assms by (auto simp: handlePreview_def writeError_def writeJSON_def split: if_splits sum.splits)
  then have sz: "os_Stat w path = Ok info" "\<not> IsDir info"
    by (auto simp: resolvePreviewTarget_def split: if_splits option.splits outcome.splits)
  have tx: "\<not> isWordDocument (ToLower (Ext path))" "ToLower (Ext path) \<noteq> ''.pdf''"
    "readPreviewText path (Size info) w = Inr (Content p)" "Filename p = Base path" "fst (handlePreview env cfg r w) = w"
    using assms rp
    by (auto simp: handlePreview_def Let_def writeError_def writeJSON_def split: if_splits sum.splits prod.splits)
  then obtain d where d: "os_ReadFile w path = Ok d" "\<not> Size info > int previewMaxTextSize"
    "Content p = take (previewMaxTextSize + 1) d" "\<not> isLikelyBinary (Content p)"
    by (auto simp: readPreviewText_def Let_def split: if_splits outcome.splits)
  have "Size info = int (length d)"
    using sz d(1) by (auto simp: os_Stat_def os_ReadFile_def split: if_splits option.splits)
  with d tx show ?thesis by (auto simp: isLikelyBinary_def)
qed

text \<open>
  The resource address a preview of a PDF file returns leads back to the file: the raw
  handler, asked for the decoded parameter, answers with the file's content.
\<close>

theorem handlePreview_raw:
  assumes "RespBody (snd (handlePreview env cfg r w)) = PreviewBody p" "PreviewKind p = ''pdf''"
    and "QueryGet r ''file'' = path" "path \<noteq> []" "hd path = CHR ''/''" "Clean path = path" "ToLower (Ext path) = ''.pdf''"
    and "os_ReadFile w path = Ok data"
    and "QueryUnescape (drop (length ''/api/preview/raw?file='') (ResourceURL p)) = Some q"
    and "Method r' = ''GET''" "QueryGet r' ''file'' = q"
  shows "RespStatus (handlePreviewRaw env r' w) = 200 \<and> RespBody (handlePreviewRaw env r' w) = FileBody data"
proof -
  have abs: "Abs env path = Some path" using assms(4-6) by (simp add: Abs_def)
  obtain info where rp: "Method r = ''GET''" "resolvePreviewTarget env path w = Inr (path, info)"
    using assms(1,3) abs
    by (auto simp: handlePreview_def writeError_def writeJSON_def resolvePreviewTarget_def
        split: if_splits sum.splits option.splits outcome.splits)
  have "ResourceURL p = ''/api/preview/raw?file='' @ QueryEscape path"
    using assms(1,3,7) rp by (auto simp: handlePreview_def writeJSON_def isWordDocument_def)
  then have "q = path" using assms(9) QueryUnescape_QueryEscape [of path] by simp
  then show ?thesis using assms(8,10,11) rp(2) by (simp add: handlePreviewRaw_def Let_def)
qed

section \<open>Witnesses\<close>

definition demoServer :: server_env where
  "demoServer = \<lparr>getwd = Some ''/r'',
     readDir = (\<lambda>_. Some [\<lparr>DirName = ''.git'', DirIsDir = True, DirInfoSize = Some 0\<rparr>,
                        \<lparr>DirName = ''b.txt'', DirIsDir = False, DirInfoSize = Some 3\<rparr>,
                        \<lparr>DirName = ''Docs'', DirIsDir = True, DirInfoSize = Some 0\<rparr>]),
     modTimeNanos = (\<lambda>_. 0), lookPath = (\<lambda>_. None), mkdirTemp = (\<lambda>_ _. None),
     runProgram = (\<lambda>_ _ _ w. (w, [], False)), typeByExtension = (\<lambda>_. []), clockRFC3339 = ''2024-01-01T00:00:00Z'',
     httpGet = (\<lambda>_. None), decodeImport = (\<lambda>_. None), decodeDeal = (\<lambda>_. None), decodeRetrieve = (\<lambda>_. None),
     marshalCatalog = (\<lambda>_. None), unmarshalCatalog = (\<lambda>_. None)\<rparr>"

definition fileRequest :: "string \<Rightarrow> api_request" where
  "fileRequest p = \<lparr>Method = ''GET'', UrlPath = [], QueryGet = (\<lambda>k. if k = ''file'' then p else []), ReqBody = []\<rparr>"

definition fileWorld :: world where
  "fileWorld = emptyWorld\<lparr>content := [''/r/b.txt'' \<mapsto> ''abc'', ''/r/c.pdf'' \<mapsto> ''pdf''], dirs := (\<lambda>p. p = ''/'')\<rparr>"

lemma demo_browse:
  "RespBody (handleBrowse demoServer (fileRequest []) fileWorld) =
     BrowseBody \<lparr>BrowsePath = ''/'', Entries = [\<lparr>EntryName = ''Docs'', EntryIsDir = True, EntrySize = 0\<rparr>,
       \<lparr>EntryName = ''b.txt'', EntryIsDir = False, EntrySize = 3\<rparr>]\<rparr>"
  by code_simp

theorem handleBrowse_sorted_witness:
  "\<exists>es. readDir demoServer ''/'' = Some es \<and> length (visibleEntries es) = 2"
proof -
  obtain es where es: "readDir demoServer ''/'' = Some es" and
    m: "mset [\<lparr>EntryName = ''Docs'', EntryIsDir = True, EntrySize = 0\<rparr>,
       \<lparr>EntryName = ''b.txt'', EntryIsDir = False, EntrySize = 3\<rparr>] = mset (visibleEntries es)"
    using handleBrowse_sorted [OF demo_browse] by auto
  from mset_eq_length [OF m] es show ?thesis by auto
qed

lemma demo_text:
  "resolvePreviewTarget demoServer ''/r/b.txt'' fileWorld = Inr (''/r/b.txt'', \<lparr>IsDir = False, Size = 3\<rparr>)"
  "resolvePreviewTarget demoServer ''/r/c.pdf'' fileWorld = Inr (''/r/c.pdf'', \<lparr>IsDir = False, Size = 3\<rparr>)"
  "ToLower (Ext ''/r/b.txt'') = ''.txt''" "ToLower (Ext ''/r/c.pdf'') = ''.pdf''" "Clean ''/r/c.pdf'' = ''/r/c.pdf''"
  "os_ReadFile fileWorld ''/r/b.txt'' = Ok ''abc''" "os_ReadFile fileWorld ''/r/c.pdf'' = Ok ''pdf''"
  by code_simp+

lemma demo_text_preview:
  "RespBody (snd (handlePreview demoServer cfg (fileRequest ''/r/b.txt'') fileWorld)) =
     PreviewBody \<lparr>Filename = Base ''/r/b.txt'', PreviewKind = ''text'', Content = ''abc'', ResourceURL = []\<rparr>"
  by (simp add: handlePreview_def fileRequest_def demo_text isWordDocument_def readPreviewText_def
      previewMaxTextSize_def isLikelyBinary_def writeJSON_def)

theorem handlePreview_text_witness:
  "length ''abc'' \<le> previewMaxTextSize \<and>
   (\<exists>cfg. fst (handlePreview demoServer cfg (fileRequest ''/r/b.txt'') fileWorld) = fileWorld)"
  using handlePreview_text [OF demo_text_preview] by auto

lemma demo_pdf_preview:
  "RespBody (snd (handlePreview demoServer cfg (fileRequest ''/r/c.pdf'') fileWorld)) =
     PreviewBody \<lparr>Filename = Base ''/r/c.pdf'', PreviewKind = ''pdf'', Content = [],
       ResourceURL = ''/api/preview/raw?file='' @ QueryEscape ''/r/c.pdf''\<rparr>"
  by (simp add: handlePreview_def fileRequest_def demo_text isWordDocument_def writeJSON_def Let_def)

theorem handlePreview_raw_witness:
  "RespBody (handlePreviewRaw demoServer (fileRequest ''/r/c.pdf'') fileWorld) = FileBody ''pdf''"
  using handlePreview_raw [OF demo_pdf_preview, of "''/r/c.pdf''" "''pdf''" "''/r/c.pdf''" "fileRequest ''/r/c.pdf''"]
    demo_text QueryUnescape_QueryEscape [of "''/r/c.pdf''"]
  by (simp add: fileRequest_def)

end
