(* ===== verification/CatalogWalk.thy ===== *)
theory CatalogWalk
  imports Catalog
begin

text \<open>
  What the version walk of \<open>normalizeVersions\<close> does: it visits every CID of the file
  once, keeps the labels it has given, and labels a version one generation after the version
  it was reached from.
\<close>

section \<open>The comparators are strict weak orders\<close>

interpretation child_order: slice_less child_less
  by unfold_locales (auto simp: child_less_def split: if_splits)

interpretation version_order: slice_less version_less
proof
  show "version_less x y \<Longrightarrow> \<not> version_less y x" for x y
    using compareVersionLabels_sym [of "VersionLabel x" "VersionLabel y"]
    by (auto simp: version_less_def Let_def split: if_splits)
next
  fix x y z :: CatalogVersion
  assume less: "version_less x z"
  let ?c = "\<lambda>a b. compareVersionLabels (VersionLabel a) (VersionLabel b)"
  show "version_less x y \<or> version_less y z"
  proof (cases "?c x y < 0 \<or> ?c y z < 0")
    case True
    then show ?thesis by (auto simp: version_less_def Let_def)
  next
    case False
    with less have "?c x z = 0"
      using compareVersionLabels_weak by (force simp: version_less_def Let_def split: if_splits)
    moreover have "?c x y = 0" "?c y z = 0"
      using False \<open>?c x z = 0\<close> compareVersionLabels_sym compareVersionLabels_cong
      by (metis linorder_neqE_linordered_idom)+
    ultimately show ?thesis
      using less by (auto simp: version_less_def Let_def split: if_splits)
  qed
qed

interpretation file_order: slice_less file_less
  by unfold_locales (auto simp: file_less_def Let_def split: if_splits)

section \<open>Normalised fields\<close>

lemma normalizeFields_keeps [simp]:
  "CID (normalizeFields f v) = CID v"
  "PreviousCID (normalizeFields f v) = PreviousCID v"
  "UploadedAt (normalizeFields f v) = UploadedAt v"
  "SizeBytes (normalizeFields f v) = SizeBytes v"
  "MinerIndex (normalizeFields f v) = MinerIndex v"
  "VRootCID (normalizeFields f v) = RootCID f"
  by (simp_all add: normalizeFields_def Let_def)

lemma relabel_keeps [simp]:
  "CID (relabel l v) = CID v" "PreviousCID (relabel l v) = PreviousCID v"
  "VRootCID (relabel l v) = VRootCID v" "UploadedAt (relabel l v) = UploadedAt v"
  "SourceName (relabel l v) = SourceName v" "SizeBytes (relabel l v) = SizeBytes v"
  "SizeMB (relabel l v) = SizeMB v" "Kind (relabel l v) = Kind v"
  "MinerIndex (relabel l v) = MinerIndex v"
  by (simp_all add: relabel_def)

section \<open>The state of a walk\<close>

definition walk_ok :: "CatalogVersion list \<Rightarrow> walk \<Rightarrow> bool" where
  "walk_ok vs st \<longleftrightarrow>
     distinct (map (\<lambda>i. CID (vs ! i)) (orderedIndices st)) \<and>
     (\<forall>i\<in>set (orderedIndices st). i < length vs) \<and>
     set (visited st) = (\<lambda>i. CID (vs ! i)) ` set (orderedIndices st) \<and>
     dom (labelByCID st) = set (visited st)"

lemma visit_simps [simp]:
  "visited (visit vs i l st) = CID (vs ! i) # visited st"
  "labelByCID (visit vs i l st) = (labelByCID st)(CID (vs ! i) \<mapsto> l)"
  "orderedIndices (visit vs i l st) = orderedIndices st @ [i]"
  by (simp_all add: visit_def)

lemma walk_ok_visit:
  "walk_ok vs st \<Longrightarrow> i < length vs \<Longrightarrow> CID (vs ! i) \<notin> set (visited st) \<Longrightarrow> walk_ok vs (visit vs i l st)"
  by (auto simp: walk_ok_def)

lemma walk_ok_walkTree: "walk_ok vs st \<Longrightarrow> walk_ok vs (walkTree vs todo st)"
proof (induction vs todo st rule: walkTree.induct)
  case (2 vs i label todo st)
  then show ?case
    by (auto simp: walkTree.simps(2) [of vs i] walk_ok_visit not_le)
qed simp

lemma walkTree_mono:
  "set (visited st) \<subseteq> set (visited (walkTree vs todo st))"
  "labelByCID st c = Some l \<Longrightarrow> walk_ok vs st \<Longrightarrow> labelByCID (walkTree vs todo st) c = Some l"
proof -
  show "set (visited st) \<subseteq> set (visited (walkTree vs todo st))"
  proof (induction vs todo st rule: walkTree.induct)
    case (2 vs i label todo st)
    then show ?case by (auto simp: walkTree.simps(2) [of vs i])
  qed simp
  show "labelByCID st c = Some l \<Longrightarrow> walk_ok vs st \<Longrightarrow> labelByCID (walkTree vs todo st) c = Some l"
  proof (induction vs todo st rule: walkTree.induct)
    case (2 vs i label todo st)
    show ?case
    proof (cases "length vs \<le> i \<or> CID (vs ! i) \<in> set (visited st)")
      case True
      with 2 show ?thesis by (simp add: walkTree.simps(2) [of vs i])
    next
      case False
      moreover have "CID (vs ! i) \<noteq> c"
        using False 2(3,4) by (metis domI walk_ok_def)
      ultimately show ?thesis
        using 2 by (simp add: walkTree.simps(2) [of vs i] walk_ok_visit)
    qed
  qed simp
qed

lemma walkTree_todo_visited:
  "(i, l) \<in> set todo \<Longrightarrow> i < length vs \<Longrightarrow> CID (vs ! i) \<in> set (visited (walkTree vs todo st))"
proof (induction vs todo st rule: walkTree.induct)
  case (2 vs j label todo st)
  show ?case
  proof (cases "length vs \<le> j \<or> CID (vs ! j) \<in> set (visited st)")
    case True
    then show ?thesis
      using 2 walkTree_mono(1) [of st vs todo]
      by (auto simp: walkTree.simps(2) [of vs j])
  next
    case False
    let ?st = "visit vs j label st"
    let ?todo = "childCalls (childIndices vs (CID (vs ! j))) label @ todo"
    have "CID (vs ! j) \<in> set (visited (walkTree vs ?todo ?st))"
      using walkTree_mono(1) [of ?st vs ?todo] by auto
    with False 2 show ?thesis by (auto simp: walkTree.simps(2) [of vs j])
  qed
qed simp

section \<open>Every version is visited once\<close>

lemma walk_ok_orphanLoop: "walk_ok vs st \<Longrightarrow> walk_ok vs (orphanLoop vs is n st)"
  by (induction vs "is" n st rule: orphanLoop.induct) (simp_all add: walk_ok_walkTree)

lemma orphanLoop_visited_mono: "set (visited st) \<subseteq> set (visited (orphanLoop vs is n st))"
proof (induction vs "is" n st rule: orphanLoop.induct)
  case (2 vs i "is" n st)
  show ?case
  proof (cases "CID (vs ! i) \<in> set (visited st)")
    case True
    with 2 show ?thesis by simp
  next
    case False
    with 2(2) [OF False refl refl refl] show ?thesis
      using walkTree_mono(1) [of st vs] by (simp add: Let_def) blast
  qed
qed simp

lemma orphanLoop_label_mono:
  "walk_ok vs st \<Longrightarrow> labelByCID st c = Some l \<Longrightarrow> labelByCID (orphanLoop vs is n st) c = Some l"
  by (induction vs "is" n st rule: orphanLoop.induct)
    (simp_all add: walk_ok_walkTree walkTree_mono(2) Let_def)

lemma orphanLoop_visits:
  "i \<in> set is \<Longrightarrow> i < length vs \<Longrightarrow> CID (vs ! i) \<in> set (visited (orphanLoop vs is n st))"
proof (induction vs "is" n st rule: orphanLoop.induct)
  case (2 vs j "is" n st)
  show ?case
  proof (cases "i = j")
    case False
    with 2 show ?thesis by (auto simp: Let_def)
  next
    case True
    have "CID (vs ! i) \<in> set (visited (walkTree vs [(i, l)] st))" for l
      using walkTree_todo_visited [of i l "[(i, l)]" vs st] 2(4) by simp
    with True show ?thesis
      by (simp add: Let_def subsetD [OF orphanLoop_visited_mono])
  qed
qed simp

definition emptyWalk :: walk where
  "emptyWalk = \<lparr>visited = [], labelByCID = (\<lambda>_. None), orderedIndices = []\<rparr>"

lemma walk_ok_empty: "walk_ok vs emptyWalk"
  by (simp add: walk_ok_def emptyWalk_def)

lemma walkAll_eq:
  "walkAll vs r =
     (let st1 = walkTree vs [(r, ''v1'')] emptyWalk in
      if length (orderedIndices st1) < length vs then orphanLoop vs [0..<length vs] 0 st1 else st1)"
  by (simp add: walkAll_def emptyWalk_def Let_def)

lemma walk_ok_walkAll: "walk_ok vs (walkAll vs r)"
  by (simp add: walkAll_eq Let_def walk_ok_orphanLoop walk_ok_walkTree walk_ok_empty)

lemma walk_ok_full:
  assumes "walk_ok vs st" and "length vs \<le> length (orderedIndices st)"
  shows "set (orderedIndices st) = {..<length vs}"
proof (rule card_subset_eq)
  have "distinct (orderedIndices st)"
    using assms(1) by (simp add: walk_ok_def distinct_map)
  then have "card (set (orderedIndices st)) = length (orderedIndices st)"
    by (rule distinct_card)
  moreover have sub: "set (orderedIndices st) \<subseteq> {..<length vs}"
    using assms(1) by (auto simp: walk_ok_def)
  ultimately show "card (set (orderedIndices st)) = card {..<length vs}"
    using assms(2) card_mono [OF _ sub] by simp
  show "set (orderedIndices st) \<subseteq> {..<length vs}" by (rule sub)
qed simp

lemma walkAll_visited: "set (visited (walkAll vs r)) = CID ` set vs"
proof
  show "set (visited (walkAll vs r)) \<subseteq> CID ` set vs"
    using walk_ok_walkAll [of vs r] by (auto simp: walk_ok_def)
  show "CID ` set vs \<subseteq> set (visited (walkAll vs r))"
  proof
    fix c assume "c \<in> CID ` set vs"
    then obtain i where i: "i < length vs" "c = CID (vs ! i)"
      by (metis imageE in_set_conv_nth)
    let ?st = "walkTree vs [(r, ''v1'')] emptyWalk"
    show "c \<in> set (visited (walkAll vs r))"
    proof (cases "length (orderedIndices ?st) < length vs")
      case True
      then show ?thesis
        using i orphanLoop_visits [of i "[0..<length vs]" vs] by (simp add: walkAll_eq Let_def)
    next
      case False
      have ok: "walk_ok vs ?st" by (rule walk_ok_walkTree) (rule walk_ok_empty)
      with False have "set (orderedIndices ?st) = {..<length vs}"
        by (intro walk_ok_full) simp_all
      with False i ok show ?thesis
        by (auto simp: walkAll_eq Let_def walk_ok_def)
    qed
  qed
qed

lemma walkAll_distinct: "distinct (map (\<lambda>i. CID (vs ! i)) (orderedIndices (walkAll vs r)))"
  using walk_ok_walkAll [of vs r] by (simp add: walk_ok_def)

lemma walkAll_dom: "dom (labelByCID (walkAll vs r)) = CID ` set vs"
  using walk_ok_walkAll [of vs r] walkAll_visited [of vs r] by (simp add: walk_ok_def)

lemma walkAll_index: "i \<in> set (orderedIndices (walkAll vs r)) \<Longrightarrow> i < length vs"
  using walk_ok_walkAll [of vs r] by (simp add: walk_ok_def)

lemma walkAll_ordered_cids:
  "(\<lambda>i. CID (vs ! i)) ` set (orderedIndices (walkAll vs r)) = CID ` set vs"
  using walk_ok_walkAll [of vs r] walkAll_visited [of vs r] by (simp add: walk_ok_def)

section \<open>What normalising keeps\<close>

definition normalizedVersions :: "CatalogFile \<Rightarrow> CatalogVersion list" where
  "normalizedVersions file = map (normalizeFields file) (Versions file)"

definition versionLabels :: "CatalogFile \<Rightarrow> string \<rightharpoonup> string" where
  "versionLabels file = labelByCID (walkAll (normalizedVersions file) (rootIndexOf file))"

lemma Versions_normalizeVersions:
  assumes "Versions file \<noteq> []"
  shows "Versions (normalizeVersions file) =
     sort_by version_less (map (\<lambda>i. relabel (versionLabels file) (normalizedVersions file ! i))
       (orderedIndices (walkAll (normalizedVersions file) (rootIndexOf file))))"
  using assms by (simp add: normalizeVersions_def normalizedVersions_def versionLabels_def Let_def)

lemma normalizeVersions_file [simp]:
  "RootCID (normalizeVersions f) = RootCID f" "DisplayName (normalizeVersions f) = DisplayName f"
  "Extension (normalizeVersions f) = Extension f" "CreatedAt (normalizeVersions f) = CreatedAt f"
  by (simp_all add: normalizeVersions_def Let_def)

lemma CID_normalizedVersions [simp]: "CID ` set (normalizedVersions f) = CID ` set (Versions f)"
  by (simp add: normalizedVersions_def image_image)

lemma map_CID_normalizedVersions [simp]: "map CID (normalizedVersions f) = map CID (Versions f)"
  by (simp add: normalizedVersions_def)

lemma normalizeVersions_cids: "CID ` set (Versions (normalizeVersions f)) = CID ` set (Versions f)"
proof (cases "Versions f = []")
  case True
  then show ?thesis by (simp add: normalizeVersions_def)
next
  case False
  let ?vs = "normalizedVersions f"
  have "CID ` set (Versions (normalizeVersions f))
      = (\<lambda>i. CID (?vs ! i)) ` set (orderedIndices (walkAll ?vs (rootIndexOf f)))"
    by (simp add: Versions_normalizeVersions False image_image)
  then show ?thesis by (simp add: walkAll_ordered_cids)
qed

lemma normalizeVersions_distinct: "Versions f \<noteq> [] \<Longrightarrow> distinct (map CID (Versions (normalizeVersions f)))"
  using walkAll_distinct [of "normalizedVersions f" "rootIndexOf f"]
  by (simp add: Versions_normalizeVersions comp_def)

lemma normalizeVersions_sorted:
  "sorted_wrt (\<lambda>a b. \<not> version_less b a) (Versions (normalizeVersions f))"
  by (cases "Versions f = []")
    (simp_all add: Versions_normalizeVersions version_order.sorted_sort_by, simp add: normalizeVersions_def)

text \<open>Each version of the result is a version of the file with its fields filled and relabelled.\<close>

lemma normalizeVersions_elem:
  assumes "v \<in> set (Versions (normalizeVersions f))"
  obtains u where "u \<in> set (Versions f)" "v = relabel (versionLabels f) (normalizeFields f u)"
proof -
  have "Versions f \<noteq> []" using assms by (auto simp: normalizeVersions_def)
  with assms obtain i where i: "i \<in> set (orderedIndices (walkAll (normalizedVersions f) (rootIndexOf f)))"
    and v: "v = relabel (versionLabels f) (normalizedVersions f ! i)"
    by (auto simp: Versions_normalizeVersions)
  from i have "i < length (Versions f)"
    using walkAll_index by (fastforce simp: normalizedVersions_def)
  with v show ?thesis by (intro that [of "Versions f ! i"]) (simp_all add: normalizedVersions_def)
qed

end
