(* ===== verification/CatalogLabels.thy ===== *)
theory CatalogLabels
  imports CatalogWalk
begin

text \<open>
  The labels of \<open>normalizeVersions\<close> against a declarative reading: the version path of an
  index is the list of numbers a label is made of, given by the place of the version in the
  tree of predecessors. The walk computes the paths of everything below the root.
\<close>

section \<open>Version paths\<close>

inductive version_path :: "CatalogVersion list \<Rightarrow> nat \<Rightarrow> nat \<Rightarrow> int list \<Rightarrow> bool"
  for vs r where
  root: "version_path vs r r [1]"
| child: "version_path vs r i (g # ps) \<Longrightarrow> k < length (childIndices vs (CID (vs ! i))) \<Longrightarrow>
    version_path vs r (childIndices vs (CID (vs ! i)) ! k)
      ((g + 1) # ps @ (if k = 0 then [] else [int k]))"

inductive_cases version_pathE: "version_path vs r i ps"

lemma childIndices_iff:
  "j \<in> set (childIndices vs c) \<longleftrightarrow> j < length vs \<and> c \<noteq> [] \<and> TrimSpace (PreviousCID (vs ! j)) = c"
  by (auto simp: childIndices_def Let_def)

lemma childIndices_distinct [simp]: "distinct (childIndices vs c)"
  by (simp add: childIndices_def)

lemma length_childIndices: "length (childIndices vs c) \<le> length vs"
  using length_filter_le [of _ "[0..<length vs]"] by (simp add: childIndices_def)

lemma version_path_ne: "version_path vs r i ps \<Longrightarrow> ps \<noteq> []"
  by (induction rule: version_path.induct) auto

lemma version_path_bound: "version_path vs r i ps \<Longrightarrow> r < length vs \<Longrightarrow> i < length vs"
  by (cases rule: version_path.cases) (use nth_mem childIndices_iff in force)+

lemma version_path_unique:
  assumes "version_path vs r i ps" and "version_path vs r i qs"
    and "r < length vs" "TrimSpace (PreviousCID (vs ! r)) = []" "distinct (map CID vs)"
  shows "ps = qs"
  using assms(1,2)
proof (induction arbitrary: qs rule: version_path.induct)
  case root
  then show ?case
    by (cases rule: version_path.cases) (use nth_mem assms childIndices_iff in force)+
next
  case hyp: (child i g ps k)
  let ?c = "childIndices vs (CID (vs ! i))"
  have j: "?c ! k \<in> set ?c" using hyp.hyps by simp
  from hyp.prems show ?case
  proof (cases rule: version_path.cases)
    case root
    with j show ?thesis using assms(4) by (auto simp: childIndices_iff)
  next
    case (child i' g' ps' k')
    let ?c' = "childIndices vs (CID (vs ! i'))"
    have "?c' ! k' \<in> set ?c'" using child by simp
    with j child(1) have c: "CID (vs ! i) = CID (vs ! i')"
      by (simp add: childIndices_iff)
    have i: "i = i'"
      using c distinct_map_nth_inj [OF assms(5)] version_path_bound [OF _ assms(3)]
        hyp.hyps(1) child(3) by blast
    then have "k = k'"
      using child(1,4) hyp.hyps(2) nth_eq_iff_index_eq [OF childIndices_distinct] by metis
    moreover have "g # ps = g' # ps'" using hyp.IH i child(3) by blast
    ultimately show ?thesis using child(2) by simp
  qed
qed

section \<open>The walk computes them\<close>

text \<open>
  The numbers of a label stay within the count of versions, so no generation wraps around:
  \<open>m\<close> versions visited leave the first number at \<open>m + 1\<close> or less.
\<close>

definition path_within :: "nat \<Rightarrow> nat \<Rightarrow> int list \<Rightarrow> bool" where
  "path_within n m ps \<longleftrightarrow>
     ps \<noteq> [] \<and> 1 \<le> hd ps \<and> hd ps \<le> int m + 1 \<and> (\<forall>p\<in>set (tl ps). 0 \<le> p \<and> p \<le> int n)"

definition path_label :: "CatalogVersion list \<Rightarrow> nat \<Rightarrow> nat \<Rightarrow> nat \<Rightarrow> string \<Rightarrow> bool" where
  "path_label vs r m i l \<longleftrightarrow>
     (\<exists>ps. version_path vs r i ps \<and> path_within (length vs) m ps \<and> l = formatVersionLabel ps)"

lemma path_label_mono: "path_label vs r m i l \<Longrightarrow> m \<le> m' \<Longrightarrow> path_label vs r m' i l"
proof -
  have "path_within n m ps \<Longrightarrow> m \<le> m' \<Longrightarrow> path_within n m' ps" for n ps
    by (auto simp: path_within_def)
  then show "path_label vs r m i l \<Longrightarrow> m \<le> m' \<Longrightarrow> path_label vs r m' i l"
    unfolding path_label_def by blast
qed

lemma set_enumerate_0: "set (enumerate 0 xs) = (\<lambda>k. (k, xs ! k)) ` {..<length xs}"
  by (force simp: in_set_enumerate_eq)

lemma set_childCalls:
  "set (childCalls cs label) =
     (\<lambda>k. (cs ! k, nextGenerationLabel label @ (if k = 0 then [] else ''.'' @ Itoa (int k))))
       ` {..<length cs}"
proof (cases cs)
  case (Cons c rest)
  have "set (childCalls cs label) = insert (c, nextGenerationLabel label)
     ((\<lambda>k. (rest ! k, nextGenerationLabel label @ ''.'' @ Itoa (int k + 1))) ` {..<length rest})"
    by (simp add: Cons childCalls_def Let_def set_enumerate_0 image_image)
  then show ?thesis
    by (simp add: Cons lessThan_Suc_eq_insert_0 image_image add.commute)
qed (simp add: childCalls_def)

lemma fst_childCalls: "fst ` set (childCalls cs label) = set cs"
proof -
  have "set cs = (\<lambda>k. cs ! k) ` {..<length cs}"
    by (auto simp: set_conv_nth)
  then show ?thesis by (simp add: set_childCalls image_image)
qed

lemma path_label_child:
  assumes "path_label vs r m i label" and "m < length vs" and "in_int64 (int (length vs) + 1)"
    and "(j, l) \<in> set (childCalls (childIndices vs (CID (vs ! i))) label)"
  shows "path_label vs r (Suc m) j l"
proof -
  let ?cs = "childIndices vs (CID (vs ! i))"
  from assms(4) obtain k where k: "k < length ?cs" "j = ?cs ! k"
    "l = nextGenerationLabel label @ (if k = 0 then [] else ''.'' @ Itoa (int k))"
    by (auto simp: set_childCalls)
  from assms(1) obtain g ps where g: "version_path vs r i (g # ps)"
    "path_within (length vs) m (g # ps)" "label = formatVersionLabel (g # ps)"
    by (auto simp: path_label_def path_within_def neq_Nil_conv)
  have next_label: "nextGenerationLabel label = formatVersionLabel ((g + 1) # ps)"
    unfolding g(3) using g(2) assms(2,3)
    by (intro nextGeneration_format) (force simp: path_within_def in_int64_def)+
  let ?ps = "(g + 1) # ps @ (if k = 0 then [] else [int k])"
  have "version_path vs r j ?ps"
    using version_path.child [OF g(1) k(1)] k(2) by simp
  moreover have "k \<le> length vs"
    using k(1) length_childIndices [of vs "CID (vs ! i)"] by simp
  then have "path_within (length vs) (Suc m) ?ps"
    using g(2) by (auto simp: path_within_def)
  moreover have "l = formatVersionLabel ?ps"
    using k(3) next_label format_branch [of "(g + 1) # ps" "int k"] by simp
  ultimately show ?thesis unfolding path_label_def by blast
qed

text \<open>The state of a walk below \<open>r\<close> with the calls \<open>todo\<close> still to make.\<close>

definition tree_inv :: "CatalogVersion list \<Rightarrow> nat \<Rightarrow> (nat \<times> string) list \<Rightarrow> walk \<Rightarrow> bool" where
  "tree_inv vs r todo st \<longleftrightarrow>
     walk_ok vs st \<and>
     (\<forall>(i, l)\<in>set todo. i < length vs \<and> path_label vs r (length (orderedIndices st)) i l) \<and>
     (\<forall>i\<in>set (orderedIndices st). \<exists>l. labelByCID st (CID (vs ! i)) = Some l \<and>
        path_label vs r (length vs) i l) \<and>
     (\<forall>i\<in>set (orderedIndices st). \<forall>j\<in>set (childIndices vs (CID (vs ! i))).
        CID (vs ! j) \<in> set (visited st) \<or> j \<in> fst ` set todo)"

lemma walk_ok_length: "walk_ok vs st \<Longrightarrow> length (orderedIndices st) \<le> card (CID ` set vs)"
proof -
  assume ok: "walk_ok vs st"
  then have "length (orderedIndices st) = card ((\<lambda>i. CID (vs ! i)) ` set (orderedIndices st))"
    by (metis distinct_card length_map list.set_map walk_ok_def)
  also have "\<dots> \<le> card (CID ` set vs)"
    using ok by (intro card_mono) (auto simp: walk_ok_def)
  finally show ?thesis .
qed

lemma walk_ok_length_less:
  assumes "walk_ok vs st" "i < length vs" "CID (vs ! i) \<notin> set (visited st)"
  shows "length (orderedIndices st) < length vs"
  using walk_ok_length [OF walk_ok_visit [OF assms]] card_image_le [of "set vs" CID] card_length [of vs]
  by (simp add: Suc_le_eq)

lemma tree_inv_visit:
  assumes inv: "tree_inv vs r ((i, label) # todo) st" and new: "CID (vs ! i) \<notin> set (visited st)"
    and small: "in_int64 (int (length vs) + 1)"
  shows "tree_inv vs r (childCalls (childIndices vs (CID (vs ! i))) label @ todo) (visit vs i label st)"
    (is "tree_inv vs r (?calls @ todo) ?st")
proof -
  have ok: "walk_ok vs st" and i: "i < length vs"
    and lab: "path_label vs r (length (orderedIndices st)) i label"
    using inv by (auto simp: tree_inv_def)
  note less = walk_ok_length_less [OF ok i new]
  have calls: "j < length vs \<and> path_label vs r (length (orderedIndices ?st)) j l"
    if "(j, l) \<in> set ?calls" for j l
  proof -
    have "j \<in> set (childIndices vs (CID (vs ! i)))"
      using imageI [OF that, of fst] by (simp add: fst_childCalls)
    then show ?thesis
      using path_label_child [OF lab less small that] by (simp add: childIndices_iff)
  qed
  have todo: "j < length vs \<and> path_label vs r (length (orderedIndices ?st)) j l"
    if "(j, l) \<in> set todo" for j l
    using inv that path_label_mono [of vs r "length (orderedIndices st)" j l] by (auto simp: tree_inv_def)
  have old: "CID (vs ! j) \<noteq> CID (vs ! i)" if "j \<in> set (orderedIndices st)" for j
    using that new ok by (metis imageI walk_ok_def)
  show ?thesis
    unfolding tree_inv_def
  proof (intro conjI)
    show "walk_ok vs ?st" by (rule walk_ok_visit [OF ok i new])
    show "\<forall>(j, l)\<in>set (?calls @ todo). j < length vs \<and> path_label vs r (length (orderedIndices ?st)) j l"
      using calls todo by auto
    show "\<forall>j\<in>set (orderedIndices ?st). \<exists>l. labelByCID ?st (CID (vs ! j)) = Some l \<and>
        path_label vs r (length vs) j l"
      using inv old path_label_mono [OF lab less_imp_le [OF less]] by (simp add: tree_inv_def ball_Un)
    show "\<forall>j\<in>set (orderedIndices ?st). \<forall>k\<in>set (childIndices vs (CID (vs ! j))).
        CID (vs ! k) \<in> set (visited ?st) \<or> k \<in> fst ` set (?calls @ todo)"
      using inv by (auto simp: tree_inv_def fst_childCalls image_Un)
  qed
qed

lemma tree_inv_walkTree:
  "tree_inv vs r todo st \<Longrightarrow> in_int64 (int (length vs) + 1) \<Longrightarrow> tree_inv vs r [] (walkTree vs todo st)"
proof (induction vs todo st rule: walkTree.induct)
  case (2 vs i label todo st)
  show ?case
  proof (cases "length vs \<le> i \<or> CID (vs ! i) \<in> set (visited st)")
    case True
    with 2(3) have "tree_inv vs r todo st" by (auto simp: tree_inv_def)
    with True 2 show ?thesis by (simp add: walkTree.simps(2) [of vs i])
  next
    case False
    with 2 show ?thesis by (simp add: walkTree.simps(2) [of vs i] tree_inv_visit)
  qed
qed simp

lemma path_label_root: "path_label vs r m r ''v1''"
proof -
  have "''v1'' = formatVersionLabel [1]" by code_simp
  then show ?thesis
    using version_path.root [of vs r] by (force simp: path_label_def path_within_def)
qed

lemma tree_inv_root:
  assumes "r < length vs" "in_int64 (int (length vs) + 1)"
  shows "tree_inv vs r [] (walkTree vs [(r, ''v1'')] emptyWalk)"
proof (rule tree_inv_walkTree [OF _ assms(2)])
  show "tree_inv vs r [(r, ''v1'')] emptyWalk"
    using assms walk_ok_empty path_label_root [of vs r]
    by (simp add: tree_inv_def) (simp add: emptyWalk_def)
qed

text \<open>Everything with a path is visited and has its path as label.\<close>

lemma tree_inv_path:
  assumes inv: "tree_inv vs r [] st" and root: "CID (vs ! r) \<in> set (visited st)"
    and r: "r < length vs" and d: "distinct (map CID vs)"
    and p: "version_path vs r i ps"
  shows "i \<in> set (orderedIndices st)"
  using p
proof (induction rule: version_path.induct)
  have mem: "i \<in> set (orderedIndices st)" if "CID (vs ! i) \<in> set (visited st)" "i < length vs" for i
    using that inv distinct_map_nth_inj [OF d] by (fastforce simp: tree_inv_def walk_ok_def)
  {
    case root
    show ?case by (rule mem [OF \<open>CID (vs ! r) \<in> set (visited st)\<close> r])
  next
    case (child i g ps k)
    have "childIndices vs (CID (vs ! i)) ! k \<in> set (childIndices vs (CID (vs ! i)))"
      using child by simp
    with child.IH inv show ?case
      by (intro mem) (auto simp: tree_inv_def childIndices_iff)
  }
qed

lemma tree_label:
  assumes "r < length vs" "in_int64 (int (length vs) + 1)" "distinct (map CID vs)"
    and "TrimSpace (PreviousCID (vs ! r)) = []" and p: "version_path vs r i ps"
  shows "labelByCID (walkTree vs [(r, ''v1'')] emptyWalk) (CID (vs ! i)) = Some (formatVersionLabel ps)"
    and "path_within (length vs) (length vs) ps"
proof -
  let ?st = "walkTree vs [(r, ''v1'')] emptyWalk"
  note inv = tree_inv_root [OF assms(1,2)]
  have "CID (vs ! r) \<in> set (visited ?st)"
    using walkTree_todo_visited [of r "''v1''"] assms(1) by simp
  then have "i \<in> set (orderedIndices ?st)"
    using tree_inv_path [OF inv] assms by blast
  then obtain qs where "labelByCID ?st (CID (vs ! i)) = Some (formatVersionLabel qs)"
    "version_path vs r i qs" "path_within (length vs) (length vs) qs"
    using inv unfolding tree_inv_def path_label_def by blast
  moreover have "qs = ps"
    using version_path_unique assms calculation by blast
  ultimately show "labelByCID ?st (CID (vs ! i)) = Some (formatVersionLabel ps)"
    and "path_within (length vs) (length vs) ps" by simp_all
qed

lemma walkAll_label:
  assumes "r < length vs" "in_int64 (int (length vs) + 1)" "distinct (map CID vs)"
    and "TrimSpace (PreviousCID (vs ! r)) = []" "version_path vs r i ps"
  shows "labelByCID (walkAll vs r) (CID (vs ! i)) = Some (formatVersionLabel ps)"
  using tree_label(1) [OF assms] orphanLoop_label_mono [OF walk_ok_walkTree [OF walk_ok_empty]]
  by (simp add: walkAll_eq Let_def)

end
