(* ===== verification/CatalogInv.thy ===== *)
theory CatalogInv
  imports CatalogLabels
begin

text \<open>
  The invariant of the catalog: in every file the CIDs are distinct and every version descends
  from the root version. It is kept by normalising, by recording an initial version and by
  recording a patch; for such files normalising is idempotent and the labels are the
  paths of the versions in the tree of predecessors.
\<close>

section \<open>Children and paths by CID\<close>

definition children :: "CatalogVersion list \<Rightarrow> string \<Rightarrow> CatalogVersion list" where
  "children vs c =
     sort_by child_less (filter (\<lambda>v. c \<noteq> [] \<and> TrimSpace (PreviousCID v) = c) vs)"

inductive cid_path :: "CatalogVersion list \<Rightarrow> string \<Rightarrow> string \<Rightarrow> int list \<Rightarrow> bool"
  for vs root where
  root: "cid_path vs root root [1]"
| child: "cid_path vs root c (g # ps) \<Longrightarrow> k < length (children vs c) \<Longrightarrow>
    cid_path vs root (CID (children vs c ! k)) ((g + 1) # ps @ (if k = 0 then [] else [int k]))"

lemma insert_by_map: "insert_by lt (f x) (map f ys) = map f (insert_by (\<lambda>a b. lt (f a) (f b)) x ys)"
  by (induction ys) auto

lemma sort_by_map: "sort_by lt (map f xs) = map f (sort_by (\<lambda>a b. lt (f a) (f b)) xs)"
  by (induction xs rule: rev_induct) (simp_all add: sort_by_snoc insert_by_map)

lemma children_index: "children vs c = map ((!) vs) (childIndices vs c)"
proof -
  let ?P = "\<lambda>v. c \<noteq> [] \<and> TrimSpace (PreviousCID v) = c"
  have "filter ?P vs = filter ?P (map ((!) vs) [0..<length vs])" by (simp add: map_nth)
  also have "\<dots> = map ((!) vs) (filter (\<lambda>i. ?P (vs ! i)) [0..<length vs])"
    by (simp add: filter_map comp_def)
  also have "(\<lambda>i. ?P (vs ! i)) = (\<lambda>i. let previousCID = TrimSpace (PreviousCID (vs ! i))
                    in previousCID \<noteq> [] \<and> previousCID = c)"
    by (auto simp: Let_def)
  finally show ?thesis unfolding children_def childIndices_def by (simp add: sort_by_map)
qed

lemma cid_path_index:
  assumes "cid_path vs (CID (vs ! r)) c ps" "r < length vs"
  shows "\<exists>i. version_path vs r i ps \<and> CID (vs ! i) = c"
  using assms(1)
proof (induction rule: cid_path.induct)
  case root
  show ?case using version_path.root by blast
next
  case (child c g ps k)
  then obtain i where "version_path vs r i (g # ps)" "CID (vs ! i) = c" by blast
  with version_path.child [OF this(1), of k] child(2) show ?case
    by (auto simp: children_index)
qed

lemma set_children: "v \<in> set (children vs c) \<longleftrightarrow> v \<in> set vs \<and> c \<noteq> [] \<and> TrimSpace (PreviousCID v) = c"
  by (auto simp: children_def)

text \<open>Reaching a CID from the root, without the numbers.\<close>

inductive descends :: "CatalogVersion list \<Rightarrow> string \<Rightarrow> string \<Rightarrow> bool" for vs root where
  root: "descends vs root root"
| child: "descends vs root c \<Longrightarrow> v \<in> set vs \<Longrightarrow> c \<noteq> [] \<Longrightarrow> TrimSpace (PreviousCID v) = c \<Longrightarrow>
    descends vs root (CID v)"

lemma descends_path: "descends vs root c \<Longrightarrow> \<exists>g ps. cid_path vs root c (g # ps)"
proof (induction rule: descends.induct)
  case root
  show ?case using cid_path.root by blast
next
  case (child c v)
  then obtain g ps where p: "cid_path vs root c (g # ps)" by blast
  from child have "v \<in> set (children vs c)" by (simp add: set_children)
  then obtain k where "k < length (children vs c)" "children vs c ! k = v"
    by (auto simp: in_set_conv_nth)
  with cid_path.child [OF p this(1)] show ?case by auto
qed

lemma descends_transfer:
  assumes "descends vs root c"
    and "\<And>v. v \<in> set vs \<Longrightarrow> \<exists>v'\<in>set vs'. CID v' = CID v \<and> PreviousCID v' = PreviousCID v"
  shows "descends vs' root c"
  using assms(1)
proof (induction rule: descends.induct)
  case (child c v)
  with assms(2) obtain v' where "v' \<in> set vs'" "CID v' = CID v" "PreviousCID v' = PreviousCID v"
    by blast
  with descends.child [of vs' root c v'] child show ?case by simp
qed (rule descends.root)

section \<open>The invariant\<close>

definition plain_cid :: "string \<Rightarrow> bool" where
  "plain_cid c \<longleftrightarrow> c \<noteq> [] \<and> TrimSpace c = c"

definition file_ok :: "CatalogFile \<Rightarrow> bool" where
  "file_ok f \<longleftrightarrow>
     distinct (map CID (Versions f)) \<and>
     (\<forall>v\<in>set (Versions f). plain_cid (CID v) \<and> descends (Versions f) (RootCID f) (CID v)) \<and>
     (\<exists>v\<in>set (Versions f). CID v = RootCID f \<and> TrimSpace (PreviousCID v) = [])"

definition catalog_ok :: "Catalog \<Rightarrow> bool" where
  "catalog_ok c \<longleftrightarrow> distinct (map RootCID (Files c)) \<and> (\<forall>f\<in>set (Files c). file_ok f)"

lemma file_ok_rootIndex:
  assumes "file_ok f"
  shows "rootIndexOf f < length (Versions f)" "CID (Versions f ! rootIndexOf f) = RootCID f"
    "TrimSpace (PreviousCID (Versions f ! rootIndexOf f)) = []"
proof -
  obtain v where v: "v \<in> set (Versions f)" "CID v = RootCID f" "TrimSpace (PreviousCID v) = []"
    using assms by (auto simp: file_ok_def)
  then obtain i where i: "findVersionIndex (Versions f) (RootCID f) = Some i"
    using find_index_exists [of v "Versions f" "\<lambda>u. CID u = RootCID f"]
    unfolding findVersionIndex_def by blast
  then have i': "i < length (Versions f)" "CID (Versions f ! i) = RootCID f"
    using find_index_Some [of _ "Versions f" i] unfolding findVersionIndex_def by blast+
  with i show "rootIndexOf f < length (Versions f)" "CID (Versions f ! rootIndexOf f) = RootCID f"
    by (simp_all add: rootIndexOf_def)
  have "Versions f ! i = v"
    using assms v i' by (metis distinct_map file_ok_def inj_onD nth_mem)
  with i v show "TrimSpace (PreviousCID (Versions f ! rootIndexOf f)) = []"
    by (simp add: rootIndexOf_def)
qed

lemma file_ok_ne: "file_ok f \<Longrightarrow> Versions f \<noteq> []"
  by (auto simp: file_ok_def)

lemma normalizedVersions_nth [simp]:
  "i < length (Versions f) \<Longrightarrow> normalizedVersions f ! i = normalizeFields f (Versions f ! i)"
  "length (normalizedVersions f) = length (Versions f)"
  by (simp_all add: normalizedVersions_def)

text \<open>The label of a version of a file in order is its path.\<close>

lemma versionLabels_path:
  assumes "file_ok f" "in_int64 (int (length (Versions f)) + 1)"
    and "cid_path (normalizedVersions f) (RootCID f) c ps"
  shows "versionLabels f c = Some (formatVersionLabel ps)"
    and "path_within (length (Versions f)) (length (Versions f)) ps"
proof -
  note r = file_ok_rootIndex [OF assms(1)]
  have "cid_path (normalizedVersions f) (CID (normalizedVersions f ! rootIndexOf f)) c ps"
    using assms(3) r by simp
  then obtain i where "version_path (normalizedVersions f) (rootIndexOf f) i ps"
    "CID (normalizedVersions f ! i) = c"
    using cid_path_index r(1) by (metis normalizedVersions_nth(2))
  then show "versionLabels f c = Some (formatVersionLabel ps)"
    and "path_within (length (Versions f)) (length (Versions f)) ps"
    using walkAll_label [of "rootIndexOf f" "normalizedVersions f" i ps] r assms(1,2)
      tree_label(2) [of "rootIndexOf f" "normalizedVersions f" i ps]
    by (simp_all add: versionLabels_def file_ok_def)
qed

lemma versionLabels_dom: "dom (versionLabels f) = CID ` set (Versions f)"
  by (simp add: versionLabels_def walkAll_dom)

section \<open>Normalising keeps the invariant\<close>

lemma ordered_perm:
  assumes "distinct (map CID vs)"
  shows "mset (orderedIndices (walkAll vs r)) = mset [0..<length vs]"
proof (rule set_eq_iff_mset_eq_distinct [THEN iffD1])
  show "distinct (orderedIndices (walkAll vs r))"
    using walkAll_distinct [of vs r] by (simp add: distinct_map)
  show "set (orderedIndices (walkAll vs r)) = set [0..<length vs]"
  proof (intro equalityI subsetI)
    fix i assume "i \<in> set [0..<length vs]"
    then have i: "i < length vs" by simp
    then have "CID (vs ! i) \<in> (\<lambda>i. CID (vs ! i)) ` set (orderedIndices (walkAll vs r))"
      by (simp add: walkAll_ordered_cids)
    then show "i \<in> set (orderedIndices (walkAll vs r))"
      using i walkAll_index [of _ vs r] distinct_map_nth_inj [OF assms] by blast
  qed (simp add: walkAll_index)
qed simp

lemma mset_normalizeVersions:
  assumes "distinct (map CID (Versions f))"
  shows "mset (Versions (normalizeVersions f)) =
    mset (map (relabel (versionLabels f)) (normalizedVersions f))"
proof (cases "Versions f = []")
  case True
  then show ?thesis by (simp add: normalizeVersions_def normalizedVersions_def)
next
  case False
  let ?vs = "normalizedVersions f" and ?g = "\<lambda>i. relabel (versionLabels f) (normalizedVersions f ! i)"
  have "mset (Versions (normalizeVersions f)) =
      mset (map ?g (orderedIndices (walkAll ?vs (rootIndexOf f))))"
    by (simp only: Versions_normalizeVersions [OF False] mset_sort_by)
  also have "\<dots> = image_mset ?g (mset (orderedIndices (walkAll ?vs (rootIndexOf f))))"
    by (rule mset_map)
  also have "\<dots> = image_mset ?g (mset [0..<length ?vs])"
    using assms by (simp only: ordered_perm map_CID_normalizedVersions)
  also have "\<dots> = mset (map (relabel (versionLabels f)) (map ((!) ?vs) [0..<length ?vs]))"
    by (simp only: mset_map image_mset.compositionality comp_def)
  finally show ?thesis by (simp only: map_nth)
qed

lemma set_normalizeVersions:
  "distinct (map CID (Versions f)) \<Longrightarrow>
   set (Versions (normalizeVersions f)) = relabel (versionLabels f) ` normalizeFields f ` set (Versions f)"
  using mset_normalizeVersions [THEN arg_cong, of f set_mset]
  by (simp add: normalizedVersions_def image_image)

lemma file_ok_normalizeVersions:
  assumes "file_ok f"
  shows "file_ok (normalizeVersions f)"
proof -
  have set: "set (Versions (normalizeVersions f))
      = relabel (versionLabels f) ` normalizeFields f ` set (Versions f)"
    using assms by (simp add: set_normalizeVersions file_ok_def)
  have "descends (Versions (normalizeVersions f)) (RootCID f) c"
    if "descends (Versions f) (RootCID f) c" for c
    using that by (rule descends_transfer) (auto simp: set)
  moreover have "distinct (map CID (Versions (normalizeVersions f)))"
    using assms by (intro normalizeVersions_distinct file_ok_ne)
  ultimately show ?thesis
    using assms by (auto simp: file_ok_def set)
qed

lemma catalog_ok_normalize: "catalog_ok c \<Longrightarrow> catalog_ok (normalize c)"
  by (auto simp: catalog_ok_def normalize_def file_ok_normalizeVersions comp_def)

section \<open>Normalising twice\<close>

lemma child_less_relabel [simp]: "child_less (relabel l a) (relabel l b) = child_less a b"
  by (simp add: child_less_def)

lemma child_less_total: "\<not> child_less a b \<Longrightarrow> \<not> child_less b a \<Longrightarrow> CID a = CID b"
  by (auto simp: child_less_def split: if_splits)

lemma version_less_total: "\<not> version_less a b \<Longrightarrow> \<not> version_less b a \<Longrightarrow> CID a = CID b"
proof -
  let ?c = "\<lambda>a b. compareVersionLabels (VersionLabel a) (VersionLabel b)"
  assume no: "\<not> version_less a b" "\<not> version_less b a"
  then have "\<not> ?c a b < 0" "\<not> ?c b a < 0"
    by (auto simp: version_less_def Let_def)
  then have "?c a b = 0" "?c b a = 0"
    using compareVersionLabels_sym by (metis linorder_neqE_linordered_idom)+
  with no show ?thesis by (auto simp: version_less_def Let_def split: if_splits)
qed

lemma distinct_CID_eq: "distinct (map CID vs) \<Longrightarrow> a \<in> set vs \<Longrightarrow> b \<in> set vs \<Longrightarrow> CID a = CID b \<Longrightarrow> a = b"
  by (simp add: distinct_map inj_on_def)

lemma children_relabel:
  assumes "mset ws = mset (map (relabel l) vs)" "distinct (map CID vs)"
  shows "children ws c = map (relabel l) (children vs c)"
proof -
  let ?P = "\<lambda>v. c \<noteq> [] \<and> TrimSpace (PreviousCID v) = c"
  have "distinct (map CID ws)"
    using assms mset_eq_imp_distinct_iff [of "map CID ws" "map CID (map (relabel l) vs)"]
    by (simp add: comp_def image_mset.compositionality)
  then have "sort_by child_less (filter ?P ws) = sort_by child_less (filter ?P (map (relabel l) vs))"
    using assms(1)
    by (intro child_order.sort_by_unique)
      (auto simp: mset_filter intro: distinct_CID_eq child_less_total)
  then show ?thesis by (simp add: children_def filter_map comp_def sort_by_map)
qed

lemma cid_path_relabel:
  assumes "mset ws = mset (map (relabel l) vs)" "distinct (map CID vs)" "cid_path vs root c ps"
  shows "cid_path ws root c ps"
  using assms(3)
proof (induction rule: cid_path.induct)
  case (child c g ps k)
  then show ?case
    using cid_path.child [of ws root c g ps k] by (simp add: children_relabel [OF assms(1,2)])
qed (rule cid_path.root)

lemma normalizeFields_filled:
  "TrimSpace (SourceName (normalizeFields f u)) \<noteq> [] \<or> SourceName (normalizeFields f u) = DisplayName f"
  "Kind (normalizeFields f u) \<noteq> []"
  "SizeMB (normalizeFields f u) \<noteq> [] \<or> SizeMB (normalizeFields f u) = formatSizeMB (SizeBytes u)"
  by (simp_all add: normalizeFields_def Let_def)

lemma normalizeFields_fixed:
  assumes "VRootCID w = RootCID f" "TrimSpace (SourceName w) \<noteq> [] \<or> SourceName w = DisplayName f"
    and "Kind w \<noteq> []" "SizeMB w \<noteq> [] \<or> SizeMB w = formatSizeMB (SizeBytes w)"
  shows "normalizeFields f w = w"
  using assms unfolding normalizeFields_def Let_def
  by (intro CatalogVersion.equality) simp_all

lemma normalizeFields_idem:
  "normalizeFields (normalizeVersions f) (relabel l (normalizeFields f u)) = relabel l (normalizeFields f u)"
  using normalizeFields_filled [of f u] by (intro normalizeFields_fixed) simp_all

lemma normalizedVersions_fixed:
  "normalizedVersions (normalizeVersions f) = Versions (normalizeVersions f)"
  unfolding normalizedVersions_def
proof (rule map_idI)
  fix v assume "v \<in> set (Versions (normalizeVersions f))"
  then show "normalizeFields (normalizeVersions f) v = v"
    by (rule normalizeVersions_elem) (simp add: normalizeFields_idem)
qed

lemma length_normalizeVersions:
  "distinct (map CID (Versions f)) \<Longrightarrow> length (Versions (normalizeVersions f)) = length (Versions f)"
  using mset_normalizeVersions [THEN mset_eq_length] by simp

lemma versionLabels_stable:
  assumes ok: "file_ok f" and small: "in_int64 (int (length (Versions f)) + 1)"
  shows "versionLabels (normalizeVersions f) = versionLabels f"
proof
  fix c
  have d: "distinct (map CID (Versions f))" using ok by (simp add: file_ok_def)
  show "versionLabels (normalizeVersions f) c = versionLabels f c"
  proof (cases "c \<in> CID ` set (Versions f)")
    case True
    then have "descends (Versions f) (RootCID f) c"
      using ok by (auto simp: file_ok_def)
    then have "descends (normalizedVersions f) (RootCID f) c"
      by (rule descends_transfer) (auto simp: normalizedVersions_def)
    then obtain ps where ps: "cid_path (normalizedVersions f) (RootCID f) c ps"
      using descends_path by blast
    have "cid_path (Versions (normalizeVersions f)) (RootCID f) c ps"
      using cid_path_relabel [OF mset_normalizeVersions [OF d] _ ps] d by simp
    then have "versionLabels (normalizeVersions f) c = Some (formatVersionLabel ps)"
      using versionLabels_path(1) [OF file_ok_normalizeVersions [OF ok]] small
      by (simp add: length_normalizeVersions [OF d] normalizedVersions_fixed)
    then show ?thesis using versionLabels_path(1) [OF ok small ps] by simp
  next
    case False
    then show ?thesis
      using versionLabels_dom [of f] versionLabels_dom [of "normalizeVersions f"]
      by (metis domIff normalizeVersions_cids)
  qed
qed

lemma relabel_twice [simp]: "relabel l (relabel l v) = relabel l v"
  by (simp add: relabel_def)

lemma relabel_fixed:
  "v \<in> set (Versions (normalizeVersions f)) \<Longrightarrow> relabel (versionLabels f) v = v"
  by (erule normalizeVersions_elem) simp

lemma normalizeVersions_fixed:
  assumes ok: "file_ok f" and small: "in_int64 (int (length (Versions f)) + 1)"
  shows "normalizeVersions (normalizeVersions f) = normalizeVersions f"
proof -
  let ?f = "normalizeVersions f"
  have d: "distinct (map CID (Versions ?f))"
    using ok by (intro normalizeVersions_distinct file_ok_ne)
  have "mset (Versions (normalizeVersions ?f)) = mset (map (relabel (versionLabels f)) (Versions ?f))"
    using mset_normalizeVersions [OF d] versionLabels_stable [OF assms]
    by (simp add: normalizedVersions_fixed)
  also have "map (relabel (versionLabels f)) (Versions ?f) = Versions ?f"
    by (rule map_idI) (rule relabel_fixed)
  finally have same: "mset (Versions (normalizeVersions ?f)) = mset (Versions ?f)" .
  have "Versions (normalizeVersions ?f) = Versions ?f"
  proof (rule version_order.sorted_unique [OF same normalizeVersions_sorted normalizeVersions_sorted])
    fix a b
    assume "a \<in> set (Versions (normalizeVersions ?f))" "b \<in> set (Versions (normalizeVersions ?f))"
      and "\<not> version_less a b" "\<not> version_less b a"
    then show "a = b"
      using version_less_total distinct_CID_eq [OF d] mset_eq_setD [OF same] by blast
  qed
  then show ?thesis by (intro CatalogFile.equality) simp_all
qed

lemma normalize_fixed:
  assumes "catalog_ok c" "\<forall>f\<in>set (Files c). in_int64 (int (length (Versions f)) + 1)"
  shows "normalize (normalize c) = normalize c"
proof -
  have "map normalizeVersions (Files (normalize c)) = Files (normalize c)"
    using assms by (intro map_idI) (auto simp: normalize_def catalog_ok_def normalizeVersions_fixed)
  then show ?thesis
    by (simp add: normalize_def file_order.sort_by_idem)
qed

end
