(* ===== verification/CatalogRecord.thy ===== *)
theory CatalogRecord
  imports CatalogInv
begin

text \<open>
  Recording in the catalog: what \<open>upsertInitialVersion\<close> and \<open>appendPatchVersion\<close> return on
  a catalog in order, that they keep the invariant, and what a save leaves on disk.
\<close>

section \<open>Searching a catalog\<close>

lemma findVersionIndex_Some:
  "findVersionIndex vs c = Some i \<Longrightarrow> i < length vs \<and> CID (vs ! i) = c"
  unfolding findVersionIndex_def using find_index_Some by blast

lemma findVersionIndex_None: "findVersionIndex vs c = None \<longleftrightarrow> c \<notin> CID ` set vs"
  unfolding findVersionIndex_def find_index_None by auto

lemma findFileIndexByRoot_Some:
  "findFileIndexByRoot c root = Some i \<Longrightarrow> i < length (Files c) \<and> RootCID (Files c ! i) = root"
  unfolding findFileIndexByRoot_def using find_index_Some by blast

lemma findFileIndexByRoot_None:
  "findFileIndexByRoot c root = None \<longleftrightarrow> root \<notin> RootCID ` set (Files c)"
  unfolding findFileIndexByRoot_def find_index_None by auto

lemma findLocation_Some:
  "findLocation fs c = Some (i, j) \<Longrightarrow>
   i < length fs \<and> j < length (Versions (fs ! i)) \<and> CID (Versions (fs ! i) ! j) = c"
proof (induction fs arbitrary: i)
  case (Cons f fs)
  then show ?case
    by (cases i) (auto dest!: findVersionIndex_Some split: option.splits)
qed simp

lemma findLocation_None:
  "findLocation fs c = None \<longleftrightarrow> (\<forall>f\<in>set fs. c \<notin> CID ` set (Versions f))"
  by (induction fs) (auto simp: findVersionIndex_None split: option.splits dest!: findVersionIndex_Some)

lemma pickRoot_Ok:
  assumes "f \<in> set (Files c)" "distinct (map RootCID (Files c))" "root \<in> CID ` set (Versions f)"
    and "RootCID f = root"
  obtains j where "pickRoot c root = Ok (c, f, Versions f ! j)" "j < length (Versions f)"
    "CID (Versions f ! j) = root"
proof -
  obtain i where i: "findFileIndexByRoot c root = Some i"
    using findFileIndexByRoot_None [of c root] assms by (cases "findFileIndexByRoot c root") auto
  note i' = findFileIndexByRoot_Some [OF i]
  have f: "Files c ! i = f"
    using assms i' by (simp add: distinct_map inj_on_def)
  obtain j where j: "findVersionIndex (Versions f) root = Some j"
    using findVersionIndex_None assms(3) by (cases "findVersionIndex (Versions f) root") auto
  show ?thesis
    using that [of j] i j f findVersionIndex_Some [OF j] by (simp add: pickRoot_def)
qed

lemma set_Files_normalize: "set (Files (normalize c)) = normalizeVersions ` set (Files c)"
  by (simp add: normalize_def)

lemma map_RootCID_normalize: "mset (map RootCID (Files (normalize c))) = mset (map RootCID (Files c))"
  by (simp add: normalize_def image_mset.compositionality comp_def)

lemma distinct_RootCID_normalize [simp]:
  "distinct (map RootCID (Files (normalize c))) = distinct (map RootCID (Files c))"
  using map_RootCID_normalize by (rule mset_eq_imp_distinct_iff)

section \<open>Adding one version\<close>

lemma file_ok_single:
  "plain_cid root \<Longrightarrow> CID v = root \<Longrightarrow> PreviousCID v = [] \<Longrightarrow> RootCID f = root \<Longrightarrow> Versions f = [v] \<Longrightarrow>
   file_ok f"
  by (auto simp: file_ok_def TrimSpace_def TrimLeftSpace_def TrimRightSpace_def intro: descends.root)

lemma file_ok_root_mem: "file_ok f \<Longrightarrow> RootCID f \<in> CID ` set (Versions f)"
  by (auto simp: file_ok_def) (metis image_eqI)

lemma file_ok_append:
  assumes "file_ok f" "plain_cid (CID v)" "CID v \<notin> CID ` set (Versions f)"
    and "PreviousCID v \<in> CID ` set (Versions f)"
  shows "file_ok (f\<lparr>Versions := Versions f @ [v]\<rparr>)"
proof -
  have old: "descends (Versions f @ [v]) (RootCID f) c" if "descends (Versions f) (RootCID f) c" for c
    using that by (rule descends_transfer) auto
  from assms(1,4) have prev: "plain_cid (PreviousCID v)" "descends (Versions f) (RootCID f) (PreviousCID v)"
    by (auto simp: file_ok_def)
  have "descends (Versions f @ [v]) (RootCID f) (CID v)"
    using descends.child [OF old [OF prev(2)], of v] prev(1) by (simp add: plain_cid_def)
  with assms old show ?thesis by (auto simp: file_ok_def)
qed

lemma catalog_ok_update:
  assumes "catalog_ok c" "i < length (Files c)" "file_ok f" "RootCID f = RootCID (Files c ! i)"
  shows "catalog_ok (c\<lparr>Files := (Files c)[i := f]\<rparr>)"
proof -
  have "map RootCID ((Files c)[i := f]) = map RootCID (Files c)"
    using assms(2,4) by (simp add: map_update list_update_same_conv)
  moreover have "set ((Files c)[i := f]) \<subseteq> insert f (set (Files c))"
    by (rule set_update_subset_insert)
  ultimately show ?thesis using assms by (auto simp: catalog_ok_def)
qed

lemma root_label:
  assumes "file_ok f" "v \<in> set (Versions (normalizeVersions f))" "CID v = RootCID f"
  shows "VersionLabel v = ''v1''"
proof -
  let ?vs = "normalizedVersions f" and ?r = "rootIndexOf f"
  note r = file_ok_rootIndex [OF assms(1)]
  let ?todo = "childCalls (childIndices ?vs (RootCID f)) ''v1''"
  have ok: "walk_ok ?vs (visit ?vs ?r ''v1'' emptyWalk)"
    using r by (intro walk_ok_visit walk_ok_empty) (simp_all add: emptyWalk_def)
  have "walkTree ?vs [(?r, ''v1'')] emptyWalk = walkTree ?vs ?todo (visit ?vs ?r ''v1'' emptyWalk)"
    using r by (simp add: walkTree.simps(2) [of ?vs] emptyWalk_def)
  then have "labelByCID (walkTree ?vs [(?r, ''v1'')] emptyWalk) (RootCID f) = Some ''v1''"
    using walkTree_mono(2) [OF _ ok, of "RootCID f"] r by simp
  then have "versionLabels f (RootCID f) = Some ''v1''"
    using orphanLoop_label_mono [OF walk_ok_walkTree [OF walk_ok_empty]]
    by (simp add: versionLabels_def walkAll_eq Let_def)
  with assms(2,3) show ?thesis
    by (elim normalizeVersions_elem) (simp add: relabel_def)
qed

section \<open>Recording an initial version\<close>

lemma fillFile_keeps [simp]:
  "RootCID (fillFile s e u f) = RootCID f" "Versions (fillFile s e u f) = Versions f"
  by (simp_all add: fillFile_def Let_def)

lemma file_ok_cong: "RootCID f = RootCID g \<Longrightarrow> Versions f = Versions g \<Longrightarrow> file_ok f = file_ok g"
  by (simp add: file_ok_def)

text \<open>The catalog an initial version is picked from, before it is normalised.\<close>

lemma upsert_catalog:
  assumes "catalog_ok c" "plain_cid root"
  obtains c' f where "catalog_ok c'" "f \<in> set (Files c')" "RootCID f = root"
    "upsertInitialVersion c root sourcePath displayName sizeBytes minerIndex uploadedAt
      = pickRoot (normalize c') root"
    "RootCID ` set (Files c') = insert root (RootCID ` set (Files c))"
    "\<And>g. g \<in> set (Files c) \<Longrightarrow>
      \<exists>g'\<in>set (Files c'). RootCID g' = RootCID g \<and> CID ` set (Versions g') = CID ` set (Versions g)"
    "\<And>g. g \<in> set (Files c') \<Longrightarrow>
      length (Versions g) = 1 \<or> length (Versions g) \<in> (length \<circ> Versions) ` set (Files c)"
proof (cases "findFileIndexByRoot c root")
  case None
  define s where "s = deriveSourceName sourcePath displayName root"
  define f where "f = \<lparr>RootCID = root, DisplayName = s, Extension = ToLower (Ext s),
     CreatedAt = uploadedAt, Versions = [initialVersion root s sizeBytes minerIndex uploadedAt]\<rparr>"
  have "file_ok f"
    using assms(2) by (rule file_ok_single) (simp_all add: f_def initialVersion_def)
  moreover have "root \<notin> RootCID ` set (Files c)"
    using None by (simp add: findFileIndexByRoot_None)
  ultimately have "catalog_ok (c\<lparr>Files := Files c @ [f]\<rparr>)"
    using assms(1) by (auto simp: catalog_ok_def f_def)
  then show ?thesis
    by (rule that [of _ f]) (use None in \<open>auto simp: upsertInitialVersion_def Let_def f_def s_def\<close>)
next
  case (Some i)
  note i = findFileIndexByRoot_Some [OF Some]
  define s where "s = deriveSourceName sourcePath displayName root"
  define f where "f = fillFile s (ToLower (Ext s)) uploadedAt (Files c ! i)"
  have ok: "file_ok (Files c ! i)" using assms(1) i by (simp add: catalog_ok_def)
  have "\<exists>j. findVersionIndex (Versions (Files c ! i)) root = Some j"
    using findVersionIndex_None [of "Versions (Files c ! i)" root] i
      file_ok_root_mem [OF ok]
    by (cases "findVersionIndex (Versions (Files c ! i)) root") auto
  then have eq: "upsertInitialVersion c root sourcePath displayName sizeBytes minerIndex uploadedAt
      = pickRoot (normalize (c\<lparr>Files := (Files c)[i := f]\<rparr>)) root"
    using Some by (auto simp: upsertInitialVersion_def Let_def f_def s_def)
  have "file_ok f" using ok file_ok_cong [of f "Files c ! i"] by (simp add: f_def)
  then have "catalog_ok (c\<lparr>Files := (Files c)[i := f]\<rparr>)"
    using assms(1) i by (intro catalog_ok_update) (simp_all add: f_def)
  moreover have "f \<in> set ((Files c)[i := f])" using i by (simp add: set_update_memI)
  moreover have "map RootCID ((Files c)[i := f]) = map RootCID (Files c)"
    using i by (simp add: map_update list_update_same_conv f_def)
  then have "RootCID ` set ((Files c)[i := f]) = RootCID ` set (Files c)" by (metis list.set_map)
  moreover have "\<exists>g'\<in>set ((Files c)[i := f]). RootCID g' = RootCID g \<and>
      CID ` set (Versions g') = CID ` set (Versions g)" if "g \<in> set (Files c)" for g
  proof -
    obtain k where k: "k < length (Files c)" "Files c ! k = g"
      using \<open>g \<in> set (Files c)\<close> by (auto simp: in_set_conv_nth)
    have "(Files c)[i := f] ! k \<in> set ((Files c)[i := f])" using k by simp
    moreover have "RootCID ((Files c)[i := f] ! k) = RootCID g"
      "CID ` set (Versions ((Files c)[i := f] ! k)) = CID ` set (Versions g)"
      using k i by (auto simp: nth_list_update f_def)
    ultimately show ?thesis by blast
  qed
  moreover have "length (Versions g) \<in> (length \<circ> Versions) ` set (Files c)"
    if "g \<in> set ((Files c)[i := f])" for g
    using that set_update_subset_insert [of "Files c" i f] i by (auto simp: f_def)
  ultimately show ?thesis
    using that [of "c\<lparr>Files := (Files c)[i := f]\<rparr>" f] eq i by (auto simp: f_def)
qed

section \<open>Recording a patch\<close>

lemma appendPatch_missing:
  "\<forall>f\<in>set (Files c). previousCID \<notin> CID ` set (Versions f) \<Longrightarrow>
   appendPatchVersion c cid previousCID sourcePath displayName sizeBytes minerIndex uploadedAt
     = Err (PreviousMissing previousCID)"
  by (simp add: appendPatchVersion_def findVersionLocation_def findLocation_None [THEN iffD2])

text \<open>A patch of a new CID: the version it adds, and the catalog before it is normalised.\<close>

definition patchVersion ::
  "CatalogFile \<Rightarrow> string \<Rightarrow> string \<Rightarrow> string \<Rightarrow> string \<Rightarrow> int \<Rightarrow> string \<Rightarrow> string \<Rightarrow> CatalogVersion" where
  "patchVersion file cid previousCID sourcePath displayName sizeBytes minerIndex uploadedAt =
     \<lparr>CID = cid, VRootCID = RootCID file, VersionLabel = [], PreviousCID = previousCID,
      PreviousVersionLabel = [], MinerIndex = minerIndex,
      SourceName = deriveSourceName sourcePath displayName cid, SizeBytes = sizeBytes,
      SizeMB = formatSizeMB sizeBytes, UploadedAt = uploadedAt, Kind = ''patch''\<rparr>"

definition patchFile ::
  "CatalogFile \<Rightarrow> string \<Rightarrow> string \<Rightarrow> string \<Rightarrow> string \<Rightarrow> int \<Rightarrow> string \<Rightarrow> string \<Rightarrow> CatalogFile" where
  "patchFile file cid previousCID sourcePath displayName sizeBytes minerIndex uploadedAt =
     file\<lparr>Versions := Versions file @
       [patchVersion file cid previousCID sourcePath displayName sizeBytes minerIndex uploadedAt]\<rparr>"

lemma patchVersion_simps [simp]:
  "CID (patchVersion f c p s d z m u) = c" "PreviousCID (patchVersion f c p s d z m u) = p"
  by (simp_all add: patchVersion_def)

lemma patchFile_simps [simp]:
  "RootCID (patchFile f c p s d z m u) = RootCID f"
  "Versions (patchFile f c p s d z m u) = Versions f @ [patchVersion f c p s d z m u]"
  by (simp_all add: patchFile_def)

lemma appendPatch_new:
  assumes "findVersionLocation c p = Some (i, j)" "cid \<notin> CID ` set (Versions (Files c ! i))"
  shows "appendPatchVersion c cid p s d z m u =
    (let c' = normalize (c\<lparr>Files := (Files c)[i := patchFile (Files c ! i) cid p s d z m u]\<rparr>)
     in case findVersionLocation c' cid of
          None \<Rightarrow> Err (NotFoundAfterNormalize cid)
        | Some (a, b) \<Rightarrow> Ok (c', Files c' ! a, Versions (Files c' ! a) ! b))"
proof -
  have "CID (Versions (Files c ! i) ! j) = p"
    using findLocation_Some assms(1) by (simp add: findVersionLocation_def)
  moreover have "findVersionIndex (Versions (Files c ! i)) cid = None"
    using assms(2) by (simp add: findVersionIndex_None)
  ultimately show ?thesis
    using assms(1)
    by (simp add: appendPatchVersion_def Let_def patchFile_def patchVersion_def split: option.split)
qed

lemma patchFile_ok:
  assumes "catalog_ok c" "findVersionLocation c p = Some (i, j)" "plain_cid cid"
    and "cid \<notin> CID ` set (Versions (Files c ! i))"
  shows "i < length (Files c)" "file_ok (patchFile (Files c ! i) cid p s d z m u)"
    "catalog_ok (c\<lparr>Files := (Files c)[i := patchFile (Files c ! i) cid p s d z m u]\<rparr>)"
proof -
  have i: "i < length (Files c)" "j < length (Versions (Files c ! i))"
    "CID (Versions (Files c ! i) ! j) = p"
    using findLocation_Some assms(2) by (simp_all add: findVersionLocation_def)
  then show "i < length (Files c)" by simp
  have "p \<in> CID ` set (Versions (Files c ! i))" using i by (metis image_eqI nth_mem)
  moreover have "file_ok (Files c ! i)" using assms(1) i(1) by (simp add: catalog_ok_def)
  ultimately show ok: "file_ok (patchFile (Files c ! i) cid p s d z m u)"
    unfolding patchFile_def using assms(3,4) by (intro file_ok_append) simp_all
  show "catalog_ok (c\<lparr>Files := (Files c)[i := patchFile (Files c ! i) cid p s d z m u]\<rparr>)"
    using assms(1) i(1) ok by (intro catalog_ok_update) simp_all
qed

text \<open>The label of a version one step below another, from the paths of the two.\<close>

definition label_generation :: "string \<Rightarrow> int option" where
  "label_generation l = (case parseVersionLabel l of Some (g # _) \<Rightarrow> Some g | _ \<Rightarrow> None)"

lemma label_generation_format:
  assumes "path_within n n (g # ps)" "in_int64 (int n + 1)"
  shows "label_generation (formatVersionLabel (g # ps)) = Some g"
proof -
  have "\<forall>p\<in>set (g # ps). in_int64 p"
    using assms by (force simp: path_within_def in_int64_def)
  then show ?thesis by (simp add: label_generation_def parse_format_label)
qed

lemma file_ok_path:
  assumes "file_ok f" "c \<in> CID ` set (Versions f)"
  obtains g ps where "cid_path (normalizedVersions f) (RootCID f) c (g # ps)"
proof -
  have "descends (Versions f) (RootCID f) c" using assms by (auto simp: file_ok_def)
  then have "descends (normalizedVersions f) (RootCID f) c"
    by (rule descends_transfer) (auto simp: normalizedVersions_def)
  then show ?thesis using descends_path that by blast
qed

lemma generation_step:
  assumes ok: "file_ok f" and small: "in_int64 (int (length (Versions f)) + 1)"
    and v: "v \<in> set (Versions (normalizeVersions f))" and u: "u \<in> set (Versions (normalizeVersions f))"
    and prev: "TrimSpace (PreviousCID v) = CID u"
  shows "\<exists>g. label_generation (VersionLabel u) = Some g \<and> label_generation (VersionLabel v) = Some (g + 1)"
proof -
  let ?vs = "normalizedVersions f"
  have "CID u \<in> CID ` set (Versions f)"
    using u normalizeVersions_cids [of f] by (metis image_eqI)
  then obtain g ps where gu: "cid_path ?vs (RootCID f) (CID u) (g # ps)"
    using file_ok_path [OF ok] by blast
  have "CID u \<noteq> []" using ok \<open>CID u \<in> _\<close> by (auto simp: file_ok_def plain_cid_def)
  from v obtain w where w: "w \<in> set (Versions f)" "v = relabel (versionLabels f) (normalizeFields f w)"
    by (rule normalizeVersions_elem)
  with prev \<open>CID u \<noteq> []\<close> have "normalizeFields f w \<in> set (children ?vs (CID u))"
    by (simp add: set_children normalizedVersions_def)
  then obtain k where k: "k < length (children ?vs (CID u))" "children ?vs (CID u) ! k = normalizeFields f w"
    by (auto simp: in_set_conv_nth)
  let ?ps = "ps @ (if k = 0 then [] else [int k])"
  have gv: "cid_path ?vs (RootCID f) (CID v) ((g + 1) # ?ps)"
    using cid_path.child [OF gu k(1)] k(2) w(2) by simp
  have label: "VersionLabel x = formatVersionLabel q"
    if "x \<in> set (Versions (normalizeVersions f))" "cid_path ?vs (RootCID f) (CID x) q" for x q
    using that(1) versionLabels_path(1) [OF ok small that(2)]
    by (elim normalizeVersions_elem) (simp add: relabel_def)
  show ?thesis
    using label [OF u gu] label [OF v gv] label_generation_format small
      versionLabels_path(2) [OF ok small gu] versionLabels_path(2) [OF ok small gv] by simp
qed

end
