(* ===== verification/CatalogProps.thy ===== *)
theory CatalogProps
  imports CatalogRecord
begin

text \<open>
  The properties of the catalog: the labels of a version tree, recording versions, and the
  file on disk.
\<close>

section \<open>Saving and loading\<close>

lemma os_MkdirAll_Ok: "os_MkdirAll w p = Ok w' \<Longrightarrow> w' = w\<lparr>dirs := (dirs w)(p := True)\<rparr>"
  by (auto simp: os_MkdirAll_def split: if_splits)

lemma saveCatalog_failed:
  assumes "saveCatalogLocked marshal repoRoot c w = (w', Some e)"
    and "q \<noteq> catalogPath repoRoot @ ''.tmp''"
  shows "content w' q = content w q"
  using assms
  by (auto simp: saveCatalogLocked_def Let_def split: outcome.splits option.splits prod.splits
        replace_error.splits dest!: os_MkdirAll_Ok dest: replace_file_Err)

lemma saveCatalog_read_fails:
  "read_fails (fst (saveCatalogLocked marshal repoRoot c w)) = read_fails w"
proof (cases "os_MkdirAll w (Dir (catalogPath repoRoot))")
  case (Ok w1)
  then have w1: "read_fails w1 = read_fails w" by (auto dest: os_MkdirAll_Ok)
  show ?thesis
  proof (cases "marshal (normalize c)")
    case (Some data)
    obtain w2 e where "replace_file w1 (catalogPath repoRoot) (data @ [CHR 0x0A]) = (w2, e)"
      by fastforce
    with replace_file_frame(3) [of w1 "catalogPath repoRoot" "data @ [CHR 0x0A]"] Ok Some w1 show ?thesis
      by (auto simp: saveCatalogLocked_def Let_def split: option.split replace_error.split)
  qed (use Ok w1 in \<open>simp add: saveCatalogLocked_def\<close>)
qed (simp_all add: saveCatalogLocked_def)

lemma saveCatalog_done:
  assumes "saveCatalogLocked marshal repoRoot c w = (w', None)"
  obtains data where "marshal (normalize c) = Some data"
    "content w' (catalogPath repoRoot) = Some (data @ [CHR 0x0A])" "read_fails w' = read_fails w"
    "\<And>q. q \<noteq> catalogPath repoRoot \<Longrightarrow> q \<noteq> catalogPath repoRoot @ ''.tmp'' \<Longrightarrow> content w' q = content w q"
proof -
  obtain w1 data where w1: "os_MkdirAll w (Dir (catalogPath repoRoot)) = Ok w1"
    and data: "marshal (normalize c) = Some data"
    and r: "replace_file w1 (catalogPath repoRoot) (data @ [CHR 0x0A]) = (w', None)"
    using assms
    by (auto simp: saveCatalogLocked_def Let_def split: outcome.splits option.splits prod.splits
        replace_error.splits)
  from w1 have "content w1 = content w" "read_fails w1 = read_fails w"
    by (auto dest: os_MkdirAll_Ok)
  with replace_file_Ok [OF r] data show ?thesis by (intro that) auto
qed

text \<open>
  \<open>encoding/json\<close> reads back a catalog it has written, with the newline the saver adds.
\<close>

definition json_roundtrips ::
  "(Catalog \<Rightarrow> string option) \<Rightarrow> (string \<Rightarrow> Catalog option) \<Rightarrow> Catalog \<Rightarrow> bool" where
  "json_roundtrips marshal unmarshal c =
     (case marshal c of None \<Rightarrow> True | Some data \<Rightarrow> unmarshal (data @ [CHR 0x0A]) = Some c)"

text \<open>No file has so many versions that a generation number overflows.\<close>

definition catalog_small :: "Catalog \<Rightarrow> bool" where
  "catalog_small c \<longleftrightarrow> (\<forall>f\<in>set (Files c). in_int64 (int (length (Versions f)) + 2))"

lemma load_after_save:
  assumes "saveCatalogLocked marshal repoRoot c w = (w', None)"
    and "json_roundtrips marshal unmarshal c" "normalize c = c"
    and "\<not> read_fails w (catalogPath repoRoot)"
  shows "loadCatalogLocked unmarshal repoRoot w' = Ok c"
proof -
  obtain data where "marshal (normalize c) = Some data"
    "content w' (catalogPath repoRoot) = Some (data @ [CHR 0x0A])" "read_fails w' = read_fails w"
    using assms(1) by (rule saveCatalog_done)
  with assms(2-4) show ?thesis
    by (simp add: loadCatalogLocked_def os_ReadFile_def json_roundtrips_def)
qed

lemma saveRecorded_read:
  assumes "saveRecorded marshal repoRoot w (Ok (c, f, v)) = (w', Ok (f', v'))"
    and "json_roundtrips marshal unmarshal c" "normalize c = c"
    and "\<not> read_fails w (catalogPath repoRoot)"
  shows "f' = f \<and> v' = v \<and> readCatalog unmarshal repoRoot w' = Ok c"
proof -
  from assms(1) have "saveCatalogLocked marshal repoRoot c w = (w', None)" "f' = f" "v' = v"
    by (auto simp: saveRecorded_def split: prod.splits option.splits)
  then show ?thesis
    using load_after_save assms(2-4) by (simp add: readCatalog_def)
qed

lemma normalize_fixed_small:
  assumes "catalog_ok c" "\<forall>f\<in>set (Files c). in_int64 (int (length (Versions f)) + 1)"
    and "c' = normalize c"
  shows "normalize c' = c'"
  using normalize_fixed assms by simp

section \<open>Outcomes of the two recording operations\<close>

lemma upsert_outcome:
  assumes "catalog_ok c" "plain_cid root"
  obtains c' f v where
    "upsertInitialVersion c root sourcePath displayName sizeBytes minerIndex uploadedAt = Ok (c', f, v)"
    "catalog_ok c'" "f \<in> set (Files c')" "RootCID f = root" "v \<in> set (Versions f)" "CID v = root"
    "VersionLabel v = ''v1''"
    "RootCID ` set (Files c') = insert root (RootCID ` set (Files c))"
    "\<And>g. g \<in> set (Files c) \<Longrightarrow>
      \<exists>g'\<in>set (Files c'). RootCID g' = RootCID g \<and> CID ` set (Versions g') = CID ` set (Versions g)"
    "catalog_small c \<Longrightarrow> normalize c' = c'"
proof -
  obtain c0 f0 where c0: "catalog_ok c0" "f0 \<in> set (Files c0)" "RootCID f0 = root"
    "upsertInitialVersion c root sourcePath displayName sizeBytes minerIndex uploadedAt
      = pickRoot (normalize c0) root"
    "RootCID ` set (Files c0) = insert root (RootCID ` set (Files c))"
    and kept: "\<And>g. g \<in> set (Files c) \<Longrightarrow>
      \<exists>g'\<in>set (Files c0). RootCID g' = RootCID g \<and> CID ` set (Versions g') = CID ` set (Versions g)"
    and len: "\<And>g. g \<in> set (Files c0) \<Longrightarrow>
      length (Versions g) = 1 \<or> length (Versions g) \<in> (length \<circ> Versions) ` set (Files c)"
    using assms by (rule upsert_catalog) blast
  let ?f = "normalizeVersions f0"
  have f: "?f \<in> set (Files (normalize c0))" using c0(2) by (simp add: set_Files_normalize)
  have ok: "file_ok f0" using c0(1,2) by (simp add: catalog_ok_def)
  have "root \<in> CID ` set (Versions ?f)"
    using file_ok_root_mem [OF ok] c0(3) by (simp add: normalizeVersions_cids)
  then obtain j where j: "pickRoot (normalize c0) root = Ok (normalize c0, ?f, Versions ?f ! j)"
    "j < length (Versions ?f)" "CID (Versions ?f ! j) = root"
    using pickRoot_Ok [OF f] c0(1,3) by (auto simp: catalog_ok_def)
  show ?thesis
  proof (rule that [of "normalize c0" ?f "Versions ?f ! j"])
    show "VersionLabel (Versions ?f ! j) = ''v1''"
      using root_label [OF ok] j c0(3) by simp
    show "RootCID ` set (Files (normalize c0)) = insert root (RootCID ` set (Files c))"
      using c0(5) by (simp add: set_Files_normalize image_image)
    show "\<exists>g'\<in>set (Files (normalize c0)). RootCID g' = RootCID g \<and>
        CID ` set (Versions g') = CID ` set (Versions g)" if "g \<in> set (Files c)" for g
      using kept [OF that] by (simp add: set_Files_normalize normalizeVersions_cids)
    show "normalize (normalize c0) = normalize c0" if "catalog_small c"
    proof (rule normalize_fixed [OF c0(1)])
      show "\<forall>f\<in>set (Files c0). in_int64 (int (length (Versions f)) + 1)"
        using that len by (fastforce simp: catalog_small_def in_int64_def)
    qed
  qed (use c0 j f catalog_ok_normalize in simp_all)
qed

lemma findVersionLocation_unique:
  assumes "f \<in> set (Files c)" "cid \<in> CID ` set (Versions f)"
    and "\<And>g. g \<in> set (Files c) \<Longrightarrow> cid \<in> CID ` set (Versions g) \<Longrightarrow> g = f"
  obtains i j where "findVersionLocation c cid = Some (i, j)" "Files c ! i = f"
    "j < length (Versions f)" "CID (Versions f ! j) = cid"
proof -
  have "findVersionLocation c cid \<noteq> None"
    using assms(1,2) by (auto simp: findVersionLocation_def findLocation_None)
  then obtain i j where ij: "findVersionLocation c cid = Some (i, j)" by auto
  then have i: "i < length (Files c)" "j < length (Versions (Files c ! i))"
    "CID (Versions (Files c ! i) ! j) = cid"
    using findLocation_Some by (simp_all add: findVersionLocation_def)
  then have "Files c ! i = f"
    by (intro assms(3)) (simp_all, metis image_eqI nth_mem)
  with ij i show ?thesis by (intro that) simp_all
qed

lemma append_outcome:
  assumes ok: "catalog_ok c" and cid: "plain_cid cid"
    and loc: "findVersionLocation c p = Some (i, j)"
    and fresh: "\<forall>f\<in>set (Files c). cid \<notin> CID ` set (Versions f)"
  obtains c' f v where
    "appendPatchVersion c cid p sourcePath displayName sizeBytes minerIndex uploadedAt = Ok (c', f, v)"
    "catalog_ok c'" "f \<in> set (Files c')" "v \<in> set (Versions f)" "CID v = cid" "PreviousCID v = p"
    "RootCID f = RootCID (Files c ! i)"
    "CID ` set (Versions f) = insert cid (CID ` set (Versions (Files c ! i)))"
    "catalog_small c \<Longrightarrow> normalize c' = c'"
    "catalog_small c \<Longrightarrow> \<exists>u\<in>set (Versions f). \<exists>g. CID u = p \<and>
       label_generation (VersionLabel u) = Some g \<and> label_generation (VersionLabel v) = Some (g + 1)"
proof -
  have i: "i < length (Files c)" "j < length (Versions (Files c ! i))"
    "CID (Versions (Files c ! i) ! j) = p"
    using findLocation_Some loc by (simp_all add: findVersionLocation_def)
  have new: "cid \<notin> CID ` set (Versions (Files c ! i))" using fresh i(1) by simp
  let ?pf = "patchFile (Files c ! i) cid p sourcePath displayName sizeBytes minerIndex uploadedAt"
  let ?c0 = "c\<lparr>Files := (Files c)[i := ?pf]\<rparr>"
  let ?f = "normalizeVersions ?pf"
  note pf = patchFile_ok [OF ok loc cid new]
  have mem: "?pf \<in> set ((Files c)[i := ?pf])" using i(1) by (simp add: set_update_memI)
  have f: "?f \<in> set (Files (normalize ?c0))" using mem by (simp add: set_Files_normalize)
  have cids: "CID ` set (Versions ?f) = insert cid (CID ` set (Versions (Files c ! i)))"
    by (simp add: normalizeVersions_cids)
  have only: "g = ?f" if "g \<in> set (Files (normalize ?c0))" "cid \<in> CID ` set (Versions g)" for g
  proof -
    from that(1) obtain x where x: "x \<in> set ((Files c)[i := ?pf])" "g = normalizeVersions x"
      by (auto simp: set_Files_normalize)
    with that(2) have "cid \<in> CID ` set (Versions x)" by (simp add: normalizeVersions_cids)
    with x fresh show ?thesis using set_update_subset_insert [of "Files c" i ?pf] by blast
  qed
  obtain a b where ab: "findVersionLocation (normalize ?c0) cid = Some (a, b)"
    "Files (normalize ?c0) ! a = ?f" "b < length (Versions ?f)" "CID (Versions ?f ! b) = cid"
    by (rule findVersionLocation_unique [OF f _ only]) (simp_all add: cids)
  let ?v = "Versions ?f ! b"
  have v: "?v \<in> set (Versions ?f)" using ab(3) by simp
  then obtain x where x: "x \<in> set (Versions ?pf)" "?v = relabel (versionLabels ?pf) (normalizeFields ?pf x)"
    by (rule normalizeVersions_elem)
  then have "CID x = cid" using ab(4) by simp
  with x(1) new have "x = patchVersion (Files c ! i) cid p sourcePath displayName sizeBytes minerIndex uploadedAt"
    by auto
  then have prev: "PreviousCID ?v = p" using x(2) by simp
  have small: "in_int64 (int (length (Versions ?pf)) + 1)" if "catalog_small c"
    using that i(1) by (auto simp: catalog_small_def in_int64_def)
  show ?thesis
  proof (rule that [of "normalize ?c0" ?f ?v])
    show "normalize (normalize ?c0) = normalize ?c0" if sm: "catalog_small c"
    proof (rule normalize_fixed [OF pf(3)])
      show "\<forall>f\<in>set (Files ?c0). in_int64 (int (length (Versions f)) + 1)"
        using sm small [OF sm] set_update_subset_insert [of "Files c" i ?pf]
        by (fastforce simp: catalog_small_def in_int64_def)
    qed
    show "\<exists>u\<in>set (Versions ?f). \<exists>g. CID u = p \<and> label_generation (VersionLabel u) = Some g \<and>
        label_generation (VersionLabel ?v) = Some (g + 1)" if sm: "catalog_small c"
    proof -
      have "p \<in> CID ` set (Versions ?f)" using i by (simp add: cids) (metis image_eqI nth_mem)
      then obtain u where u: "u \<in> set (Versions ?f)" "CID u = p" by auto
      moreover have "TrimSpace p = p"
        using pf(2) i by (auto simp: file_ok_def plain_cid_def)
      ultimately show ?thesis
        using generation_step [OF pf(2) small [OF sm] v u(1)] prev by auto
    qed
  qed (use appendPatch_new [OF loc new] ab pf f v prev cids catalog_ok_normalize in simp_all)
qed

section \<open>Properties\<close>

text \<open>
  C1: Labelling. In a file in order, \<open>normalizeVersions\<close> gives the version at path
  \<open>ps\<close> of the predecessor tree (generation first, then the branch numbers) the label
  \<open>v\<close> followed by the numbers of \<open>ps\<close>.
\<close>

theorem normalizeVersions_labels:
  assumes "file_ok f" "in_int64 (int (length (Versions f)) + 1)"
    and "cid_path (map (normalizeFields f) (Versions f)) (RootCID f) c ps"
    and "v \<in> set (Versions (normalizeVersions f))" "CID v = c"
  shows "VersionLabel v = formatVersionLabel ps"
  using assms(4,5) versionLabels_path(1) [OF assms(1,2), of c ps] assms(3)
  by (elim normalizeVersions_elem) (simp add: relabel_def normalizedVersions_def)

text \<open>
  \<open>normalizeVersions\<close> neither loses nor duplicates a version: the CIDs are those of the
  file, each once, in the order of the labels, for every file whatever its predecessors are.
\<close>

theorem normalizeVersions_keeps_versions:
  "CID ` set (Versions (normalizeVersions f)) = CID ` set (Versions f) \<and>
   distinct (map CID (Versions (normalizeVersions f))) \<and>
   sorted_wrt (\<lambda>a b. \<not> version_less b a) (Versions (normalizeVersions f))"
proof (cases "Versions f = []")
  case True
  then show ?thesis by (simp add: normalizeVersions_def)
qed (simp add: normalizeVersions_cids normalizeVersions_distinct normalizeVersions_sorted)

text \<open>
  Recording an initial version in a catalog in order succeeds (no index of the code is
  out of range), returns the root version with label \<open>v1\<close>, keeps the catalog in order, adds
  at most the one root and changes the CIDs of no other file.
\<close>

theorem upsertInitialVersion_correct:
  assumes "catalog_ok c" "plain_cid root"
  shows "\<exists>c' f v.
     upsertInitialVersion c root sourcePath displayName sizeBytes minerIndex uploadedAt = Ok (c', f, v) \<and>
     catalog_ok c' \<and> f \<in> set (Files c') \<and> RootCID f = root \<and>
     v \<in> set (Versions f) \<and> CID v = root \<and> VersionLabel v = ''v1'' \<and>
     RootCID ` set (Files c') = insert root (RootCID ` set (Files c)) \<and>
     (\<forall>g\<in>set (Files c). \<exists>g'\<in>set (Files c').
        RootCID g' = RootCID g \<and> CID ` set (Versions g') = CID ` set (Versions g))"
  by (rule upsert_outcome [OF assms]) blast

text \<open>
  C2: Recording a patch on a version the catalog has, under a new CID, succeeds (the
  \<open>not found after normalization\<close> error is unreachable), adds exactly that CID to the file
  of the previous version, links it to that version, and labels it one generation later.
\<close>

theorem appendPatchVersion_correct:
  assumes "catalog_ok c" "catalog_small c" "plain_cid cid"
    and "findVersionLocation c previousCID = Some (i, j)"
    and "\<forall>f\<in>set (Files c). cid \<notin> CID ` set (Versions f)"
  shows "\<exists>c' f v u g.
     appendPatchVersion c cid previousCID sourcePath displayName sizeBytes minerIndex uploadedAt
       = Ok (c', f, v) \<and>
     catalog_ok c' \<and> f \<in> set (Files c') \<and> RootCID f = RootCID (Files c ! i) \<and>
     CID ` set (Versions f) = insert cid (CID ` set (Versions (Files c ! i))) \<and>
     v \<in> set (Versions f) \<and> CID v = cid \<and> PreviousCID v = previousCID \<and>
     u \<in> set (Versions f) \<and> CID u = previousCID \<and>
     label_generation (VersionLabel u) = Some g \<and> label_generation (VersionLabel v) = Some (g + 1)"
  by (rule append_outcome [OF assms(1,3,4,5)]) (use assms(2) in blast)

text \<open>
  C4: What the server answers is what it has stored: after a successful recording of an
  initial version the catalog read back from disk has the returned file and version.
\<close>

theorem recordInitialVersion_stored:
  assumes load: "readCatalog unmarshal repoRoot w = Ok c"
    and "catalog_ok c" "catalog_small c" "plain_cid root" "\<not> read_fails w (catalogPath repoRoot)"
    and up: "upsertInitialVersion c root sourcePath displayName sizeBytes minerIndex uploadedAt
      = Ok (c', f0, v0)"
    and "json_roundtrips marshal unmarshal c'"
    and rec: "recordInitialVersion marshal unmarshal repoRoot w root sourcePath displayName sizeBytes
      minerIndex uploadedAt = (w', Ok (f, v))"
  shows "readCatalog unmarshal repoRoot w' = Ok c' \<and> f \<in> set (Files c') \<and> v \<in> set (Versions f) \<and>
    CID v = root \<and> catalog_ok c'"
proof -
  have saved: "saveRecorded marshal repoRoot w (Ok (c', f0, v0)) = (w', Ok (f, v))"
    using rec load up by (simp add: recordInitialVersion_def readCatalog_def)
  have facts: "f0 \<in> set (Files c')" "v0 \<in> set (Versions f0)" "CID v0 = root" "catalog_ok c'"
    "normalize c' = c'"
    using upsert_outcome [OF assms(2,4), of sourcePath displayName sizeBytes minerIndex uploadedAt]
      up assms(3) by (metis outcome.inject(1) prod.inject)+
  then show ?thesis
    using saveRecorded_read [OF saved] assms(5,7) by simp
qed

text \<open>
  C3: The same for a patch: after a successful recording of a patch under a new CID the
  catalog read back from disk has the returned file and version, linked to the version it patches.
\<close>

theorem recordPatchVersion_stored:
  assumes load: "readCatalog unmarshal repoRoot w = Ok c"
    and "catalog_ok c" "catalog_small c" "plain_cid cid" "\<not> read_fails w (catalogPath repoRoot)"
    and "\<forall>f\<in>set (Files c). cid \<notin> CID ` set (Versions f)"
    and up: "appendPatchVersion c cid previousCID sourcePath displayName sizeBytes minerIndex uploadedAt
      = Ok (c', f0, v0)"
    and "json_roundtrips marshal unmarshal c'"
    and rec: "recordPatchVersion marshal unmarshal repoRoot w cid previousCID sourcePath displayName
      sizeBytes minerIndex uploadedAt = (w', Ok (f, v))"
  shows "readCatalog unmarshal repoRoot w' = Ok c' \<and> f \<in> set (Files c') \<and> v \<in> set (Versions f) \<and>
    CID v = cid \<and> PreviousCID v = previousCID \<and> catalog_ok c'"
proof -
  have saved: "saveRecorded marshal repoRoot w (Ok (c', f0, v0)) = (w', Ok (f, v))"
    using rec load up by (simp add: recordPatchVersion_def readCatalog_def)
  obtain i j where loc: "findVersionLocation c previousCID = Some (i, j)"
    using up by (cases "findVersionLocation c previousCID") (auto simp: appendPatchVersion_def)
  have facts: "f0 \<in> set (Files c')" "v0 \<in> set (Versions f0)" "CID v0 = cid" "PreviousCID v0 = previousCID"
    "catalog_ok c'" "normalize c' = c'"
    using append_outcome [OF assms(2,4) loc assms(6), of sourcePath displayName sizeBytes minerIndex uploadedAt]
      up assms(3) by (metis outcome.inject(1) prod.inject)+
  then show ?thesis
    using saveRecorded_read [OF saved] assms(5,8) by simp
qed

text \<open>
  A patch on a version the catalog does not have is refused with the error that names
  it, and nothing is written.
\<close>

theorem recordPatchVersion_missing:
  assumes "readCatalog unmarshal repoRoot w = Ok c"
    and "\<forall>f\<in>set (Files c). previousCID \<notin> CID ` set (Versions f)"
  shows "recordPatchVersion marshal unmarshal repoRoot w cid previousCID sourcePath displayName
      sizeBytes minerIndex uploadedAt = (w, Err (PreviousMissing previousCID))"
  using assms
  by (simp add: recordPatchVersion_def readCatalog_def appendPatch_missing saveRecorded_def)

text \<open>
  Saving is all or nothing: when a save reports an error, at whatever step, every file
  but the temporary one has the contents it had, and a catalog that was on disk is still the
  one that is read.
\<close>

theorem saveCatalog_atomic:
  assumes "saveCatalogLocked marshal repoRoot c w = (w', Some e)"
  shows "(\<forall>q. q \<noteq> catalogPath repoRoot @ ''.tmp'' \<longrightarrow> content w' q = content w q) \<and>
    (content w (catalogPath repoRoot) \<noteq> None \<longrightarrow>
       readCatalog unmarshal repoRoot w' = readCatalog unmarshal repoRoot w)"
proof -
  note kept = saveCatalog_failed [OF assms]
  have "read_fails w' = read_fails w"
    using saveCatalog_read_fails [of marshal repoRoot c w] assms by simp
  then show ?thesis
    using kept [of "catalogPath repoRoot"] kept
    by (auto simp: readCatalog_def loadCatalogLocked_def os_ReadFile_def)
qed

section \<open>A sample catalog\<close>

definition demoFile :: CatalogFile where
  "demoFile = \<lparr>RootCID = ''r'', DisplayName = ''f.txt'', Extension = ''.txt'', CreatedAt = ''t1'',
     Versions = [initialVersion ''r'' ''f.txt'' 10 ''1'' ''t1'',
       \<lparr>CID = ''a'', VRootCID = ''r'', VersionLabel = [], PreviousCID = ''r'', PreviousVersionLabel = [],
        MinerIndex = ''1'', SourceName = ''g.txt'', SizeBytes = 12, SizeMB = [], UploadedAt = ''t2'',
        Kind = ''patch''\<rparr>]\<rparr>"

definition demoCatalog :: Catalog where
  "demoCatalog = \<lparr>Files = [demoFile]\<rparr>"

lemma demo_plain: "plain_cid ''r''" "plain_cid ''a''" "plain_cid ''b''"
  by code_simp+

lemma demo_trim [simp]: "TrimSpace ''r'' = ''r''" "TrimSpace [] = []"
  by code_simp+

lemma demoFile_ok: "file_ok demoFile"
proof -
  have "descends (Versions demoFile) ''r'' ''a''"
    using descends.child [OF descends.root, of "Versions demoFile ! 1" "Versions demoFile" "''r''"]
    by (simp add: demoFile_def)
  then show ?thesis
    using demo_plain descends.root [of "Versions demoFile" "''r''"]
    by (auto simp: file_ok_def demoFile_def initialVersion_def)
qed

lemma demoCatalog_ok: "catalog_ok demoCatalog"
  by (simp add: catalog_ok_def demoCatalog_def demoFile_ok)

lemma demoCatalog_small: "catalog_small demoCatalog"
  by code_simp

lemma demo_path: "cid_path (map (normalizeFields demoFile) (Versions demoFile)) ''r'' ''a'' [2]"
proof -
  let ?vs = "map (normalizeFields demoFile) (Versions demoFile)"
  have "map CID (children ?vs ''r'') = [''a'']" by code_simp
  then have "0 < length (children ?vs ''r'')" "CID (children ?vs ''r'' ! 0) = ''a''"
    by (auto simp: map_eq_Cons_conv)
  with cid_path.child [OF cid_path.root, of 0 ?vs "''r''"] show ?thesis by simp
qed

theorem normalizeVersions_labels_witness:
  "\<exists>v\<in>set (Versions (normalizeVersions demoFile)). CID v = ''a'' \<and> VersionLabel v = formatVersionLabel [2]"
proof -
  have mem: "''a'' \<in> CID ` set (Versions (normalizeVersions demoFile))" by code_simp
  then obtain v where "v \<in> set (Versions (normalizeVersions demoFile))" "CID v = ''a''" by auto
  moreover have "in_int64 (int (length (Versions demoFile)) + 1)" "RootCID demoFile = ''r''" by code_simp+
  ultimately show ?thesis
    using normalizeVersions_labels [OF demoFile_ok, of "''a''" "[2]" v] demo_path by auto
qed

theorem upsertInitialVersion_correct_witness:
  "\<exists>c' f v. upsertInitialVersion demoCatalog ''b'' ''x.bin'' [] 5 ''1'' ''t3'' = Ok (c', f, v) \<and>
     CID v = ''b'' \<and> VersionLabel v = ''v1'' \<and> catalog_ok c'"
  using upsertInitialVersion_correct [OF demoCatalog_ok demo_plain(3), of "''x.bin''" "[]" 5 "''1''" "''t3''"]
  by (elim exE conjE) (intro exI conjI, assumption+)

lemma demo_fresh: "\<forall>f\<in>set (Files demoCatalog). ''b'' \<notin> CID ` set (Versions f)"
  by code_simp

lemma demo_location: "findVersionLocation demoCatalog ''a'' = Some (0, 1)"
  by code_simp

theorem appendPatchVersion_correct_witness:
  "\<exists>c' f v g. appendPatchVersion demoCatalog ''b'' ''a'' ''x.bin'' [] 5 ''1'' ''t3'' = Ok (c', f, v) \<and>
     CID v = ''b'' \<and> PreviousCID v = ''a'' \<and> label_generation (VersionLabel v) = Some (g + 1)"
  using appendPatchVersion_correct [OF demoCatalog_ok demoCatalog_small demo_plain(3) demo_location demo_fresh,
      of "''x.bin''" "[]" 5 "''1''" "''t3''"]
  by (elim exE conjE) (intro exI conjI, assumption+)

text \<open>A codec for one catalog each way, enough to run the recordings on an empty disk.\<close>

definition oneMarshal :: "Catalog \<Rightarrow> Catalog \<Rightarrow> string option" where
  "oneMarshal c0 c = (if c = c0 then Some ''{}'' else None)"

definition oneUnmarshal :: "Catalog \<Rightarrow> string \<Rightarrow> Catalog option" where
  "oneUnmarshal c0 s = (if s = ''{}'' @ [CHR 0x0A] then Some c0 else if s = ''demo'' then Some demoCatalog else None)"

lemma one_codec: "json_roundtrips (oneMarshal c) (oneUnmarshal c) c"
  by (simp add: json_roundtrips_def oneMarshal_def oneUnmarshal_def)

definition outcomeCatalog :: "(catalog_error, recorded) outcome \<Rightarrow> Catalog" where
  "outcomeCatalog r = (case r of Ok (c, f, v) \<Rightarrow> c | _ \<Rightarrow> \<lparr>Files = []\<rparr>)"

definition demoWorld :: world where
  "demoWorld = emptyWorld\<lparr>content := [catalogPath ''/d'' \<mapsto> ''demo'']\<rparr>"

definition demoInitial :: "(catalog_error, recorded) outcome" where
  "demoInitial = upsertInitialVersion (normalize demoCatalog) ''b'' ''x.bin'' [] 5 ''1'' ''t3''"

definition demoPatched :: "(catalog_error, recorded) outcome" where
  "demoPatched = appendPatchVersion (normalize demoCatalog) ''b'' ''a'' ''x.bin'' [] 5 ''1'' ''t3''"

lemma demoWorld_read: "readCatalog (oneUnmarshal c) ''/d'' demoWorld = Ok (normalize demoCatalog)"
  by (simp add: readCatalog_def loadCatalogLocked_def os_ReadFile_def demoWorld_def emptyWorld_def
      oneUnmarshal_def)

lemma demo_normalized:
  "catalog_ok (normalize demoCatalog)" "catalog_small (normalize demoCatalog)"
  "\<forall>f\<in>set (Files (normalize demoCatalog)). ''b'' \<notin> CID ` set (Versions f)"
  by (rule catalog_ok_normalize [OF demoCatalog_ok]) code_simp+

theorem recordInitialVersion_stored_witness:
  "\<exists>w' f v. recordInitialVersion (oneMarshal (outcomeCatalog demoInitial))
        (oneUnmarshal (outcomeCatalog demoInitial)) ''/d'' demoWorld ''b'' ''x.bin'' [] 5 ''1'' ''t3''
      = (w', Ok (f, v)) \<and>
     readCatalog (oneUnmarshal (outcomeCatalog demoInitial)) ''/d'' w' = Ok (outcomeCatalog demoInitial) \<and>
     CID v = ''b''"
    (is "\<exists>w' f v. ?rec = _ \<and> _")
proof -
  have "is_Ok demoInitial" by code_simp
  then obtain c' f0 v0 where up: "demoInitial = Ok (c', f0, v0)"
    by (auto elim: is_OkE)
  have c': "outcomeCatalog demoInitial = c'" unfolding up outcomeCatalog_def by simp
  have "is_Ok (snd ?rec)" by code_simp
  then obtain w' f v where rec: "?rec = (w', Ok (f, v))"
    by (metis is_OkE prod.collapse)
  have "\<not> read_fails demoWorld (catalogPath ''/d'')" by (simp add: demoWorld_def emptyWorld_def)
  then have "readCatalog (oneUnmarshal c') ''/d'' w' = Ok c' \<and> CID v = ''b''"
    using recordInitialVersion_stored [OF demoWorld_read demo_normalized(1,2) demo_plain(3)
        _ up [unfolded demoInitial_def] one_codec] rec [unfolded c'] by blast
  with rec show ?thesis by (simp add: c')
qed

theorem recordPatchVersion_stored_witness:
  "\<exists>w' f v. recordPatchVersion (oneMarshal (outcomeCatalog demoPatched))
        (oneUnmarshal (outcomeCatalog demoPatched)) ''/d'' demoWorld ''b'' ''a'' ''x.bin'' [] 5 ''1'' ''t3''
      = (w', Ok (f, v)) \<and>
     readCatalog (oneUnmarshal (outcomeCatalog demoPatched)) ''/d'' w' = Ok (outcomeCatalog demoPatched) \<and>
     CID v = ''b'' \<and> PreviousCID v = ''a''"
    (is "\<exists>w' f v. ?rec = _ \<and> _")
proof -
  have "is_Ok demoPatched" by code_simp
  then obtain c' f0 v0 where up: "demoPatched = Ok (c', f0, v0)"
    by (auto elim: is_OkE)
  have c': "outcomeCatalog demoPatched = c'" unfolding up outcomeCatalog_def by simp
  have "is_Ok (snd ?rec)" by code_simp
  then obtain w' f v where rec: "?rec = (w', Ok (f, v))"
    by (metis is_OkE prod.collapse)
  have "\<not> read_fails demoWorld (catalogPath ''/d'')" by (simp add: demoWorld_def emptyWorld_def)
  then have "readCatalog (oneUnmarshal c') ''/d'' w' = Ok c' \<and> CID v = ''b'' \<and> PreviousCID v = ''a''"
    using recordPatchVersion_stored [OF demoWorld_read demo_normalized(1,2) demo_plain(3)
        _ demo_normalized(3) up [unfolded demoPatched_def] one_codec] rec [unfolded c'] by blast
  with rec show ?thesis by (simp add: c')
qed

theorem recordPatchVersion_missing_witness:
  "recordPatchVersion (oneMarshal demoCatalog) (oneUnmarshal demoCatalog) ''/d'' demoWorld
     ''b'' ''q'' ''x.bin'' [] 5 ''1'' ''t3'' = (demoWorld, Err (PreviousMissing ''q''))"
proof -
  have "\<forall>f\<in>set (Files (normalize demoCatalog)). ''q'' \<notin> CID ` set (Versions f)" by code_simp
  then show ?thesis by (rule recordPatchVersion_missing [OF demoWorld_read])
qed

text \<open>A disk that refuses the final rename.\<close>

definition stuckWorld :: world where
  "stuckWorld = demoWorld\<lparr>write_fails := (\<lambda>p. p = catalogPath ''/d'')\<rparr>"

theorem saveCatalog_atomic_witness:
  "\<exists>w'. saveCatalogLocked (\<lambda>_. Some ''{}'') ''/d'' demoCatalog stuckWorld = (w', Some ReplaceCatalog) \<and>
     content w' (catalogPath ''/d'') = Some ''demo''"
proof -
  let ?s = "saveCatalogLocked (\<lambda>_. Some ''{}'') ''/d'' demoCatalog stuckWorld"
  have "snd ?s = Some ReplaceCatalog" by code_simp
  then have eq: "?s = (fst ?s, Some ReplaceCatalog)" by (metis prod.collapse)
  then have "content (fst ?s) (catalogPath ''/d'') = content stuckWorld (catalogPath ''/d'')"
    using saveCatalog_atomic [OF eq] by simp
  with eq show ?thesis by (intro exI [of _ "fst ?s"]) (simp add: stuckWorld_def demoWorld_def)
qed

section \<open>Labels are not unique\<close>

definition branchVersion :: "string \<Rightarrow> string \<Rightarrow> CatalogVersion" where
  "branchVersion cid previousCID =
     (initialVersion cid cid 1 ''1'' cid)\<lparr>PreviousCID := previousCID, VersionLabel := [], Kind := ''patch''\<rparr>"

definition branchFile :: CatalogFile where
  "branchFile = \<lparr>RootCID = ''r'', DisplayName = ''f'', Extension = [], CreatedAt = [],
     Versions = [branchVersion ''r'' [], branchVersion ''a'' ''r'', branchVersion ''b'' ''r'',
       branchVersion ''c'' ''a'', branchVersion ''d'' ''a'', branchVersion ''e'' ''b'']\<rparr>"

text \<open>
  Two versions of one file can get the same label. The root has the children \<open>a\<close> and
  \<open>b\<close>; \<open>d\<close> is the second child of \<open>a\<close> and \<open>e\<close> the first of \<open>b\<close>: both become \<open>v3.1\<close>.
\<close>

theorem normalizeVersions_label_collision:
  "map (\<lambda>v. (CID v, VersionLabel v)) (Versions (normalizeVersions branchFile)) =
     [(''r'', ''v1''), (''a'', ''v2''), (''b'', ''v2.1''), (''c'', ''v3''), (''d'', ''v3.1''), (''e'', ''v3.1'')]"
  by code_simp

end
