(* ===== verification/ApiServer.thy ===== *)
theory ApiServer
  imports Preview CatalogProps
begin

text \<open>
  The API server (\<open>src/cmd/opendsn-api\<close>): its configuration from the environment
  (\<open>main.go\<close>), the routes and the CORS wrapper (\<open>server.go\<close>) and the handlers of
  \<open>handlers.go\<close> and \<open>catalog.go\<close>. A handler takes the request and the machine and
  gives the machine afterwards and the response.
\<close>

section \<open>Configuration\<close>

text \<open>\<open>main\<close> up to the listener; \<open>None\<close> is the fatal error of \<open>os.Getwd\<close>.\<close>

definition mainConfig :: "string option \<Rightarrow> (string \<Rightarrow> string) \<Rightarrow> Config option" where
  "mainConfig wd getenv =
     map_option (\<lambda>cwd.
       let orDefault = (\<lambda>v d. if v \<noteq> [] then v else d) in
       \<lparr>Addr = orDefault (getenv ''OPENDSN_API_ADDR'') ''0.0.0.0:8080'',
        RepoRoot = orDefault (getenv ''OPENDSN_REPO_ROOT'') cwd,
        LotusBin = ''./lotus'',
        MinerHTTPPort = (let v = getenv ''OPENDSN_MINER_HTTP_PORT'' in
          if v = [] then 18080 else case Atoi v of Some p \<Rightarrow> p | None \<Rightarrow> 18080),
        DealPrice = ''0.026'', DealDuration = ''518400''\<rparr>) wd"

section \<open>Handlers\<close>

definition handleHealth :: "api_request \<Rightarrow> api_response" where
  "handleHealth r =
     (if Method r \<noteq> ''GET'' then writeError 405 (Msg ''method not allowed'')
      else writeJSON 200 HealthBody)"

text \<open>A handler's last step. After a panic \<open>net/http\<close> closes the connection without a response: status 0.\<close>

definition answer :: "('e \<Rightarrow> api_text) \<Rightarrow> int \<Rightarrow> ('a \<Rightarrow> api_body) \<Rightarrow> ('e, 'a) outcome \<Rightarrow> api_response" where
  "answer err status body r =
     (case r of
        Ok a \<Rightarrow> writeJSON 200 (body a)
      | Err e \<Rightarrow> writeError status (err e)
      | Panic \<Rightarrow> \<lparr>RespStatus = 0, RespHeaders = [], RespBody = NoBody\<rparr>)"

definition handleMiners :: "server_env \<Rightarrow> Config \<Rightarrow> api_request \<Rightarrow> world \<Rightarrow> api_response" where
  "handleMiners env cfg r w =
     (if Method r \<noteq> ''GET'' then writeError 405 (Msg ''method not allowed'')
      else answer OsText 500 MinersBody (collectMinerInfos (httpGet env) cfg w))"

definition handleProofs :: "server_env \<Rightarrow> Config \<Rightarrow> api_request \<Rightarrow> world \<Rightarrow> api_response" where
  "handleProofs env cfg r w =
     (if Method r \<noteq> ''GET'' then writeError 405 (Msg ''method not allowed'')
      else answer OsText 500 ProofsBody (collectProofInfos (httpGet env) cfg w))"

definition runLotusCommand ::
  "server_env \<Rightarrow> Config \<Rightarrow> string list \<Rightarrow> world \<Rightarrow> world \<times> string \<times> bool" where
  "runLotusCommand env cfg args w =
     (case runProgram env (LotusBin cfg) (RepoRoot cfg) args w of
        (w', out, ok) \<Rightarrow> (w', TrimSpace out, ok))"

definition handleClientImport :: "server_env \<Rightarrow> Config \<Rightarrow> api_request \<Rightarrow> world \<Rightarrow> world \<times> api_response" where
  "handleClientImport env cfg r w =
     (if Method r \<noteq> ''POST'' then (w, writeError 405 (Msg ''method not allowed''))
      else case decodeImport env (ReqBody r) of
             None \<Rightarrow> (w, writeError 400 (Msg ''invalid json body''))
           | Some req \<Rightarrow>
               (let path = TrimSpace (ImportPath req) in
                if path = [] then (w, writeError 400 (Msg ''path is required''))
                else case Abs env path of
                       None \<Rightarrow> (w, writeError 400 (Msg ''invalid file path''))
                     | Some absPath \<Rightarrow>
                         (case os_Stat w absPath of
                            Ok info \<Rightarrow>
                              if IsDir info then (w, writeError 400 (Msg ''path is a directory, not a file''))
                              else (case runLotusCommand env cfg [''client'', ''import'', ''-q'', absPath] w of
                                      (w1, out, ok) \<Rightarrow>
                                        (w1, writeJSON 200 (ImportBody
                                          \<lparr>ImportSuccess = ok,
                                           ImportMessage = (if ok then ''import finished'' else ''import failed''),
                                           ImportRoot = TrimSpace out, ImportOutput = out, ImportedPath = absPath,
                                           ImportFileName = Base absPath,
                                           ImportFileExtension = ToLower (Ext absPath),
                                           ImportSizeBytes = Size info, ImportSizeMB = formatSizeMB (Size info)\<rparr>)))
                          | _ \<Rightarrow> (w, writeError 400 (Msg ''cannot access file'')))))"

text \<open>The fields of a deal request, trimmed.\<close>

definition trimDeal :: "DealRequest \<Rightarrow> DealRequest" where
  "trimDeal req =
     req\<lparr>ReqRoot := TrimSpace (ReqRoot req), ReqMiner := TrimSpace (ReqMiner req),
         ReqPreviousRoot := TrimSpace (ReqPreviousRoot req), ReqSourcePath := TrimSpace (ReqSourcePath req),
         ReqDisplayName := TrimSpace (ReqDisplayName req)\<rparr>"

definition dealArgs :: "Config \<Rightarrow> DealRequest \<Rightarrow> string list" where
  "dealArgs cfg req =
     [''client'', ''deal''] @
     (if ReqPreviousRoot req = [] then [''--create''] else [''--update'', ''--previous'', ReqPreviousRoot req]) @
     [ReqRoot req, ReqMiner req, DealPrice cfg, DealDuration cfg]"

definition dealSize :: "DealRequest \<Rightarrow> world \<Rightarrow> int" where
  "dealSize req w =
     (if ReqSizeBytes req \<le> 0 \<and> ReqSourcePath req \<noteq> [] then
        (case os_Stat w (ReqSourcePath req) of
           Ok info \<Rightarrow> if IsDir info then ReqSizeBytes req else Size info
         | _ \<Rightarrow> ReqSizeBytes req)
      else ReqSizeBytes req)"

definition recordDeal ::
  "server_env \<Rightarrow> Config \<Rightarrow> DealRequest \<Rightarrow> int \<Rightarrow> world \<Rightarrow> world \<times> (catalog_error, CatalogFile \<times> CatalogVersion) outcome" where
  "recordDeal env cfg req sizeBytes w =
     (if ReqPreviousRoot req = []
      then recordInitialVersion (marshalCatalog env) (unmarshalCatalog env) (RepoRoot cfg) w
             (ReqRoot req) (ReqSourcePath req) (ReqDisplayName req) sizeBytes (ReqMiner req) (clockRFC3339 env)
      else recordPatchVersion (marshalCatalog env) (unmarshalCatalog env) (RepoRoot cfg) w
             (ReqRoot req) (ReqPreviousRoot req) (ReqSourcePath req) (ReqDisplayName req) sizeBytes (ReqMiner req)
             (clockRFC3339 env))"

definition dealFinished :: "server_env \<Rightarrow> Config \<Rightarrow> DealRequest \<Rightarrow> string \<Rightarrow> world \<Rightarrow> world \<times> api_response" where
  "dealFinished env cfg req out w =
     (let sizeBytes = dealSize req w;
          reply = (\<lambda>msg initialRoot label name. writeJSON 200 (DealBody
            \<lparr>DealSuccess = True, DealMessage = msg, ProposalCID = TrimSpace out, DealOutput = out,
             InitialRoot = initialRoot, DealVersionLabel = label, DealFileName = name,
             DealFileSizeMB = formatSizeMB sizeBytes, DealUploadedAt = clockRFC3339 env\<rparr>))
      in case recordDeal env cfg req sizeBytes w of
           (w1, Ok (file, version)) \<Rightarrow>
             (w1, reply (Msg ''deal finished'') (RootCID file) (VersionLabel version) (SourceName version))
         | (w1, Err e) \<Rightarrow> (w1, reply (CatalogUpdateFailed e) [] [] [])
         | (w1, Panic) \<Rightarrow> (w1, \<lparr>RespStatus = 0, RespHeaders = [], RespBody = NoBody\<rparr>))"

definition handleClientDeal :: "server_env \<Rightarrow> Config \<Rightarrow> api_request \<Rightarrow> world \<Rightarrow> world \<times> api_response" where
  "handleClientDeal env cfg r w =
     (if Method r \<noteq> ''POST'' then (w, writeError 405 (Msg ''method not allowed''))
      else case decodeDeal env (ReqBody r) of
             None \<Rightarrow> (w, writeError 400 (Msg ''invalid json body''))
           | Some body \<Rightarrow>
               (let req = trimDeal body in
                if ReqRoot req = [] then (w, writeError 400 (Msg ''root is required''))
                else if ReqMiner req = [] then (w, writeError 400 (Msg ''miner is required''))
                else case runLotusCommand env cfg (dealArgs cfg req) w of
                       (w1, out, False) \<Rightarrow>
                         (w1, writeJSON 200 (DealBody
                           \<lparr>DealSuccess = False, DealMessage = Msg ''deal failed'', ProposalCID = TrimSpace out,
                            DealOutput = out, InitialRoot = [], DealVersionLabel = [], DealFileName = [],
                            DealFileSizeMB = [], DealUploadedAt = []\<rparr>))
                     | (w1, out, True) \<Rightarrow> dealFinished env cfg req out w1))"

definition fileSize :: "world \<Rightarrow> string \<Rightarrow> int" where
  "fileSize w p = (case os_Stat w p of Ok info \<Rightarrow> if IsDir info then 0 else Size info | _ \<Rightarrow> 0)"

definition handleClientRetrieveVersion ::
  "server_env \<Rightarrow> Config \<Rightarrow> api_request \<Rightarrow> world \<Rightarrow> world \<times> api_response" where
  "handleClientRetrieveVersion env cfg r w =
     (if Method r \<noteq> ''POST'' then (w, writeError 405 (Msg ''method not allowed''))
      else case decodeRetrieve env (ReqBody r) of
             None \<Rightarrow> (w, writeError 400 (Msg ''invalid json body''))
           | Some req \<Rightarrow>
               (let root = TrimSpace (RetrRoot req); cid = TrimSpace (RetrCID req); name = TrimSpace (OutputName req);
                    targetCID = (if cid = [] then root else cid)
                in if targetCID = [] then (w, writeError 400 (Msg ''cid is required''))
                   else if name = [] then (w, writeError 400 (Msg ''output_name is required''))
                   else let outputPath = JoinPath [RepoRoot cfg, name] in
                     case runLotusCommand env cfg [''client'', ''retrieve-version'', targetCID, outputPath] w of
                       (w1, out, False) \<Rightarrow>
                         (w1, writeJSON 200 (RetrieveBody
                           \<lparr>RetrSuccess = False, RetrMessageText = ''retrieve-version failed'', OutputPath = outputPath,
                            RetrOutput = out, RetrievedCID = targetCID, RetrSizeBytes = 0, RetrSizeMB = []\<rparr>))
                     | (w1, out, True) \<Rightarrow>
                         (w1, writeJSON 200 (RetrieveBody
                           \<lparr>RetrSuccess = True, RetrMessageText = ''retrieve-version finished'', OutputPath = outputPath,
                            RetrOutput = out, RetrievedCID = targetCID, RetrSizeBytes = fileSize w1 outputPath,
                            RetrSizeMB = formatSizeMB (fileSize w1 outputPath)\<rparr>))))"

definition handleClientRoots :: "Config \<Rightarrow> api_request \<Rightarrow> world \<Rightarrow> api_response" where
  "handleClientRoots cfg r w =
     (if Method r \<noteq> ''GET'' then writeError 405 (Msg ''method not allowed'')
      else answer OsText 500 RootsBody (loadRoots (JoinPath [RepoRoot cfg, ''fileroots.log'']) w))"

text \<open>\<open>None\<close> is a walk that does not end.\<close>

definition handleClientVersions :: "Config \<Rightarrow> api_request \<Rightarrow> world \<Rightarrow> api_response option" where
  "handleClientVersions cfg r w =
     (if Method r \<noteq> ''GET'' then Some (writeError 405 (Msg ''method not allowed''))
      else let root = TrimSpace (QueryGet r ''root'') in
        if root = [] then Some (writeError 400 (Msg ''root is required''))
        else map_option (answer MetaText 400 (VersionsBody root)) (loadVersionsFromMeta (RepoRoot cfg) root w))"

definition handleCatalog :: "server_env \<Rightarrow> Config \<Rightarrow> api_request \<Rightarrow> world \<Rightarrow> api_response" where
  "handleCatalog env cfg r w =
     (if Method r \<noteq> ''GET'' then writeError 405 (Msg ''method not allowed'')
      else answer CatalogText 500 (\<lambda>c. CatalogBody (Files c)) (readCatalog (unmarshalCatalog env) (RepoRoot cfg) w))"

section \<open>Routes\<close>

text \<open>The path \<open>http.ServeMux\<close> redirects a path to; an exact pattern matches a clean path.\<close>

definition cleanPath :: "string \<Rightarrow> string" where
  "cleanPath p =
     (if p = [] then ''/''
      else let q = (if hd p = CHR ''/'' then p else CHR ''/'' # p); np = Clean q in
        if last q = CHR ''/'' \<and> np \<noteq> ''/'' then np @ ''/'' else np)"

definition mux :: "server_env \<Rightarrow> Config \<Rightarrow> api_request \<Rightarrow> world \<Rightarrow> (world \<times> api_response) option" where
  "mux env cfg r w =
     (let p = UrlPath r; pure = (\<lambda>resp. Some (w, resp)) in
      if cleanPath p \<noteq> p then pure \<lparr>RespStatus = 301, RespHeaders = [], RespBody = RedirectBody (cleanPath p)\<rparr>
      else if p = ''/healthz'' then pure (handleHealth r)
      else if p = ''/api/miners'' then pure (handleMiners env cfg r w)
      else if p = ''/api/proofs'' then pure (handleProofs env cfg r w)
      else if p = ''/api/client/import'' then Some (handleClientImport env cfg r w)
      else if p = ''/api/client/deal'' then Some (handleClientDeal env cfg r w)
      else if p = ''/api/client/retrieve-version'' then Some (handleClientRetrieveVersion env cfg r w)
      else if p = ''/api/client/roots'' then pure (handleClientRoots cfg r w)
      else if p = ''/api/client/versions'' then map_option (\<lambda>resp. (w, resp)) (handleClientVersions cfg r w)
      else if p = ''/api/catalog'' then pure (handleCatalog env cfg r w)
      else if p = ''/api/browse'' then pure (handleBrowse env r w)
      else if p = ''/api/preview'' then Some (handlePreview env cfg r w)
      else if p = ''/api/preview/raw'' then pure (handlePreviewRaw env r w)
      else pure \<lparr>RespStatus = 404, RespHeaders = [], RespBody = NotFoundBody\<rparr>)"

definition corsHeaders :: "(string \<times> string) list" where
  "corsHeaders =
     [(''Access-Control-Allow-Origin'', ''*''), (''Access-Control-Allow-Methods'', ''GET, POST, OPTIONS''),
      (''Access-Control-Allow-Headers'', ''Content-Type'')]"

definition withCORS ::
  "(api_request \<Rightarrow> world \<Rightarrow> (world \<times> api_response) option) \<Rightarrow> api_request \<Rightarrow> world \<Rightarrow> (world \<times> api_response) option" where
  "withCORS next r w =
     (if Method r = ''OPTIONS'' then Some (w, \<lparr>RespStatus = 204, RespHeaders = corsHeaders, RespBody = NoBody\<rparr>)
      else map_option (\<lambda>(w', resp). (w', resp\<lparr>RespHeaders := corsHeaders @ RespHeaders resp\<rparr>)) (next r w))"

definition Routes :: "server_env \<Rightarrow> Config \<Rightarrow> api_request \<Rightarrow> world \<Rightarrow> (world \<times> api_response) option" where
  "Routes env cfg = withCORS (mux env cfg)"

section \<open>Properties\<close>

text \<open>
  Only the three client commands and the preview of a Word document change anything: every
  request by another method than \<open>POST\<close> to another path than \<open>/api/preview\<close> leaves
  the machine as it was, and so does every request by a method other than \<open>GET\<close> and
  \<open>POST\<close>, which never gets status 200.
\<close>

theorem Routes_read_only:
  assumes "Routes env cfg r w = Some (w', resp)"
  shows "(Method r \<noteq> ''POST'' \<and> UrlPath r \<noteq> ''/api/preview'' \<longrightarrow> w' = w) \<and>
    (Method r \<noteq> ''GET'' \<and> Method r \<noteq> ''POST'' \<longrightarrow> w' = w \<and> RespStatus resp \<noteq> 200)"
proof -
  have m: "mux env cfg r w = Some (w', resp') \<Longrightarrow>
      (Method r \<noteq> ''POST'' \<and> UrlPath r \<noteq> ''/api/preview'' \<longrightarrow> w' = w) \<and>
      (Method r \<noteq> ''GET'' \<and> Method r \<noteq> ''POST'' \<longrightarrow> w' = w \<and> RespStatus resp' \<noteq> 200)" for resp'
    by (auto simp: mux_def Let_def handleHealth_def handleMiners_def handleProofs_def handleClientImport_def
        handleClientDeal_def handleClientRetrieveVersion_def handleClientRoots_def handleClientVersions_def
        handleCatalog_def handleBrowse_def handlePreview_def handlePreviewRaw_def writeError_def writeJSON_def
        split: if_splits)
  show ?thesis
    using assms m by (auto simp: Routes_def withCORS_def split: if_splits)
qed

lemma handleClientDeal_finished:
  assumes "Method r = ''POST''" "decodeDeal env (ReqBody r) = Some body" "req = trimDeal body"
    and "ReqRoot req \<noteq> []" "ReqMiner req \<noteq> []" "runLotusCommand env cfg (dealArgs cfg req) w = (w1, out, True)"
  shows "handleClientDeal env cfg r w = dealFinished env cfg req out w1"
  using assms by (simp add: handleClientDeal_def Let_def)

lemma dealFinished_Ok:
  assumes "recordDeal env cfg req (dealSize req w) w = (w', Ok (f, v))"
  shows "dealFinished env cfg req out w = (w', writeJSON 200 (DealBody
    \<lparr>DealSuccess = True, DealMessage = Msg ''deal finished'', ProposalCID = TrimSpace out, DealOutput = out,
     InitialRoot = RootCID f, DealVersionLabel = VersionLabel v, DealFileName = SourceName v,
     DealFileSizeMB = formatSizeMB (dealSize req w), DealUploadedAt = clockRFC3339 env\<rparr>))"
  using assms by (simp add: dealFinished_def Let_def)


section \<open>Witnesses\<close>

definition demoConfig :: Config where
  "demoConfig = \<lparr>Addr = [], RepoRoot = ''/d'', LotusBin = ''./lotus'', MinerHTTPPort = 18080,
     DealPrice = ''0.026'', DealDuration = ''518400''\<rparr>"

definition getRequest :: "string \<Rightarrow> api_request" where
  "getRequest p = \<lparr>Method = ''GET'', UrlPath = p, QueryGet = (\<lambda>_. []), ReqBody = []\<rparr>"

theorem Routes_read_only_witness:
  "\<exists>resp. Routes demoServer demoConfig (getRequest ''/healthz'') emptyWorld = Some (emptyWorld, resp)"
proof -
  have "Routes demoServer demoConfig (getRequest ''/healthz'') emptyWorld \<noteq> None" by code_simp
  then obtain w' resp where s: "Routes demoServer demoConfig (getRequest ''/healthz'') emptyWorld = Some (w', resp)"
    by auto
  with Routes_read_only [OF s] show ?thesis by (auto simp: getRequest_def)
qed

definition dealServer :: server_env where
  "dealServer = demoServer\<lparr>runProgram := (\<lambda>_ _ _ w. (w, ''prop'', True)),
     decodeDeal := (\<lambda>_. Some \<lparr>ReqRoot = ''b'', ReqMiner = ''1'', ReqPreviousRoot = [], ReqSourcePath = ''x.bin'',
        ReqDisplayName = [], ReqSizeBytes = 5\<rparr>), clockRFC3339 := ''t3'',
     marshalCatalog := oneMarshal (outcomeCatalog demoInitial), unmarshalCatalog := oneUnmarshal (outcomeCatalog demoInitial)\<rparr>"

definition dealPost :: api_request where
  "dealPost = (getRequest ''/api/client/deal'')\<lparr>Method := ''POST''\<rparr>"

definition dealReq :: DealRequest where
  "dealReq = \<lparr>ReqRoot = ''b'', ReqMiner = ''1'', ReqPreviousRoot = [], ReqSourcePath = ''x.bin'',
     ReqDisplayName = [], ReqSizeBytes = 5\<rparr>"

lemma dealReq_trim: "trimDeal dealReq = dealReq"
  by code_simp

lemma deal_reply:
  "case RespBody (snd (handleClientDeal dealServer demoConfig dealPost demoWorld)) of
     DealBody d \<Rightarrow> DealMessage d = Msg ''deal finished'' | _ \<Rightarrow> False"
  by code_simp


end
