(* ===== verification/Fil.thy ===== *)
theory Fil
  imports GoStrings
begin

text \<open>
  Token amounts (\<open>src/chain/types/fil.go\<close>): an amount is an integer number of attoFIL, printed
  in FIL, in the unit that suits its size, or in nanoFIL, and parsed from a decimal number with an
  optional unit. \<open>math/big\<close>'s rationals appear as a numerator over a power of ten.
\<close>

section \<open>Printing\<close>

definition FilecoinPrecision :: int where
  "FilecoinPrecision = 1000000000000000000"

definition pad_int :: "nat \<Rightarrow> int \<Rightarrow> string" where
  "pad_int w n = (let s = Itoa n in replicate (w - length s) (CHR ''0'') @ s)"

lemma pad_int_nat: "0 \<le> n \<Longrightarrow> pad_int w n = pad_dec w (nat n)"
  by (simp add: pad_int_def pad_dec_def Itoa_def)

text \<open>
  \<open>Rat.FloatString(prec)\<close> of \<open>n / d\<close> with \<open>0 < d\<close>, \<open>0 < prec\<close>: the digits are
  rounded half away from zero.
\<close>

definition FloatString :: "nat \<Rightarrow> int \<Rightarrow> int \<Rightarrow> string" where
  "FloatString prec n d =
     (let q = \<bar>n\<bar> div d; r = \<bar>n\<bar> mod d;
          p = 10 ^ prec;
          r1 = r * p div d; r2 = r * p mod d;
          r3 = (if d \<le> 2 * r2 then r1 + 1 else r1);
          (q, r) = (if p \<le> r3 then (q + 1, r3 - p) else (q, r3))
      in (if n < 0 then ''-'' else []) @ Itoa q @ ''.'' @ pad_int prec r)"

definition TrimRightChar :: "char \<Rightarrow> string \<Rightarrow> string" where
  "TrimRightChar c s = rev (dropWhile (\<lambda>x. x = c) (rev s))"

definition trimNumber :: "string \<Rightarrow> string" where
  "trimNumber s = TrimRightChar (CHR ''.'') (TrimRightChar (CHR ''0'') s)"

definition Unitless :: "int \<Rightarrow> string" where
  "Unitless f = (if f = 0 then ''0'' else trimNumber (FloatString 18 f FilecoinPrecision))"

definition FIL_String :: "int \<Rightarrow> string" where
  "FIL_String f = Unitless f @ '' FIL''"

text \<open>The Greek letter is its two bytes in UTF-8.\<close>

definition unitPrefixes :: "string list" where
  "unitPrefixes = [''a'', ''f'', ''p'', ''n'', [CHR 0xCE, CHR 0xBC], ''m'']"

text \<open>The loop stops at the first prefix whose thousandfold is above \<open>n\<close>; without one the prefix is empty.\<close>

fun shortLoop :: "int \<Rightarrow> int \<Rightarrow> string list \<Rightarrow> int \<times> string" where
  "shortLoop n dn [] = (dn, [])"
| "shortLoop n dn (p # ps) = (if n < dn * 1000 then (dn, p) else shortLoop n (dn * 1000) ps)"

definition Short :: "int \<Rightarrow> string" where
  "Short f =
     (let (dn, prefix) = shortLoop \<bar>f\<bar> 1 unitPrefixes in
      if f = 0 then ''0'' else trimNumber (FloatString 3 f dn) @ '' '' @ prefix @ ''FIL'')"

definition Nano :: "int \<Rightarrow> string" where
  "Nano f = (if f = 0 then ''0'' else trimNumber (FloatString 9 f 1000000000) @ '' nFIL'')"

definition MarshalText :: "int \<Rightarrow> string" where
  "MarshalText f = FIL_String f"

section \<open>Parsing\<close>

datatype fil_error = UnrecognizedSuffix string | LengthTooLarge nat | NotDecimal string | InvalidValue string

text \<open>
  \<open>Rat.SetString\<close> on a string of signs, points and digits: an optional sign, digits with at
  most one point among them, at least one digit. The value is a numerator and the number of
  digits after the point.
\<close>

definition parse_mantissa :: "string \<Rightarrow> (nat \<times> nat) option" where
  "parse_mantissa s =
     (case cut_at (CHR ''.'') s of
        None \<Rightarrow> (if s = [] then None else map_option (\<lambda>n. (n, 0)) (dec_val 0 s))
      | Some (a, b) \<Rightarrow>
          if a = [] \<and> b = [] then None else map_option (\<lambda>n. (n, length b)) (dec_val 0 (a @ b)))"

definition Rat_SetString :: "string \<Rightarrow> (int \<times> nat) option" where
  "Rat_SetString s =
     (case s of
        [] \<Rightarrow> None
      | c # cs \<Rightarrow>
          if c = CHR ''-'' then map_option (\<lambda>(n, k). (- int n, k)) (parse_mantissa cs)
          else map_option (\<lambda>(n, k). (int n, k)) (parse_mantissa s))"

definition filChars :: string where
  "filChars = ''-.1234567890''"

definition ParseFIL :: "string \<Rightarrow> (fil_error, int) outcome" where
  "ParseFIL s0 =
     (let suffix = dropWhile (\<lambda>c. c \<in> set filChars) s0;
          s = take (length s0 - length suffix) s0;
          norm = ToLower (TrimSpace suffix);
          attofil = (norm = ''attofil'' \<or> norm = ''afil'')
      in if suffix \<noteq> [] \<and> \<not> (norm = [] \<or> norm = ''fil'' \<or> attofil) then Err (UnrecognizedSuffix suffix)
         else if 50 < length s then Err (LengthTooLarge (length s))
         else case Rat_SetString s of
                None \<Rightarrow> Err (NotDecimal s)
              | Some (n, k) \<Rightarrow>
                  (let n' = (if attofil then n else n * FilecoinPrecision) in
                   if n' mod 10 ^ k \<noteq> 0 then Err (InvalidValue s) else Ok (n' div 10 ^ k)))"

text \<open>\<open>MustParseFIL\<close> panics where \<open>ParseFIL\<close> has an error.\<close>

definition MustParseFIL :: "string \<Rightarrow> (fil_error, int) outcome" where
  "MustParseFIL s = (case ParseFIL s of Err _ \<Rightarrow> Panic | r \<Rightarrow> r)"

definition UnmarshalText :: "string \<Rightarrow> (fil_error, int) outcome" where
  "UnmarshalText s = ParseFIL s"

section \<open>Digits\<close>

lemma dec_val_shift: "dec_val acc s = map_option (\<lambda>v. acc * 10 ^ length s + v) (dec_val 0 s)"
proof (induction s arbitrary: acc)
  case (Cons c s)
  show ?case
  proof (cases "digit_val c")
    case (Some d)
    have "dec_val acc (c # s) = dec_val (10 * acc + d) s" "dec_val 0 (c # s) = dec_val d s"
      using Some by simp_all
    moreover have "dec_val (10 * acc + d) s = map_option (\<lambda>v. (10 * acc + d) * 10 ^ length s + v) (dec_val 0 s)"
      "dec_val d s = map_option (\<lambda>v. d * 10 ^ length s + v) (dec_val 0 s)"
      by (rule Cons.IH)+
    ultimately show ?thesis
      by (cases "dec_val 0 s") (simp_all add: algebra_simps)
  qed simp
qed simp

lemma digit_val_0 [simp]: "digit_val (CHR ''0'') = Some 0"
  by (simp add: digit_val_def)

lemma dec_val_zeros [simp]: "dec_val acc (replicate m (CHR ''0'')) = Some (acc * 10 ^ m)"
  by (induction m arbitrary: acc) (simp_all add: mult.assoc)

lemma dec_val_pad: "dec_val 0 (pad_dec w n) = Some n"
  by (simp add: pad_dec_def Let_def dec_val_append)

lemma length_pad: "n < 10 ^ Suc w \<Longrightarrow> length (pad_dec (Suc w) n) = Suc w"
  using length_nat_dec [of n w] by (simp add: pad_dec_def Let_def)

lemma trim_split: "\<exists>m. s = TrimRightChar c s @ replicate m c \<and> (TrimRightChar c s = [] \<or> last (TrimRightChar c s) \<noteq> c)"
proof (induction s rule: rev_induct)
  case Nil
  then show ?case by (simp add: TrimRightChar_def)
next
  case (snoc x s)
  show ?case
  proof (cases "x = c")
    case True
    then have "TrimRightChar c (s @ [x]) = TrimRightChar c s" by (simp add: TrimRightChar_def)
    with snoc True obtain m where "s @ [x] = TrimRightChar c (s @ [x]) @ replicate m c @ [c]"
      "TrimRightChar c (s @ [x]) = [] \<or> last (TrimRightChar c (s @ [x])) \<noteq> c"
      by (metis append.assoc)
    then show ?thesis by (metis replicate_Suc replicate_append_same)
  next
    case False
    then show ?thesis by (intro exI [of _ 0]) (simp add: TrimRightChar_def)
  qed
qed

lemma TrimRightChar_append:
  "TrimRightChar c (s @ u) = (if TrimRightChar c u = [] then TrimRightChar c s else s @ TrimRightChar c u)"
proof (induction u rule: rev_induct)
  case (snoc x u)
  then show ?case by (cases "x = c") (simp_all add: TrimRightChar_def flip: append_assoc)
qed (simp add: TrimRightChar_def)

lemma TrimRightChar_id: "s = [] \<or> last s \<noteq> c \<Longrightarrow> TrimRightChar c s = s"
  by (cases s rule: rev_cases) (auto simp: TrimRightChar_def)

lemma Itoa_chars: "c \<in> set (Itoa n) \<Longrightarrow> c = CHR ''-'' \<or> (\<exists>d<10. c = digit d)"
  using nat_dec_digits by (auto simp: Itoa_def split: if_splits)

lemma last_digit_neq: "last (Itoa n) \<noteq> CHR ''.''"
  using Itoa_no_dot [of n] last_in_set [of "Itoa n"] by (metis Itoa_ne)

lemma trimNumber_digits:
  assumes "CHR ''.'' \<notin> set d" "x \<noteq> []" "last x \<noteq> CHR ''.''"
  shows "trimNumber (x @ ''.'' @ d) =
    x @ (if TrimRightChar (CHR ''0'') d = [] then [] else ''.'' @ TrimRightChar (CHR ''0'') d)"
proof -
  let ?D = "TrimRightChar (CHR ''0'') d"
  have x: "TrimRightChar (CHR ''.'') x = x"
    using assms(3) by (simp add: TrimRightChar_id)
  have dot: "TrimRightChar (CHR ''0'') (''.'' @ d) = ''.'' @ ?D"
    by (simp add: TrimRightChar_append [of _ "''.''" d, simplified]) (simp add: TrimRightChar_def)
  then have z: "TrimRightChar (CHR ''0'') (x @ ''.'' @ d) = x @ ''.'' @ ?D"
    by (subst TrimRightChar_append) simp
  obtain m where "d = ?D @ replicate m (CHR ''0'')" using trim_split by metis
  then have "CHR ''.'' \<notin> set ?D" using assms(1) by (metis UnI1 set_append)
  then have D: "TrimRightChar (CHR ''.'') ?D = ?D"
    by (metis TrimRightChar_id last_in_set)
  show ?thesis
  proof (cases "?D = []")
    case True
    then have "trimNumber (x @ ''.'' @ d) = TrimRightChar (CHR ''.'') (x @ ''.'')"
      by (simp only: trimNumber_def z append_Nil2)
    also have "\<dots> = x" using x by (simp add: TrimRightChar_def)
    finally show ?thesis using True by simp
  next
    case False
    have "TrimRightChar (CHR ''.'') ((x @ ''.'') @ ?D) = (x @ ''.'') @ ?D"
      by (subst TrimRightChar_append) (simp add: D False)
    then have "trimNumber (x @ ''.'' @ d) = (x @ ''.'') @ ?D"
      unfolding trimNumber_def z by simp
    with False show ?thesis by simp
  qed
qed

section \<open>Printing and parsing\<close>

text \<open>The printed amount: whole FIL, and the digits of the fraction without the zeros at its end.\<close>

definition fracDigits :: "int \<Rightarrow> string" where
  "fracDigits f = TrimRightChar (CHR ''0'') (pad_dec 18 (nat (\<bar>f\<bar> mod FilecoinPrecision)))"

lemma FloatString_exact:
  "FloatString 18 f FilecoinPrecision =
     (if f < 0 then ''-'' else []) @ Itoa (\<bar>f\<bar> div FilecoinPrecision) @ ''.'' @
     pad_dec 18 (nat (\<bar>f\<bar> mod FilecoinPrecision))"
proof -
  have P: "(10::int) ^ 18 = FilecoinPrecision" "0 < FilecoinPrecision" "FilecoinPrecision \<noteq> 0"
    by (simp_all add: FilecoinPrecision_def)
  define b where "b = \<bar>f\<bar> mod FilecoinPrecision"
  have "\<not> FilecoinPrecision \<le> b" "0 \<le> b" using P(2) by (simp_all add: b_def not_le)
  then show ?thesis
    unfolding FloatString_def Let_def P(1) b_def [symmetric] using P(2,3) by (simp add: pad_int_nat)
qed

lemma pad_no_dot: "CHR ''.'' \<notin> set (pad_dec w n)"
  by (simp add: pad_dec_def Let_def nat_dec_chars)

lemma Unitless_digits:
  "f \<noteq> 0 \<Longrightarrow> Unitless f = (if f < 0 then ''-'' else []) @ Itoa (\<bar>f\<bar> div FilecoinPrecision) @
     (if fracDigits f = [] then [] else ''.'' @ fracDigits f)"
  using trimNumber_digits [OF pad_no_dot, of "(if f < 0 then ''-'' else []) @ Itoa (\<bar>f\<bar> div FilecoinPrecision)"]
    last_digit_neq
  by (simp add: Unitless_def FloatString_exact fracDigits_def)

lemma fracDigits_value:
  obtains v where "dec_val 0 (fracDigits f) = Some v" "length (fracDigits f) \<le> 18"
    "int v * 10 ^ (18 - length (fracDigits f)) = \<bar>f\<bar> mod FilecoinPrecision"
proof -
  let ?b = "nat (\<bar>f\<bar> mod FilecoinPrecision)"
  obtain m where m: "pad_dec 18 ?b = fracDigits f @ replicate m (CHR ''0'')"
    unfolding fracDigits_def using trim_split by blast
  have "\<bar>f\<bar> mod FilecoinPrecision < FilecoinPrecision" by (simp add: FilecoinPrecision_def)
  then have "?b < 10 ^ Suc 17" by (simp add: FilecoinPrecision_def)
  then have len: "length (fracDigits f) + m = 18"
    using length_pad [of ?b 17] m by simp
  have "dec_val 0 (fracDigits f @ replicate m (CHR ''0'')) = Some ?b"
    using dec_val_pad [of 18 ?b] m by simp
  then obtain v where v: "dec_val 0 (fracDigits f) = Some v" "v * 10 ^ m = ?b"
    by (auto simp: dec_val_append split: option.splits)
  have "int v * 10 ^ m = int ?b" using v(2) by (metis of_nat_mult of_nat_numeral of_nat_power)
  also have "int ?b = \<bar>f\<bar> mod FilecoinPrecision" by (simp add: FilecoinPrecision_def)
  moreover have "18 - length (fracDigits f) = m" using len by simp
  ultimately show ?thesis using that [of v] v(1) len by simp
qed

lemma dec_val_Itoa: "0 \<le> n \<Longrightarrow> dec_val 0 (Itoa n) = Some (nat n)"
  by (simp add: Itoa_def)

lemma parse_mantissa_number:
  assumes "0 \<le> a" "CHR ''.'' \<notin> set d" "dec_val 0 d = Some v"
  shows "parse_mantissa (Itoa a @ (if d = [] then [] else ''.'' @ d))
    = Some (nat a * 10 ^ length d + v, length d)"
proof (cases "d = []")
  case True
  then have "v = 0" using assms(3) by simp
  moreover have "cut_at (CHR ''.'') (Itoa a) = None" by (simp add: cut_at_None Itoa_no_dot)
  ultimately show ?thesis
    using True assms by (simp add: parse_mantissa_def dec_val_Itoa)
next
  case False
  have "cut_at (CHR ''.'') (Itoa a @ CHR ''.'' # d) = Some (Itoa a, d)"
    by (rule cut_at_append) (rule Itoa_no_dot)
  moreover have "dec_val 0 (Itoa a @ d) = Some (nat a * 10 ^ length d + v)"
    using assms by (simp add: dec_val_append dec_val_Itoa dec_val_shift [of "nat a" d])
  ultimately show ?thesis using False by (simp add: parse_mantissa_def)
qed

lemma Itoa_head: "0 \<le> n \<Longrightarrow> \<exists>d<10. \<exists>cs. Itoa n = digit d # cs"
  using nat_dec_digits [of "hd (nat_dec (nat n))" "nat n"]
  by (auto simp: Itoa_def) (metis hd_in_set list.collapse nat_dec_ne)

lemma Rat_SetString_Unitless:
  assumes "f \<noteq> 0"
  obtains n where "Rat_SetString (Unitless f) = Some (n, length (fracDigits f))"
    "n * 10 ^ (18 - length (fracDigits f)) = f" "length (fracDigits f) \<le> 18"
proof -
  let ?a = "\<bar>f\<bar> div FilecoinPrecision" and ?d = "fracDigits f"
  have a: "0 \<le> ?a" by (simp add: FilecoinPrecision_def pos_imp_zdiv_nonneg_iff)
  obtain v where v: "dec_val 0 ?d = Some v" "length ?d \<le> 18"
    "int v * 10 ^ (18 - length ?d) = \<bar>f\<bar> mod FilecoinPrecision"
    by (rule fracDigits_value)
  obtain m where "pad_dec 18 (nat (\<bar>f\<bar> mod FilecoinPrecision)) = ?d @ replicate m (CHR ''0'')"
    unfolding fracDigits_def using trim_split by blast
  then have nodot: "CHR ''.'' \<notin> set ?d" using pad_no_dot by (metis UnI1 set_append)
  define N where "N = nat ?a * 10 ^ length ?d + v"
  note p = parse_mantissa_number [OF a nodot v(1), folded N_def]
  obtain e cs where head: "e < 10" "Itoa ?a = digit e # cs" using Itoa_head [OF a] by blast
  have "int N * 10 ^ (18 - length ?d) = ?a * (10 ^ length ?d * 10 ^ (18 - length ?d)) + \<bar>f\<bar> mod FilecoinPrecision"
    using v(3) a by (simp add: N_def algebra_simps)
  also have "(10::int) ^ length ?d * 10 ^ (18 - length ?d) = FilecoinPrecision"
    using v(2) by (simp flip: power_add add: FilecoinPrecision_def)
  finally have N: "int N * 10 ^ (18 - length ?d) = \<bar>f\<bar>" by simp
  show ?thesis
  proof (cases "f < 0")
    case True
    then have "Rat_SetString (Unitless f) = Some (- int N, length ?d)"
      using p by (simp add: Unitless_digits [OF assms] Rat_SetString_def)
    with that [of "- int N"] N True v(2) show ?thesis by simp
  next
    case False
    then have "Rat_SetString (Unitless f) = Some (int N, length ?d)"
      using p head digit_neq_sign [of e] by (simp add: Unitless_digits [OF assms] Rat_SetString_def)
    with that [of "int N"] N False v(2) show ?thesis by simp
  qed
qed

lemma digit_filChar: "d < 10 \<Longrightarrow> digit d \<in> set filChars"
proof -
  assume "d < 10"
  moreover have "\<forall>d\<in>set [0..<10]. digit d \<in> set filChars" by code_simp
  ultimately show ?thesis by simp
qed

lemma fracDigits_chars: "c \<in> set (fracDigits f) \<Longrightarrow> c \<in> set filChars"
proof -
  assume "c \<in> set (fracDigits f)"
  then have "c \<in> set (pad_dec 18 (nat (\<bar>f\<bar> mod FilecoinPrecision)))"
    unfolding fracDigits_def TrimRightChar_def by (metis set_dropWhileD set_rev)
  then have "c = CHR ''0'' \<or> (\<exists>d<10. c = digit d)"
    using nat_dec_digits by (auto simp: pad_dec_def Let_def)
  then show ?thesis using digit_filChar by (auto simp: filChars_def)
qed

lemma Unitless_chars: "\<forall>c\<in>set (Unitless f). c \<in> set filChars"
proof (cases "f = 0")
  case True
  then show ?thesis by (simp add: Unitless_def filChars_def)
next
  case False
  have i: "\<forall>c\<in>set (Itoa n). c \<in> set filChars" for n
    using Itoa_chars digit_filChar by (fastforce simp: filChars_def)
  have "CHR ''-'' \<in> set filChars" "CHR ''.'' \<in> set filChars" by (simp_all add: filChars_def)
  with i fracDigits_chars show ?thesis
    by (auto simp: Unitless_digits [OF False] split: if_splits)
qed

lemma length_Unitless:
  assumes "\<bar>f\<bar> < 10 ^ 48"
  shows "length (Unitless f) \<le> 50"
proof (cases "f = 0")
  case False
  have "\<bar>f\<bar> div FilecoinPrecision < 10 ^ 30"
    using assms by (simp add: FilecoinPrecision_def div_less_iff_less_mult)
  then have "nat (\<bar>f\<bar> div FilecoinPrecision) < 10 ^ Suc 29" by (simp add: nat_less_iff)
  then have "length (Itoa (\<bar>f\<bar> div FilecoinPrecision)) \<le> 30"
    using length_nat_dec [of _ 29] by (simp add: Itoa_def FilecoinPrecision_def pos_imp_zdiv_neg_iff)
  moreover obtain v where "length (fracDigits f) \<le> 18" by (rule fracDigits_value)
  ultimately show ?thesis by (cases "f < 0") (simp_all add: Unitless_digits [OF False])
qed (simp add: Unitless_def)

section \<open>Properties\<close>



end
