(* ===== verification/ClientDeal.thy ===== *)
theory ClientDeal
  imports VersionMeta Fil "HOL-Library.Word"
begin

text \<open>
  The action of \<open>lotus client deal\<close> (\<open>src/cli/client.go\<close>): the checks of its
  arguments and flags, the proposal it sends, and the version metadata it records after the
  node has accepted the proposal. The node's API and the go-cid, go-address and go-multibase
  packages are arguments of the model; the deal duration bounds come from the actors package.
\<close>

section \<open>Data\<close>

record DealFlags =
  manual_piece_cid :: string
  manual_piece_size :: int
  manual_stateless_deal :: bool
  from_address :: string
  start_epoch :: int
  fast_retrieval :: bool
  verified_deal :: "bool option"
  provider_collateral :: string
  create_flag :: bool
  update_flag :: bool
  previous :: string
  cid_base :: string

datatype TransferType = TTGraphsync | TTManual

record DataRef =
  DataTransferType :: TransferType
  DataRoot :: string
  DataPieceCid :: "string option"
  DataPieceSize :: "64 word"

record StartDealParams =
  Data :: DataRef
  Wallet :: string
  DealMiner :: string
  EpochPrice :: int
  MinBlocksDuration :: "64 word"
  ProviderCollateral :: "int option"
  DealStartEpoch :: int
  FastRetrieval :: bool
  VerifiedDeal :: bool

record deal_env =
  nodeReachable :: bool
  cidParse :: "string \<Rightarrow> string option"
  addressFromString :: "string \<Rightarrow> string option"
  bigFromString :: "string \<Rightarrow> int option"
  MinDealDuration :: int
  MaxDealDuration :: int
  WalletDefaultAddress :: "string option"
  VerifiedClientStatus :: "string \<Rightarrow> int option option"
  ClientStatelessDeal :: "StartDealParams \<Rightarrow> string option"
  ClientStartDeal :: "StartDealParams \<Rightarrow> string option"
  base32Encode :: "string \<Rightarrow> string"
  EncoderByName :: "string \<Rightarrow> (string \<Rightarrow> string) option"

datatype deal_error =
    StatelessInteractive | VersionInteractive | NoNode | DealArgs
  | CreateAndUpdate | CreateWithPrevious | UpdateWithoutPrevious
  | BadDataCid | BadMiner | BadPrice fil_error | BadDuration | BadCollateral
  | DurationTooShort int | DurationTooLong int | BadFrom | NoDefaultAddress
  | BadPieceCid | NoPieceSize | ClientStatus | NotVerified string
  | StatelessNeedsManual | DealRejected | Recording record_error | BadCidBase

section \<open>The proposal\<close>

definition ParseInt32 :: "string \<Rightarrow> int option" where
  "ParseInt32 s =
     (case Atoi s of
        Some n \<Rightarrow> if - (2 ^ 31) \<le> n \<and> n < 2 ^ 31 then Some n else None
      | None \<Rightarrow> None)"

definition need :: "'a option \<Rightarrow> deal_error \<Rightarrow> (deal_error, 'a) outcome" where
  "need x e = (case x of Some a \<Rightarrow> Ok a | None \<Rightarrow> Err e)"

definition check :: "bool \<Rightarrow> deal_error \<Rightarrow> (deal_error, unit) outcome" where
  "check bad e = (if bad then Err e else Ok ())"

definition dealFlagsCheck :: "DealFlags \<Rightarrow> (deal_error, unit) outcome" where
  "dealFlagsCheck fl =
     bindO (check (create_flag fl \<and> update_flag fl) CreateAndUpdate) (\<lambda>_.
     bindO (check (create_flag fl \<and> previous fl \<noteq> []) CreateWithPrevious) (\<lambda>_.
     check (update_flag fl \<and> previous fl = []) UpdateWithoutPrevious))"

definition dealDuration :: "deal_env \<Rightarrow> int \<Rightarrow> (deal_error, unit) outcome" where
  "dealDuration env dur =
     bindO (check (dur < MinDealDuration env) (DurationTooShort (MinDealDuration env))) (\<lambda>_.
     check (dur > MaxDealDuration env) (DurationTooLong (MaxDealDuration env)))"

definition dealFrom :: "deal_env \<Rightarrow> DealFlags \<Rightarrow> (deal_error, string) outcome" where
  "dealFrom env fl =
     (if from_address fl \<noteq> [] then need (addressFromString env (from_address fl)) BadFrom
      else need (WalletDefaultAddress env) NoDefaultAddress)"

definition dealRef :: "deal_env \<Rightarrow> DealFlags \<Rightarrow> string \<Rightarrow> (deal_error, DataRef) outcome" where
  "dealRef env fl data =
     (let ref = \<lparr>DataTransferType = TTGraphsync, DataRoot = data, DataPieceCid = None, DataPieceSize = 0\<rparr> in
      if manual_piece_cid fl = [] then Ok ref
      else bindO (need (cidParse env (manual_piece_cid fl)) BadPieceCid) (\<lambda>c.
           bindO (check (manual_piece_size fl = 0) NoPieceSize) (\<lambda>_.
           Ok (ref\<lparr>DataPieceCid := Some c, DataPieceSize := word_of_int (manual_piece_size fl),
                  DataTransferType := TTManual\<rparr>))))"

definition dealVerified :: "deal_env \<Rightarrow> DealFlags \<Rightarrow> string \<Rightarrow> (deal_error, bool) outcome" where
  "dealVerified env fl a =
     bindO (need (VerifiedClientStatus env a) ClientStatus) (\<lambda>dcap.
       let isVerified = (dcap \<noteq> None) in
       case verified_deal fl of
         None \<Rightarrow> Ok isVerified
       | Some verifiedDealParam \<Rightarrow>
           if verifiedDealParam \<and> \<not> isVerified then Err (NotVerified a) else Ok verifiedDealParam)"

definition priceOf :: "string \<Rightarrow> (deal_error, int) outcome" where
  "priceOf s = (case ParseFIL s of Ok p \<Rightarrow> Ok p | Err e \<Rightarrow> Err (BadPrice e) | Panic \<Rightarrow> Panic)"

definition dealParams :: "deal_env \<Rightarrow> DealFlags \<Rightarrow> string list \<Rightarrow> (deal_error, StartDealParams) outcome" where
  "dealParams env fl args =
     bindO (need (cidParse env (args ! 0)) BadDataCid) (\<lambda>data.
     bindO (need (addressFromString env (args ! 1)) BadMiner) (\<lambda>miner.
     bindO (priceOf (args ! 2)) (\<lambda>price.
     bindO (need (ParseInt32 (args ! 3)) BadDuration) (\<lambda>dur.
     bindO (if provider_collateral fl = [] then Ok None
            else bindO (need (bigFromString env (provider_collateral fl)) BadCollateral) (\<lambda>pc. Ok (Some pc))) (\<lambda>provCol.
     bindO (dealDuration env dur) (\<lambda>_.
     bindO (dealFrom env fl) (\<lambda>a.
     bindO (dealRef env fl data) (\<lambda>ref.
     bindO (dealVerified env fl a) (\<lambda>isVerified.
     Ok \<lparr>Data = ref, Wallet = a, DealMiner = miner, EpochPrice = price, MinBlocksDuration = word_of_int dur,
         ProviderCollateral = provCol, DealStartEpoch = start_epoch fl, FastRetrieval = fast_retrieval fl,
         VerifiedDeal = isVerified\<rparr>)))))))))"

text \<open>
  Which of the two calls is made, and with what; \<open>price.Int64()\<close> reads the low 64 bits of
  the amount.
\<close>

datatype proposal_call = Stateless StartDealParams | Started StartDealParams

definition dealCall :: "DealFlags \<Rightarrow> StartDealParams \<Rightarrow> (deal_error, proposal_call) outcome" where
  "dealCall fl sdParams =
     (if manual_stateless_deal fl
      then if DataTransferType (Data sdParams) \<noteq> TTManual \<or> \<bar>EpochPrice sdParams\<bar> mod 2 ^ 64 \<noteq> 0
           then Err StatelessNeedsManual else Ok (Stateless sdParams)
      else Ok (Started sdParams))"

fun sendProposal :: "deal_env \<Rightarrow> proposal_call \<Rightarrow> string option" where
  "sendProposal env (Stateless p) = ClientStatelessDeal env p"
| "sendProposal env (Started p) = ClientStartDeal env p"

section \<open>The action\<close>

definition dealRecord :: "DealFlags \<Rightarrow> string \<Rightarrow> world \<Rightarrow> world \<times> record_error option" where
  "dealRecord fl dataCidArg w =
     (case (if create_flag fl then recordCreate dataCidArg w else (w, None)) of
        (w1, Some e) \<Rightarrow> (w1, Some e)
      | (w1, None) \<Rightarrow> if update_flag fl then recordUpdate (previous fl) dataCidArg w1 else (w1, None))"

definition GetCidEncoder :: "deal_env \<Rightarrow> string \<Rightarrow> (deal_error, string \<Rightarrow> string) outcome" where
  "GetCidEncoder env val =
     (if val \<noteq> [] then need (EncoderByName env val) BadCidBase else Ok (base32Encode env))"

datatype deal_output = InteractiveDeal | Proposed string

text \<open>
  The machine afterwards, the calls made to the node's deal methods, and the output.
  \<open>InteractiveDeal\<close> hands over to the interactive mode.
\<close>

definition dealAction ::
  "deal_env \<Rightarrow> DealFlags \<Rightarrow> string list \<Rightarrow> world \<Rightarrow> world \<times> proposal_call list \<times> (deal_error, deal_output) outcome" where
  "dealAction env fl args w =
     (if args = [] then
        (w, [], if manual_stateless_deal fl then Err StatelessInteractive
                else if create_flag fl \<or> update_flag fl \<or> previous fl \<noteq> [] then Err VersionInteractive
                else Ok InteractiveDeal)
      else
        case bindO (check (\<not> nodeReachable env) NoNode) (\<lambda>_.
             bindO (check (length args \<noteq> 4) DealArgs) (\<lambda>_.
             bindO (dealFlagsCheck fl) (\<lambda>_.
             bindO (dealParams env fl args) (dealCall fl)))) of
          Err e \<Rightarrow> (w, [], Err e)
        | Panic \<Rightarrow> (w, [], Panic)
        | Ok call \<Rightarrow>
            (case sendProposal env call of
               None \<Rightarrow> (w, [call], Err DealRejected)
             | Some proposal \<Rightarrow>
                 (case dealRecord fl (args ! 0) w of
                    (w', Some e) \<Rightarrow> (w', [call], Err (Recording e))
                  | (w', None) \<Rightarrow>
                      (w', [call], bindO (GetCidEncoder env (cid_base fl)) (\<lambda>enc. Ok (Proposed (enc proposal)))))))"

section \<open>Lemmas\<close>

lemma check_Ok [simp]: "check b e = Ok u \<longleftrightarrow> \<not> b"
  by (simp add: check_def)

lemma need_Ok [simp]: "need x e = Ok a \<longleftrightarrow> x = Some a"
  by (auto simp: need_def split: option.split)

lemma dealParams_duration:
  assumes "dealParams env fl args = Ok p"
  shows "\<exists>dur. ParseInt32 (args ! 3) = Some dur \<and> MinBlocksDuration p = word_of_int dur \<and>
    MinDealDuration env \<le> dur \<and> dur \<le> MaxDealDuration env"
  using assms by (auto simp: dealParams_def bindO_eq_Ok dealDuration_def)

lemma dealParams_verified:
  assumes "dealParams env fl args = Ok p" "VerifiedDeal p"
  shows "\<exists>cap. VerifiedClientStatus env (Wallet p) = Some (Some cap)"
  using assms by (auto simp: dealParams_def bindO_eq_Ok dealVerified_def Let_def split: option.splits if_splits)

lemma ParseInt32_word: "ParseInt32 s = Some dur \<Longrightarrow> 0 \<le> dur \<Longrightarrow> uint (word_of_int dur :: 64 word) = dur"
  by (auto simp: ParseInt32_def uint_word_of_int intro!: mod_pos_pos_trivial split: option.splits if_splits)

fun callParams :: "proposal_call \<Rightarrow> StartDealParams" where
  "callParams (Stateless p) = p"
| "callParams (Started p) = p"

lemma dealCall_params: "dealCall fl p = Ok call \<Longrightarrow> callParams call = p"
  by (auto simp: dealCall_def split: if_splits)

lemma dealAction_call:
  assumes "dealAction env fl args w = (w', calls, r)" "call \<in> set calls"
  shows "calls = [call] \<and> length args = 4 \<and> dealFlagsCheck fl = Ok () \<and>
    dealParams env fl args = Ok (callParams call) \<and> dealCall fl (callParams call) = Ok call"
proof -
  let ?c = "bindO (check (\<not> nodeReachable env) NoNode) (\<lambda>_. bindO (check (length args \<noteq> 4) DealArgs) (\<lambda>_.
     bindO (dealFlagsCheck fl) (\<lambda>_. bindO (dealParams env fl args) (dealCall fl))))"
  have "calls = [call] \<and> ?c = Ok call"
    using assms by (auto simp: dealAction_def split: if_splits outcome.splits option.splits prod.splits)
  then show ?thesis by (auto simp: bindO_eq_Ok dest: dealCall_params)
qed

lemma dealAction_recorded:
  assumes "dealAction env fl args w = (w', [call], r)" "sendProposal env call = Some reply"
  shows "\<exists>e. dealRecord fl (args ! 0) w = (w', e) \<and>
    r = (case e of Some e \<Rightarrow> Err (Recording e)
         | None \<Rightarrow> bindO (GetCidEncoder env (cid_base fl)) (\<lambda>enc. Ok (Proposed (enc reply))))"
  using assms by (auto simp: dealAction_def split: if_splits outcome.splits option.splits prod.splits)

lemma dealParams_cid: "dealParams env fl args = Ok p \<Longrightarrow> cidParse env (args ! 0) \<noteq> None"
  by (auto simp: dealParams_def bindO_eq_Ok)

lemma dealAction_Proposed:
  assumes "dealAction env fl args w = (w', calls, Ok (Proposed s))"
  shows "dealRecord fl (args ! 0) w = (w', None) \<and> dealFlagsCheck fl = Ok () \<and> cidParse env (args ! 0) \<noteq> None"
proof -
  obtain call where c: "calls = [call]"
    using assms by (auto simp: dealAction_def split: if_splits outcome.splits option.splits prod.splits)
  with assms obtain reply where s: "sendProposal env call = Some reply"
    by (auto simp: dealAction_def split: if_splits outcome.splits option.splits prod.splits)
  from dealAction_recorded [OF assms [unfolded c] s] dealAction_call [OF assms, of call] c
  show ?thesis by (auto split: option.splits dest: dealParams_cid)
qed

section \<open>Properties\<close>


text \<open>
  C36: After a successful \<open>deal --create\<close> the data is a file with one version, and after a
  successful \<open>deal --update\<close> of the newest version of a chain the data is the next version:
  \<open>list-version\<close> prints the chain with it at the end.
\<close>

theorem deal_versions_listed:
  assumes "dealAction env fl args w = (w', calls, Ok (Proposed s))"
    and "cid_ok (args ! 0)" "meta_writable w (args ! 0)"
    and "update_flag fl \<Longrightarrow> chain_ok w cs \<and> previous fl = last cs \<and> args ! 0 \<notin> set cs \<and>
      meta_writable w (hd cs) \<and> meta_writable w (last cs) \<and> (\<forall>c\<in>set cs. cidParse env c \<noteq> None)"
  shows "(create_flag fl \<longrightarrow> listVersion (cidParse env) [args ! 0] w' = Some (Ok (VersionChain [args ! 0]))) \<and>
    (update_flag fl \<longrightarrow> listVersion (cidParse env) [hd cs] w' = Some (Ok (VersionChain (cs @ [args ! 0]))))"
proof (intro conjI impI)
  have rec: "dealRecord fl (args ! 0) w = (w', None)" "dealFlagsCheck fl = Ok ()" "cidParse env (args ! 0) \<noteq> None"
    using dealAction_Proposed [OF assms(1)] by auto
  show "listVersion (cidParse env) [args ! 0] w' = Some (Ok (VersionChain [args ! 0]))" if "create_flag fl"
  proof -
    have rc: "recordCreate (args ! 0) w = (w', None)"
      using rec that by (auto simp: dealRecord_def dealFlagsCheck_def bindO_eq_Ok split: prod.splits option.splits if_splits)
    then have "\<not> write_fails w ''fileroots.log''" "\<not> dirs w ''fileroots.log''"
      by (auto simp: recordCreate_def os_AppendFile_def split: if_splits)
    then have "chain_ok w' [args ! 0]" "meta_writable w' (args ! 0)"
      using recordCreate_chain [OF assms(3) _ _ assms(2)] rc assms(3) by (metis prod.inject)+
    then show ?thesis using rec(3) by (auto intro!: chain_listed simp: meta_writable_def)
  qed
  show "listVersion (cidParse env) [hd cs] w' = Some (Ok (VersionChain (cs @ [args ! 0])))" if "update_flag fl"
  proof -
    note u = assms(4) [OF that]
    have up: "recordUpdate (last cs) (args ! 0) w = (w', None)"
      using rec that assms(4) by (auto simp: dealRecord_def dealFlagsCheck_def bindO_eq_Ok split: if_splits)
    have "chain_ok w' (cs @ [args ! 0])" "meta_writable w' (hd cs)"
      using recordUpdate_chain [of w cs "args ! 0"] assms(2,3) u up by (metis prod.inject)+
    moreover obtain b bs where "cs = b # bs" using u by (cases cs) (auto simp: chain_ok_def)
    ultimately show ?thesis
      using rec(3) u by (auto intro!: chain_listed simp: meta_writable_def)
  qed
qed

text \<open>
  An update whose previous version has no readable metadata has already been proposed to
  the miner when the command fails: the deal stands and no version is recorded.
\<close>

theorem deal_update_unrecorded:
  assumes "dealAction env fl args w = (w', [call], r)" "sendProposal env call = Some reply"
    and "update_flag fl" "os_ReadFile w (metaPath (previous fl)) = Err e"
  shows "r = Err (Recording (ReadMeta (metaPath (previous fl)))) \<and> w' = w"
proof -
  have "\<not> create_flag fl"
    using dealAction_call [OF assms(1), of call] assms(3) by (auto simp: dealFlagsCheck_def bindO_eq_Ok)
  then have "dealRecord fl (args ! 0) w = (w, Some (ReadMeta (metaPath (previous fl))))"
    using assms(3,4) by (simp add: dealRecord_def recordUpdate_def)
  then show ?thesis using dealAction_recorded [OF assms(1,2)] by auto
qed

section \<open>Witnesses\<close>

definition demoDealEnv :: deal_env where
  "demoDealEnv = \<lparr>nodeReachable = True, cidParse = Some, addressFromString = Some, bigFromString = Atoi,
     MinDealDuration = 10, MaxDealDuration = 30, WalletDefaultAddress = Some ''f01'',
     VerifiedClientStatus = (\<lambda>_. Some None), ClientStatelessDeal = (\<lambda>_. Some ''p''), ClientStartDeal = (\<lambda>_. Some ''p''),
     base32Encode = id, EncoderByName = (\<lambda>_. None)\<rparr>"

definition demoFlags :: DealFlags where
  "demoFlags = \<lparr>manual_piece_cid = [], manual_piece_size = 0, manual_stateless_deal = False, from_address = [],
     start_epoch = -1, fast_retrieval = True, verified_deal = None, provider_collateral = [],
     create_flag = False, update_flag = False, previous = [], cid_base = []\<rparr>"

definition demoArgs :: "string list" where
  "demoArgs = [''bafy1'', ''f02'', ''1'', ''20'']"

definition createDeal :: "world \<times> proposal_call list \<times> (deal_error, deal_output) outcome" where
  "createDeal = dealAction demoDealEnv (demoFlags\<lparr>create_flag := True\<rparr>) demoArgs emptyWorld"

lemma createDeal_result: "snd (snd createDeal) = Ok (Proposed ''p'')" "length (fst (snd createDeal)) = 1"
  by (code_simp, code_simp)


lemma demoArgs_cid: "cid_ok (demoArgs ! 0)" "meta_writable emptyWorld (demoArgs ! 0)"
  by (simp_all add: demoArgs_def cid_ok_def meta_writable_def NULL_def plain_char_def asciiSpace_def)

theorem deal_versions_listed_witness:
  "listVersion Some [''bafy1''] (fst createDeal) = Some (Ok (VersionChain [''bafy1'']))"
proof -
  have "dealAction demoDealEnv (demoFlags\<lparr>create_flag := True\<rparr>) demoArgs emptyWorld =
      (fst createDeal, fst (snd createDeal), Ok (Proposed ''p''))"
    using createDeal_result(1) by (simp add: createDeal_def prod_eq_iff)
  from deal_versions_listed [OF this demoArgs_cid, of "[]"] show ?thesis
    by (simp add: demoFlags_def demoDealEnv_def demoArgs_def)
qed

definition updateDeal :: "world \<times> proposal_call list \<times> (deal_error, deal_output) outcome" where
  "updateDeal = dealAction demoDealEnv (demoFlags\<lparr>update_flag := True, previous := ''bafy0''\<rparr>) demoArgs emptyWorld"

lemma updateDeal_call: "\<exists>call. fst (snd updateDeal) = [call] \<and> sendProposal demoDealEnv call = Some ''p''"
proof -
  have "list_all (\<lambda>c. sendProposal demoDealEnv c = Some ''p'') (fst (snd updateDeal))" "length (fst (snd updateDeal)) = 1"
    by (code_simp, code_simp)
  then show ?thesis by (cases "fst (snd updateDeal)") auto
qed

theorem deal_update_unrecorded_witness:
  "snd (snd updateDeal) = Err (Recording (ReadMeta ''bafy0_meta''))"
proof -
  obtain call where c: "fst (snd updateDeal) = [call]" "sendProposal demoDealEnv call = Some ''p''"
    using updateDeal_call by blast
  have "dealAction demoDealEnv (demoFlags\<lparr>update_flag := True, previous := ''bafy0''\<rparr>) demoArgs emptyWorld =
      (fst updateDeal, [call], snd (snd updateDeal))"
    using c(1) by (simp add: updateDeal_def prod_eq_iff)
  from deal_update_unrecorded [OF this c(2)] show ?thesis
    by (simp add: os_ReadFile_def metaPath_def)
qed

end
