(* ===== verification/ClientRetrieve.thy ===== *)
theory ClientRetrieve
  imports VersionMeta Fil "HOL-Library.Word"
begin

text \<open>
  The action of \<open>lotus client retrieve-version\<close> (\<open>src/cli/client_retr.go\<close>): it
  resolves the chain of a version, retrieves the root and every patch into temporary files,
  and applies the patches one after the other. The node's API, \<open>bspatch\<close> and the go-cid and
  go-address packages are arguments of the model.
\<close>

section \<open>Data\<close>

record QueryOffer =
  OfferErr :: string
  OfferRoot :: string
  OfferPiece :: "string option"
  OfferSize :: "64 word"
  MinPrice :: int
  OfferUnsealPrice :: int
  OfferPricePerByte :: int
  OfferPaymentInterval :: "64 word"
  OfferPaymentIntervalIncrease :: "64 word"
  OfferMiner :: string
  OfferMinerPeer :: string

record RetrievalOrder =
  OrderRoot :: string
  OrderPiece :: "string option"
  OrderDataSelector :: "string option"
  OrderSize :: "64 word"
  OrderTotal :: int
  OrderUnsealPrice :: int
  OrderPaymentInterval :: "64 word"
  OrderPaymentIntervalIncrease :: "64 word"
  OrderClient :: string
  OrderMiner :: string
  OrderMinerPeer :: string

definition Order :: "QueryOffer \<Rightarrow> string \<Rightarrow> RetrievalOrder" where
  "Order q client =
     \<lparr>OrderRoot = OfferRoot q, OrderPiece = OfferPiece q, OrderDataSelector = None, OrderSize = OfferSize q, OrderTotal = MinPrice q,
      OrderUnsealPrice = OfferUnsealPrice q, OrderPaymentInterval = OfferPaymentInterval q,
      OrderPaymentIntervalIncrease = OfferPaymentIntervalIncrease q, OrderClient = client,
      OrderMiner = OfferMiner q, OrderMinerPeer = OfferMinerPeer q\<rparr>"

datatype DealStatus =
    DealStatusCompleted | DealStatusRejected | DealStatusCancelled
  | DealStatusDealNotFound | DealStatusErrored | DealStatusOther nat

record RetrievalInfo =
  RetrID :: nat
  RetrStatus :: DealStatus
  RetrMessage :: string

text \<open>What one \<open>select\<close> of the event loop receives.\<close>

datatype retr_select = RetrDone | RetrEvent RetrievalInfo

record ExportRef =
  ExportRoot :: string
  ExportDAGs :: "string list"
  FromLocalCAR :: string
  ExportDealID :: nat

record RetrieveFlags =
  retr_from :: string
  provider :: string
  maxPriceFlag :: string
  allow_local :: bool

record retr_env =
  nodeV1 :: bool
  parseCid :: "string \<Rightarrow> string option"
  parseAddress :: "string \<Rightarrow> string option"
  defaultAddress :: "string option"
  hasBspatch :: bool
  ClientListImports :: "(string option \<times> string) list option"
  ClientFindData :: "string \<Rightarrow> QueryOffer list option"
  ClientMinerQueryOffer :: "string \<Rightarrow> string \<Rightarrow> QueryOffer option"
  RetrievalUpdates :: bool
  ClientRetrieve :: "RetrievalOrder \<Rightarrow> nat option"
  retrSelects :: "RetrievalOrder \<Rightarrow> retr_select list"
  ClientExport :: "ExportRef \<Rightarrow> string \<Rightarrow> world \<Rightarrow> world \<times> bool"
  Bspatch :: "string \<Rightarrow> string \<Rightarrow> string \<Rightarrow> world \<Rightarrow> world \<times> bool"

datatype retr_error =
    RetrArgs | RetrTargetCid | OutputExists | OutputCheck | RetrNoNode | RetrPayer | RetrMaxPrice
  | RetrChain meta_error | EmptyChain | NoBspatch | RetrImports | RetrCid string | StaleTemp string
  | FindFailed | NoProviders string | BadProvider | QueryFailed | OfferFailed string string
  | TooExpensive string | UpdatesFailed string | RetrieveFailed string | RetrTimedOut
  | RetrRejected string string | RetrCancelled string string | RetrErrored string string
  | ExportFailed string string | MoveRoot | StaleWork string | PatchFailed string
  | RemoveOutput | ReplaceOutput string | CleanPatch string

section \<open>Retrieving one version\<close>

text \<open>The event loop; \<open>None\<close> is a loop that still waits for the node.\<close>

fun readEvents :: "string \<Rightarrow> nat \<Rightarrow> retr_select list \<Rightarrow> (retr_error, unit) outcome option" where
  "readEvents chainCid dealID [] = None"
| "readEvents chainCid dealID (RetrDone # sels) = Some (Err RetrTimedOut)"
| "readEvents chainCid dealID (RetrEvent evt # sels) =
     (if RetrID evt \<noteq> dealID then readEvents chainCid dealID sels
      else case RetrStatus evt of
             DealStatusCompleted \<Rightarrow> Some (Ok ())
           | DealStatusRejected \<Rightarrow> Some (Err (RetrRejected chainCid (RetrMessage evt)))
           | DealStatusCancelled \<Rightarrow> Some (Err (RetrCancelled chainCid (RetrMessage evt)))
           | DealStatusDealNotFound \<Rightarrow> Some (Err (RetrErrored chainCid (RetrMessage evt)))
           | DealStatusErrored \<Rightarrow> Some (Err (RetrErrored chainCid (RetrMessage evt)))
           | DealStatusOther _ \<Rightarrow> readEvents chainCid dealID sels)"

definition offer_less :: "QueryOffer \<Rightarrow> QueryOffer \<Rightarrow> bool" where
  "offer_less a b \<longleftrightarrow> MinPrice a < MinPrice b"

definition findOffer :: "retr_env \<Rightarrow> RetrieveFlags \<Rightarrow> string \<Rightarrow> string \<Rightarrow> (retr_error, QueryOffer) outcome" where
  "findOffer env fl chainCid file =
     (if provider fl = [] then
        case ClientFindData env file of
          None \<Rightarrow> Err FindFailed
        | Some offers \<Rightarrow>
            (case sort_by offer_less (filter (\<lambda>q. OfferErr q = []) offers) of
               [] \<Rightarrow> Err (NoProviders chainCid)
             | offer # _ \<Rightarrow> Ok offer)
      else case parseAddress env (provider fl) of
             None \<Rightarrow> Err BadProvider
           | Some minerAddr \<Rightarrow>
               (case ClientMinerQueryOffer env minerAddr file of
                  None \<Rightarrow> Err QueryFailed
                | Some offer \<Rightarrow> Ok offer))"

definition fetchRef ::
  "retr_env \<Rightarrow> RetrieveFlags \<Rightarrow> string \<Rightarrow> int \<Rightarrow> (string \<rightharpoonup> string) \<Rightarrow> string \<Rightarrow> string \<Rightarrow> (retr_error, ExportRef) outcome option" where
  "fetchRef env fl payer maxPrice localImports chainCid file =
     (case localImports file of
        Some carPath \<Rightarrow> Some (Ok \<lparr>ExportRoot = file, ExportDAGs = [], FromLocalCAR = carPath, ExportDealID = 0\<rparr>)
      | None \<Rightarrow>
          (case findOffer env fl chainCid file of
             Err e \<Rightarrow> Some (Err e)
           | Panic \<Rightarrow> Some Panic
           | Ok offer \<Rightarrow>
               if OfferErr offer \<noteq> [] then Some (Err (OfferFailed chainCid (OfferErr offer)))
               else if MinPrice offer > maxPrice then Some (Err (TooExpensive chainCid))
               else if \<not> RetrievalUpdates env then Some (Err (UpdatesFailed chainCid))
               else let order = Order offer payer in
                 case ClientRetrieve env order of
                   None \<Rightarrow> Some (Err (RetrieveFailed chainCid))
                 | Some dealID \<Rightarrow>
                     map_option (\<lambda>r. bindO r (\<lambda>_. Ok \<lparr>ExportRoot = file, ExportDAGs = [], FromLocalCAR = [], ExportDealID = dealID\<rparr>))
                       (readEvents chainCid dealID (retrSelects env order))))"

definition tmpPath :: "string \<Rightarrow> nat \<Rightarrow> string" where
  "tmpPath outputPath i = outputPath @ ''_tmp_'' @ Itoa (int i)"

definition workPath :: "string \<Rightarrow> nat \<Rightarrow> string" where
  "workPath outputPath i = outputPath @ ''_work_'' @ Itoa (int i)"

text \<open>\<open>os.Remove\<close> where a file that is not there is no error.\<close>

definition removeStale :: "world \<Rightarrow> string \<Rightarrow> world option" where
  "removeStale w p =
     (case os_Remove w p of Ok w' \<Rightarrow> Some w' | Err ErrNotExist \<Rightarrow> Some w | _ \<Rightarrow> None)"

definition retrieveOne ::
  "retr_env \<Rightarrow> RetrieveFlags \<Rightarrow> string \<Rightarrow> int \<Rightarrow> (string \<rightharpoonup> string) \<Rightarrow> string \<Rightarrow> nat \<Rightarrow> string \<Rightarrow> world \<Rightarrow>
   (world \<times> (retr_error, unit) outcome) option" where
  "retrieveOne env fl payer maxPrice localImports outputPath i chainCid w =
     (case parseCid env chainCid of
        None \<Rightarrow> Some (w, Err (RetrCid chainCid))
      | Some file \<Rightarrow>
          (case removeStale w (tmpPath outputPath i) of
             None \<Rightarrow> Some (w, Err (StaleTemp (tmpPath outputPath i)))
           | Some w1 \<Rightarrow>
               map_option (\<lambda>r. case r of
                   Err e \<Rightarrow> (w1, Err e)
                 | Panic \<Rightarrow> (w1, Panic)
                 | Ok eref \<Rightarrow>
                     (case ClientExport env eref (tmpPath outputPath i) w1 of
                        (w2, True) \<Rightarrow> (w2, Ok ())
                      | (w2, False) \<Rightarrow> (w2, Err (ExportFailed chainCid (tmpPath outputPath i)))))
                 (fetchRef env fl payer maxPrice localImports chainCid file)))"

fun retrieveAll ::
  "(nat \<Rightarrow> string \<Rightarrow> world \<Rightarrow> (world \<times> (retr_error, unit) outcome) option) \<Rightarrow> nat \<Rightarrow> string list \<Rightarrow> world \<Rightarrow>
   (world \<times> (retr_error, unit) outcome) option" where
  "retrieveAll one i [] w = Some (w, Ok ())"
| "retrieveAll one i (c # cs) w =
     (case one i c w of
        None \<Rightarrow> None
      | Some (w1, Ok _) \<Rightarrow> retrieveAll one (Suc i) cs w1
      | Some r \<Rightarrow> Some r)"

section \<open>Applying the patches\<close>

definition patchOne :: "retr_env \<Rightarrow> string \<Rightarrow> nat \<Rightarrow> world \<Rightarrow> world \<times> retr_error option" where
  "patchOne env outputPath i w =
     (case removeStale w (workPath outputPath i) of
        None \<Rightarrow> (w, Some (StaleWork (workPath outputPath i)))
      | Some w1 \<Rightarrow>
          (case Bspatch env outputPath (workPath outputPath i) (tmpPath outputPath i) w1 of
             (w2, False) \<Rightarrow> (w2, Some (PatchFailed (tmpPath outputPath i)))
           | (w2, True) \<Rightarrow>
               (case removeStale w2 outputPath of
                  None \<Rightarrow> (w2, Some RemoveOutput)
                | Some w3 \<Rightarrow>
                    (case os_Rename w3 (workPath outputPath i) outputPath of
                       Ok w4 \<Rightarrow>
                         (case removeStale w4 (tmpPath outputPath i) of
                            None \<Rightarrow> (w4, Some (CleanPatch (tmpPath outputPath i)))
                          | Some w5 \<Rightarrow> (w5, None))
                     | _ \<Rightarrow> (w3, Some (ReplaceOutput (workPath outputPath i)))))))"

fun patchAll :: "retr_env \<Rightarrow> string \<Rightarrow> nat \<Rightarrow> nat \<Rightarrow> world \<Rightarrow> world \<times> retr_error option" where
  "patchAll env outputPath i 0 w = (w, None)"
| "patchAll env outputPath i (Suc n) w =
     (case patchOne env outputPath i w of
        (w1, None) \<Rightarrow> patchAll env outputPath (Suc i) n w1
      | r \<Rightarrow> r)"

section \<open>The action\<close>

definition DefaultMaxRetrievePrice :: string where
  "DefaultMaxRetrievePrice = ''0''"

definition retrPayer :: "retr_env \<Rightarrow> RetrieveFlags \<Rightarrow> string option" where
  "retrPayer env fl = (if retr_from fl \<noteq> [] then parseAddress env (retr_from fl) else defaultAddress env)"

definition retrMaxPrice :: "RetrieveFlags \<Rightarrow> (retr_error, int) outcome" where
  "retrMaxPrice fl =
     (if maxPriceFlag fl \<noteq> []
      then case ParseFIL (maxPriceFlag fl) of Ok p \<Rightarrow> Ok p | Err _ \<Rightarrow> Err RetrMaxPrice | Panic \<Rightarrow> Panic
      else case MustParseFIL DefaultMaxRetrievePrice of Ok p \<Rightarrow> Ok p | _ \<Rightarrow> Panic)"

definition retrImports :: "retr_env \<Rightarrow> RetrieveFlags \<Rightarrow> (string \<rightharpoonup> string) option" where
  "retrImports env fl =
     (if allow_local fl
      then map_option (foldl (\<lambda>m (root, carPath). case root of Some r \<Rightarrow> m(r \<mapsto> carPath) | None \<Rightarrow> m) Map.empty)
             (ClientListImports env)
      else Some Map.empty)"

definition retrieveChain ::
  "retr_env \<Rightarrow> RetrieveFlags \<Rightarrow> string \<Rightarrow> int \<Rightarrow> string \<Rightarrow> string list \<Rightarrow> world \<Rightarrow> (world \<times> (retr_error, unit) outcome) option" where
  "retrieveChain env fl payer maxPrice outputPath versionChain w =
     (if versionChain = [] then Some (w, Err EmptyChain)
      else if 1 < length versionChain \<and> \<not> hasBspatch env then Some (w, Err NoBspatch)
      else case retrImports env fl of
             None \<Rightarrow> Some (w, Err RetrImports)
           | Some localImports \<Rightarrow>
               map_option (\<lambda>(w1, r). case r of
                   Ok _ \<Rightarrow>
                     (case os_Rename w1 (tmpPath outputPath 0) outputPath of
                        Ok w2 \<Rightarrow>
                          (case patchAll env outputPath 1 (length versionChain - 1) w2 of
                             (w3, None) \<Rightarrow> (w3, Ok ())
                           | (w3, Some e) \<Rightarrow> (w3, Err e))
                      | _ \<Rightarrow> (w1, Err MoveRoot))
                 | _ \<Rightarrow> (w1, r))
                 (retrieveAll (retrieveOne env fl payer maxPrice localImports outputPath) 0 versionChain w))"

definition retrieveVersion ::
  "retr_env \<Rightarrow> RetrieveFlags \<Rightarrow> string list \<Rightarrow> world \<Rightarrow> (world \<times> (retr_error, unit) outcome) option" where
  "retrieveVersion env fl args w =
     (if length args \<noteq> 2 then Some (w, Err RetrArgs)
      else let target = args ! 0; outputPath = args ! 1 in
        if parseCid env target = None then Some (w, Err RetrTargetCid)
        else case os_Stat w outputPath of
               Ok _ \<Rightarrow> Some (w, Err OutputExists)
             | Err ErrOther \<Rightarrow> Some (w, Err OutputCheck)
             | Panic \<Rightarrow> Some (w, Panic)
             | Err ErrNotExist \<Rightarrow>
                 if \<not> nodeV1 env then Some (w, Err RetrNoNode)
                 else case retrPayer env fl of
                        None \<Rightarrow> Some (w, Err RetrPayer)
                      | Some payer \<Rightarrow>
                          (case retrMaxPrice fl of
                             Err e \<Rightarrow> Some (w, Err e)
                           | Panic \<Rightarrow> Some (w, Panic)
                           | Ok maxPrice \<Rightarrow>
                               (case resolveChain (parseCid env) target w of
                                  None \<Rightarrow> None
                                | Some (Err e) \<Rightarrow> Some (w, Err (RetrChain e))
                                | Some Panic \<Rightarrow> Some (w, Panic)
                                | Some (Ok versionChain) \<Rightarrow>
                                    retrieveChain env fl payer maxPrice outputPath versionChain w)))"

section \<open>Paths\<close>

interpretation offer_order: slice_less offer_less
  by unfold_locales (auto simp: offer_less_def)

lemma Itoa_int_inject [simp]: "Itoa (int i) = Itoa (int j) \<longleftrightarrow> i = j"
  using Itoa_inj [of "int i" "int j"] by auto

lemma paths_distinct [simp]:
  "tmpPath p i = tmpPath p j \<longleftrightarrow> i = j" "workPath p i = workPath p j \<longleftrightarrow> i = j"
  "tmpPath p i \<noteq> workPath p j" "workPath p j \<noteq> tmpPath p i"
  "tmpPath p i \<noteq> p" "p \<noteq> tmpPath p i" "workPath p i \<noteq> p" "p \<noteq> workPath p i"
  by (simp_all add: tmpPath_def workPath_def)

section \<open>What the command relies on\<close>

text \<open>
  The node's export writes the data of a root to the path it is given; \<open>bspatch\<close> writes the
  patched old file to the new one. \<open>data\<close> and \<open>patched\<close> say what the data are and what
  patching gives.
\<close>

definition writable :: "world \<Rightarrow> string \<Rightarrow> bool" where
  "writable w p \<longleftrightarrow> \<not> write_fails w p \<and> \<not> dirs w p"

definition export_writes :: "retr_env \<Rightarrow> (string \<rightharpoonup> string) \<Rightarrow> bool" where
  "export_writes env data \<longleftrightarrow>
     (\<forall>eref p w d. data (ExportRoot eref) = Some d \<longrightarrow> writable w p \<longrightarrow>
        ClientExport env eref p w = (w\<lparr>content := (content w)(p \<mapsto> d)\<rparr>, True))"

definition bspatch_writes :: "retr_env \<Rightarrow> (string \<Rightarrow> string \<Rightarrow> string option) \<Rightarrow> bool" where
  "bspatch_writes env patched \<longleftrightarrow>
     (\<forall>old new p w x d y. content w old = Some x \<longrightarrow> content w p = Some d \<longrightarrow> patched x d = Some y \<longrightarrow>
        writable w new \<longrightarrow> Bspatch env old new p w = (w\<lparr>content := (content w)(new \<mapsto> y)\<rparr>, True))"

definition rebuilt :: "(string \<Rightarrow> string \<Rightarrow> string option) \<Rightarrow> string list \<Rightarrow> string option" where
  "rebuilt patched ds = foldl (\<lambda>x d. Option.bind x (\<lambda>x. patched x d)) (Some (hd ds)) (tl ds)"

text \<open>Every version of the chain can be had, and its data are \<open>ds\<close>.\<close>

definition available ::
  "retr_env \<Rightarrow> RetrieveFlags \<Rightarrow> string \<Rightarrow> int \<Rightarrow> (string \<rightharpoonup> string) \<Rightarrow> (string \<rightharpoonup> string) \<Rightarrow> string \<Rightarrow> string \<Rightarrow> bool" where
  "available env fl payer maxPrice localImports data c d =
     (case parseCid env c of
        None \<Rightarrow> False
      | Some file \<Rightarrow> data file = Some d \<and>
          (case fetchRef env fl payer maxPrice localImports c file of Some (Ok _) \<Rightarrow> True | _ \<Rightarrow> False))"

section \<open>Lemmas\<close>

lemma removeStale_ok: "writable w p \<Longrightarrow> removeStale w p = Some (w\<lparr>content := (content w)(p := None)\<rparr>)"
  by (auto simp: removeStale_def os_Remove_def writable_def fun_upd_idem split: option.split)

lemma fetchRef_root: "fetchRef env fl payer maxPrice localImports c file = Some (Ok ref) \<Longrightarrow> ExportRoot ref = file"
  by (auto simp: fetchRef_def Let_def bindO_eq_Ok split: option.splits outcome.splits if_splits)

lemma writable_content [simp]: "writable (w\<lparr>content := m\<rparr>) p = writable w p"
  by (simp add: writable_def)

lemma retrieveOne_ok:
  assumes "export_writes env data" "available env fl payer maxPrice localImports data c d"
    and "writable w (tmpPath out i)"
  shows "retrieveOne env fl payer maxPrice localImports out i c w =
    Some (w\<lparr>content := (content w)(tmpPath out i \<mapsto> d)\<rparr>, Ok ())"
proof -
  obtain f ref where r: "parseCid env c = Some f" "data f = Some d"
    "fetchRef env fl payer maxPrice localImports c f = Some (Ok ref)"
    using assms(2) by (auto simp: available_def split: option.splits outcome.splits)
  with fetchRef_root [OF r(3)] assms(1,3) show ?thesis
    by (simp add: retrieveOne_def removeStale_ok export_writes_def)
qed

fun putTmps :: "string \<Rightarrow> nat \<Rightarrow> string list \<Rightarrow> (string \<rightharpoonup> string) \<Rightarrow> (string \<rightharpoonup> string)" where
  "putTmps out i [] m = m"
| "putTmps out i (d # ds) m = putTmps out (Suc i) ds (m(tmpPath out i \<mapsto> d))"

lemma putTmps_other: "\<forall>j\<ge>i. p \<noteq> tmpPath out j \<Longrightarrow> putTmps out i ds m p = m p"
  by (induction out i ds m rule: putTmps.induct) auto

lemma putTmps_nth: "j < length ds \<Longrightarrow> putTmps out i ds m (tmpPath out (i + j)) = Some (ds ! j)"
proof (induction out i ds m arbitrary: j rule: putTmps.induct)
  case (2 out i d ds m)
  then show ?case using "2.IH" [of "j - 1"] by (cases j) (simp_all add: putTmps_other del: fun_upd_apply, simp)
qed simp

lemma retrieveAll_ok:
  assumes "export_writes env data"
  shows "list_all2 (available env fl payer maxPrice localImports data) cs ds \<Longrightarrow>
    \<forall>j. writable w (tmpPath out j) \<Longrightarrow>
    retrieveAll (retrieveOne env fl payer maxPrice localImports out) i cs w =
      Some (w\<lparr>content := putTmps out i ds (content w)\<rparr>, Ok ())"
  by (induction cs ds arbitrary: i w rule: list_all2_induct) (simp_all add: retrieveOne_ok [OF assms])

lemma patchOne_ok:
  assumes "bspatch_writes env patched" "content w out = Some x" "content w (tmpPath out i) = Some d" "patched x d = Some y"
    and "writable w out" "\<forall>j. writable w (tmpPath out j) \<and> writable w (workPath out j)"
  shows "patchOne env out i w =
    (w\<lparr>content := (content w)(out \<mapsto> y, workPath out i := None, tmpPath out i := None)\<rparr>, None)"
proof -
  let ?w1 = "w\<lparr>content := (content w)(workPath out i := None)\<rparr>"
  have "Bspatch env out (workPath out i) (tmpPath out i) ?w1 =
      (w\<lparr>content := (content w)(workPath out i \<mapsto> y)\<rparr>, True)"
    using assms(1) [unfolded bspatch_writes_def, rule_format, of ?w1 out x "tmpPath out i" d y "workPath out i"] assms
    by simp
  moreover have "(content w)(workPath out i \<mapsto> y, out := None, workPath out i := None, out \<mapsto> y, tmpPath out i := None) =
      (content w)(out \<mapsto> y, workPath out i := None, tmpPath out i := None)"
    by (auto simp: fun_eq_iff)
  ultimately show ?thesis
    using assms(5,6) by (simp add: patchOne_def removeStale_ok os_Rename_def writable_def [symmetric])
      (simp add: writable_def)
qed

lemma patchAll_ok:
  assumes "bspatch_writes env patched"
  shows "content w out = Some x \<Longrightarrow> \<forall>j<length ds. content w (tmpPath out (i + j)) = Some (ds ! j) \<Longrightarrow>
    foldl (\<lambda>x d. Option.bind x (\<lambda>x. patched x d)) (Some x) ds = Some y \<Longrightarrow>
    writable w out \<Longrightarrow> \<forall>j. writable w (tmpPath out j) \<and> writable w (workPath out j) \<Longrightarrow>
    \<exists>m. patchAll env out i (length ds) w = (w\<lparr>content := m\<rparr>, None) \<and> m out = Some y \<and>
      (\<forall>j<length ds. m (tmpPath out (i + j)) = None) \<and> (\<forall>j<i. m (tmpPath out j) = content w (tmpPath out j)) \<and>
      (\<forall>p. p \<noteq> out \<and> (\<forall>j. p \<noteq> tmpPath out j \<and> p \<noteq> workPath out j) \<longrightarrow> m p = content w p)"
proof (induction ds arbitrary: i w x)
  case Nil
  then show ?case by (intro exI [of _ "content w"]) simp
next
  case (Cons d ds)
  let ?f = "\<lambda>x d. Option.bind x (\<lambda>x. patched x d)"
  have none: "foldl ?f None es = None" for es by (induction es) auto
  obtain z where z: "patched x d = Some z" using Cons.prems(3) none by (cases "patched x d") auto
  let ?w1 = "w\<lparr>content := (content w)(out \<mapsto> z, workPath out i := None, tmpPath out i := None)\<rparr>"
  have one: "patchOne env out i w = (?w1, None)"
    using Cons.prems by (intro patchOne_ok [OF assms _ _ z]) auto
  have tmps: "\<forall>j<length ds. content ?w1 (tmpPath out (Suc i + j)) = Some (ds ! j)"
    using Cons.prems(2) by force
  obtain m where m: "patchAll env out (Suc i) (length ds) ?w1 = (?w1\<lparr>content := m\<rparr>, None)" "m out = Some y"
    "\<forall>j<length ds. m (tmpPath out (Suc i + j)) = None" "\<forall>j<Suc i. m (tmpPath out j) = content ?w1 (tmpPath out j)"
    "\<forall>p. p \<noteq> out \<and> (\<forall>j. p \<noteq> tmpPath out j \<and> p \<noteq> workPath out j) \<longrightarrow> m p = content ?w1 p"
    using Cons.IH [of ?w1 z "Suc i"] Cons.prems tmps z by auto
  have "m (tmpPath out (i + j)) = None" if "j < length (d # ds)" for j
    using m(3,4) that by (cases j) auto
  with one m show ?case by (intro exI [of _ m]) auto
qed

section \<open>Properties\<close>

text \<open>
  C37: When every version of the resolved chain can be retrieved and the patches apply, the
  command succeeds and the output file holds the root's data with all patches applied in
  chain order; no temporary file of a version is left, and no file other than the output and
  the temporary ones has changed.
\<close>

theorem retrieveVersion_reconstructs:
  assumes "export_writes env data" "bspatch_writes env patched"
    and "parseCid env target \<noteq> None" "os_Stat w out = Err ErrNotExist" "nodeV1 env"
    and "retrPayer env fl = Some payer" "retrMaxPrice fl = Ok maxPrice" "retrImports env fl = Some localImports"
    and "resolveChain (parseCid env) target w = Some (Ok chain)" "chain \<noteq> []" "1 < length chain \<longrightarrow> hasBspatch env"
    and "list_all2 (available env fl payer maxPrice localImports data) chain ds" "rebuilt patched ds = Some y"
    and "writable w out" "\<forall>j. writable w (tmpPath out j) \<and> writable w (workPath out j)"
  shows "\<exists>w'. retrieveVersion env fl [target, out] w = Some (w', Ok ()) \<and> content w' out = Some y \<and>
    (\<forall>i<length chain. content w' (tmpPath out i) = None) \<and>
    (\<forall>p. p \<noteq> out \<and> (\<forall>i. p \<noteq> tmpPath out i \<and> p \<noteq> workPath out i) \<longrightarrow> content w' p = content w p)"
proof -
  have len: "length ds = length chain" using assms(12) by (simp add: list_all2_lengthD)
  then obtain d es where ds: "ds = d # es" using assms(10) by (cases ds) auto
  let ?w1 = "w\<lparr>content := putTmps out 0 ds (content w)\<rparr>"
  let ?w2 = "w\<lparr>content := (content ?w1)(tmpPath out 0 := None, out \<mapsto> d)\<rparr>"
  have all: "retrieveAll (retrieveOne env fl payer maxPrice localImports out) 0 chain w = Some (?w1, Ok ())"
    using assms(15) by (intro retrieveAll_ok [OF assms(1,12)]) auto
  have nth: "content ?w1 (tmpPath out j) = Some (ds ! j)" if "j < length ds" for j
    using putTmps_nth [OF that, of out 0 "content w"] by simp
  have ren: "os_Rename ?w1 (tmpPath out 0) out = Ok ?w2"
    using nth [of 0] assms(14,15) ds by (simp add: os_Rename_def writable_def)
  have tmps: "\<forall>j<length es. content ?w2 (tmpPath out (1 + j)) = Some (es ! j)"
    using nth ds by auto
  have other: "content ?w2 p = content w p" if "p \<noteq> out" "\<forall>i. p \<noteq> tmpPath out i" for p
    using that putTmps_other [of 0 p out ds "content w"] by simp
  obtain m where m: "patchAll env out 1 (length es) ?w2 = (?w2\<lparr>content := m\<rparr>, None)" "m out = Some y"
    "\<forall>j<length es. m (tmpPath out (1 + j)) = None" "\<forall>j<1. m (tmpPath out j) = content ?w2 (tmpPath out j)"
    "\<forall>p. p \<noteq> out \<and> (\<forall>j. p \<noteq> tmpPath out j \<and> p \<noteq> workPath out j) \<longrightarrow> m p = content ?w2 p"
    using patchAll_ok [OF assms(2) _ tmps, of d y] assms(13-15) ds by (auto simp: rebuilt_def)
  have tools: "\<not> (1 < length chain \<and> \<not> hasBspatch env)" and le: "length chain - 1 = length es"
    using assms(11) len ds by auto
  have "retrieveChain env fl payer maxPrice out chain w = Some (w\<lparr>content := m\<rparr>, Ok ())"
    unfolding retrieveChain_def le if_not_P [OF tools] using assms(8,10) all ren m(1) by simp
  then have run: "retrieveVersion env fl [target, out] w = Some (w\<lparr>content := m\<rparr>, Ok ())"
    using assms(3-9) by (auto simp: retrieveVersion_def)
  have "m (tmpPath out i) = None" if "i < length chain" for i
    using m(3,4) that len ds by (cases i) auto
  then show ?thesis
    using run m(2,5) other by (intro exI [of _ "w\<lparr>content := m\<rparr>"]) simp
qed

text \<open>
  When no provider is named the command takes an offer of the lowest price among the offers without an error.
\<close>

theorem findOffer_cheapest:
  assumes "findOffer env fl c root = Ok offer" "provider fl = []" "ClientFindData env root = Some offers"
  shows "offer \<in> set offers \<and> OfferErr offer = [] \<and>
    (\<forall>q\<in>set offers. OfferErr q = [] \<longrightarrow> MinPrice offer \<le> MinPrice q)"
proof -
  let ?os = "filter (\<lambda>q. OfferErr q = []) offers"
  obtain rest where s: "sort_by offer_less ?os = offer # rest"
    using assms by (auto simp: findOffer_def split: list.splits)
  have "sorted_wrt (\<lambda>a b. \<not> offer_less b a) (offer # rest)"
    using offer_order.sorted_sort_by [of ?os] s by simp
  moreover have "set (offer # rest) = set ?os" using set_sort_by [of offer_less ?os] s by simp
  moreover have "MinPrice offer \<le> MinPrice q" if "q \<in> set (offer # rest)" for q
    using calculation(1) that by (auto simp: offer_less_def)
  ultimately show ?thesis by auto
qed

section \<open>Witnesses\<close>

definition demoData :: "string \<rightharpoonup> string" where
  "demoData = [''a'' \<mapsto> ''one'', ''b'' \<mapsto> '' two'']"

definition demoOffers :: "QueryOffer list" where
  "demoOffers = map (\<lambda>(e, n). \<lparr>OfferErr = e, OfferRoot = ''a'', OfferPiece = None, OfferSize = 3, MinPrice = n,
     OfferUnsealPrice = 0, OfferPricePerByte = 0, OfferPaymentInterval = 0, OfferPaymentIntervalIncrease = 0,
     OfferMiner = ''f02'', OfferMinerPeer = []\<rparr>) [([], 3), (''busy'', 0), ([], 0)]"

definition demoRetrEnv :: retr_env where
  "demoRetrEnv = \<lparr>nodeV1 = True, parseCid = Some, parseAddress = Some, defaultAddress = Some ''f01'', hasBspatch = True,
     ClientListImports = Some [], ClientFindData = (\<lambda>_. Some demoOffers), ClientMinerQueryOffer = (\<lambda>_ _. None),
     RetrievalUpdates = True, ClientRetrieve = (\<lambda>_. Some 7),
     retrSelects = (\<lambda>_. [RetrEvent \<lparr>RetrID = 7, RetrStatus = DealStatusCompleted, RetrMessage = []\<rparr>]),
     ClientExport = (\<lambda>eref p w. case demoData (ExportRoot eref) of
        None \<Rightarrow> (w, False) | Some d \<Rightarrow> (w\<lparr>content := (content w)(p \<mapsto> d)\<rparr>, True)),
     Bspatch = (\<lambda>old new p w. case (content w old, content w p) of
        (Some x, Some d) \<Rightarrow> (w\<lparr>content := (content w)(new \<mapsto> x @ d)\<rparr>, True) | _ \<Rightarrow> (w, False))\<rparr>"

definition demoRetrFlags :: RetrieveFlags where
  "demoRetrFlags = \<lparr>retr_from = [], provider = [], maxPriceFlag = [], allow_local = False\<rparr>"

definition metaWorld :: world where
  "metaWorld = emptyWorld\<lparr>content := [''a_meta'' \<mapsto> unlines [NULL, ''b''], ''b_meta'' \<mapsto> unlines [''a'', NULL]]\<rparr>"

lemma demo_retrieval:
  "os_Stat metaWorld ''out'' = Err ErrNotExist"
  "retrPayer demoRetrEnv demoRetrFlags = Some ''f01''" "retrMaxPrice demoRetrFlags = Ok 0"
  "resolveChain (parseCid demoRetrEnv) ''b'' metaWorld = Some (Ok [''a'', ''b''])"
  "list_all2 (available demoRetrEnv demoRetrFlags ''f01'' 0 Map.empty demoData) [''a'', ''b''] [''one'', '' two'']"
  "rebuilt (\<lambda>x d. Some (x @ d)) [''one'', '' two''] = Some ''one two''"
  by (code_simp, code_simp, code_simp, code_simp, code_simp, code_simp)

lemma demo_services:
  "export_writes demoRetrEnv demoData" "bspatch_writes demoRetrEnv (\<lambda>x d. Some (x @ d))"
  by (simp_all add: export_writes_def bspatch_writes_def demoRetrEnv_def)

theorem retrieveVersion_reconstructs_witness:
  "\<exists>w'. retrieveVersion demoRetrEnv demoRetrFlags [''b'', ''out''] metaWorld = Some (w', Ok ()) \<and>
     content w' ''out'' = Some ''one two''"
proof -
  have w: "writable metaWorld p" for p by (simp add: metaWorld_def writable_def)
  have e: "parseCid demoRetrEnv ''b'' \<noteq> None" "nodeV1 demoRetrEnv" "hasBspatch demoRetrEnv"
    "retrImports demoRetrEnv demoRetrFlags = Some Map.empty"
    by (simp_all add: demoRetrEnv_def demoRetrFlags_def retrImports_def)
  from retrieveVersion_reconstructs [OF demo_services e(1) demo_retrieval(1) e(2) demo_retrieval(2,3) e(4) demo_retrieval(4) _ _ demo_retrieval(5,6)]
  show ?thesis using w e(3) by auto
qed

theorem findOffer_cheapest_witness:
  "findOffer demoRetrEnv demoRetrFlags ''a'' ''a'' = Ok (demoOffers ! 2) \<and>
   OfferErr (demoOffers ! 0) = [] \<and> MinPrice (demoOffers ! 2) \<le> MinPrice (demoOffers ! 0)"
proof -
  have f: "findOffer demoRetrEnv demoRetrFlags ''a'' ''a'' = Ok (demoOffers ! 2)"
    by code_simp
  moreover have "OfferErr (demoOffers ! 0) = []" "demoOffers ! 0 \<in> set demoOffers" by (simp_all add: demoOffers_def)
  moreover note findOffer_cheapest [OF f, of demoOffers]
  ultimately show ?thesis by (simp add: demoRetrEnv_def demoRetrFlags_def)
qed

end
