(* ===== verification/Myers.thy ===== *)
theory Myers
  imports Prelude
begin

text \<open>
  The difference algorithm of \<open>src/lib/dyaic\<close>: \<open>shortestEditScript\<close> on lines
  (\<open>myers.go\<close>) and \<open>shortestEditDist\<close> on bytes (\<open>dyaic.go\<close>), the same code on
  slices of different types. The forward pass records, for every number of edits \<open>d\<close> and
  every diagonal \<open>k\<close>, how far \<open>d\<close> edits reach; the backward pass reads a script off
  these records. Go's \<open>int\<close> is unbounded here: the indices stay below the lengths of
  slices. A missing key of a Go map reads 0, so a map is a function that is 0 elsewhere.
\<close>

section \<open>Operations and scripts\<close>

datatype operation = INSERT | DELETE | MOVE

fun opString :: "operation \<Rightarrow> string" where
  "opString INSERT = ''INS''"
| "opString DELETE = ''DEL''"
| "opString MOVE = ''MOV''"

type_synonym vmap = "int \<Rightarrow> int"

section \<open>The forward pass\<close>

text \<open>Down the diagonal while the elements agree; an index out of range panics.\<close>

function snake :: "'a list \<Rightarrow> 'a list \<Rightarrow> int \<Rightarrow> int \<Rightarrow> (unit, int) outcome" where
  "snake src dst x y =
     (if x < int (length src) \<and> y < int (length dst) then
        if x < 0 \<or> y < 0 then Panic
        else if src ! nat x = dst ! nat y then snake src dst (x + 1) (y + 1)
        else Ok x
      else Ok x)"
  by pat_completeness auto
termination by (relation "measure (\<lambda>(src, dst, x, y). nat (int (length src) - x))") auto

declare snake.simps [simp del]

text \<open>The choice between the two neighbouring diagonals: true is a step down from \<open>k + 1\<close>.\<close>

definition down :: "int \<Rightarrow> int \<Rightarrow> vmap \<Rightarrow> bool" where
  "down d k lastV \<longleftrightarrow> k = - d \<or> (k \<noteq> d \<and> lastV (k - 1) < lastV (k + 1))"

definition startX :: "int \<Rightarrow> int \<Rightarrow> vmap \<Rightarrow> int" where
  "startX d k lastV = (if down d k lastV then lastV (k + 1) else lastV (k - 1) + 1)"

text \<open>The loop over the diagonals of one round; the flag says that the end was reached.\<close>

fun kLoop :: "'a list \<Rightarrow> 'a list \<Rightarrow> int \<Rightarrow> vmap \<Rightarrow> int list \<Rightarrow> vmap \<Rightarrow> (unit, vmap \<times> bool) outcome" where
  "kLoop src dst d lastV [] v = Ok (v, False)"
| "kLoop src dst d lastV (k # ks) v =
     (let x0 = startX d k lastV in
      bindO (snake src dst x0 (x0 - k)) (\<lambda>x.
        if x = int (length src) \<and> x - k = int (length dst) then Ok (v(k := x), True)
        else kLoop src dst d lastV ks (v(k := x))))"

definition diagonals :: "nat \<Rightarrow> int list" where
  "diagonals d = map (\<lambda>i. 2 * int i - int d) [0..<Suc d]"

text \<open>The loop over the number of edits, from round \<open>d\<close> on.\<close>

function dLoop :: "'a list \<Rightarrow> 'a list \<Rightarrow> nat \<Rightarrow> vmap list \<Rightarrow> (unit, vmap list) outcome" where
  "dLoop src dst d trace =
     (if length src + length dst < d then Ok trace
      else if d = 0 then
        bindO (snake src dst 0 0) (\<lambda>t.
          let v = (\<lambda>_. 0)(0 := t) in
          if t = int (length src) \<and> t = int (length dst) then Ok (trace @ [v])
          else dLoop src dst 1 (trace @ [v]))
      else
        bindO (kLoop src dst (int d) (trace ! (d - 1)) (diagonals d) (\<lambda>_. 0)) (\<lambda>(v, found).
          if found then Ok (trace @ [v]) else dLoop src dst (Suc d) (trace @ [v])))"
  by pat_completeness auto
termination by (relation "measure (\<lambda>(src, dst, d, trace). Suc (length src + length dst) - d)") auto

declare dLoop.simps [simp del]

section \<open>The backward pass\<close>

text \<open>Back along a snake: the position it began at and the script with its moves.\<close>

function moveBack :: "int \<Rightarrow> int \<Rightarrow> int \<Rightarrow> int \<Rightarrow> operation list \<Rightarrow> int \<times> operation list" where
  "moveBack prevX prevY x y script =
     (if x > prevX \<and> y > prevY then moveBack prevX prevY (x - 1) (y - 1) (script @ [MOVE])
      else (x, script))"
  by pat_completeness auto
termination by (relation "measure (\<lambda>(prevX, prevY, x, y, script). nat (x - prevX))") auto

declare moveBack.simps [simp del]

fun backLoop :: "vmap list \<Rightarrow> nat \<Rightarrow> int \<Rightarrow> int \<Rightarrow> operation list \<Rightarrow> operation list" where
  "backLoop trace 0 x y script = script"
| "backLoop trace (Suc e) x y script =
     (let k = x - y; lastV = trace ! e;
          prevK = (if down (int (Suc e)) k lastV then k + 1 else k - 1);
          prevX = lastV prevK; prevY = prevX - prevK;
          (x', script') = moveBack prevX prevY x y script
      in backLoop trace e prevX prevY (script' @ [if x' = prevX then INSERT else DELETE]))"

definition editScript :: "'a list \<Rightarrow> 'a list \<Rightarrow> (unit, operation list) outcome" where
  "editScript src dst =
     bindO (dLoop src dst 0 []) (\<lambda>trace.
       let script = backLoop trace (length trace - 1) (int (length src)) (int (length dst)) []
       in Ok (rev (script @ replicate (nat ((trace ! 0) 0)) MOVE)))"

definition shortestEditScript :: "string list \<Rightarrow> string list \<Rightarrow> (unit, operation list) outcome" where
  "shortestEditScript src dst = editScript src dst"

definition shortestEditDist :: "string \<Rightarrow> string \<Rightarrow> (unit, operation list) outcome" where
  "shortestEditDist src dst = editScript src dst"

section \<open>What a script does\<close>

text \<open>A script that turns one list into another, and the number of its edits.\<close>

fun converts :: "operation list \<Rightarrow> 'a list \<Rightarrow> 'a list \<Rightarrow> bool" where
  "converts [] src dst = (src = [] \<and> dst = [])"
| "converts (MOVE # s) (a # src) (b # dst) = (a = b \<and> converts s src dst)"
| "converts (INSERT # s) src (b # dst) = converts s src dst"
| "converts (DELETE # s) (a # src) dst = converts s src dst"
| "converts _ _ _ = False"

definition edits :: "operation list \<Rightarrow> nat" where
  "edits s = length (filter (\<lambda>p. p \<noteq> MOVE) s)"

section \<open>The edit graph\<close>

text \<open>
  Points that \<open>d\<close> edits reach. Steps to the right and down are allowed beyond the ends of
  the lists, as in the forward pass; diagonal steps only where both elements exist and agree.
\<close>

definition agree :: "'a list \<Rightarrow> 'a list \<Rightarrow> int \<Rightarrow> int \<Rightarrow> bool" where
  "agree src dst x y \<longleftrightarrow> x < int (length src) \<and> y < int (length dst) \<and> src ! nat x = dst ! nat y"

inductive reach :: "'a list \<Rightarrow> 'a list \<Rightarrow> nat \<Rightarrow> int \<Rightarrow> int \<Rightarrow> bool" for src dst where
  start: "reach src dst 0 0 0"
| right: "reach src dst d x y \<Longrightarrow> reach src dst (Suc d) (x + 1) y"
| below: "reach src dst d x y \<Longrightarrow> reach src dst (Suc d) x (y + 1)"
| diag: "reach src dst d x y \<Longrightarrow> agree src dst x y \<Longrightarrow> reach src dst d (x + 1) (y + 1)"

lemma reach_bounds:
  "reach src dst d x y \<Longrightarrow> 0 \<le> x \<and> 0 \<le> y \<and> x - y \<le> int d \<and> y - x \<le> int d \<and> even (int d + (x - y))"
  by (induction rule: reach.induct) auto

lemma mem_diagonals: "k \<in> set (diagonals d) \<longleftrightarrow> - int d \<le> k \<and> k \<le> int d \<and> even (int d + k)"
proof
  assume r: "- int d \<le> k \<and> k \<le> int d \<and> even (int d + k)"
  then obtain j where j: "int d + k = 2 * j" by (metis evenE)
  with r have "k = 2 * int (nat j) - int d" "nat j < Suc d" by auto
  then show "k \<in> set (diagonals d)" unfolding diagonals_def set_map by (intro image_eqI [of _ _ "nat j"]) auto
qed (auto simp: diagonals_def)

lemma reach_diagonal: "reach src dst d x (x - k) \<Longrightarrow> k \<in> set (diagonals d)"
  using reach_bounds [of src dst d x "x - k"] by (auto simp: mem_diagonals)

definition furthest :: "'a list \<Rightarrow> 'a list \<Rightarrow> nat \<Rightarrow> int \<Rightarrow> int \<Rightarrow> bool" where
  "furthest src dst d k x \<longleftrightarrow> reach src dst d x (x - k) \<and> (\<forall>x'. reach src dst d x' (x' - k) \<longrightarrow> x' \<le> x)"

lemma furthest_diagonal: "furthest src dst d k x \<Longrightarrow> k \<in> set (diagonals d)"
  unfolding furthest_def by (blast intro: reach_diagonal)

lemma furthest_unique: "furthest src dst d k x \<Longrightarrow> furthest src dst d k x' \<Longrightarrow> x = x'"
  by (auto simp: furthest_def intro: antisym)

abbreviation agreeing :: "'a list \<Rightarrow> 'a list \<Rightarrow> int \<Rightarrow> int \<Rightarrow> int \<Rightarrow> bool" where
  "agreeing src dst k a b \<equiv> \<forall>t. a \<le> t \<and> t < b \<longrightarrow> agree src dst t (t - k)"

lemma snake_spec:
  "0 \<le> x \<Longrightarrow> 0 \<le> y \<Longrightarrow> \<exists>x'. snake src dst x y = Ok x' \<and> x \<le> x' \<and>
     agreeing src dst (x - y) x x' \<and> \<not> agree src dst x' (x' - (x - y))"
proof (induction src dst x y rule: snake.induct)
  case (1 src dst x y)
  show ?case
  proof (cases "agree src dst x y")
    case True
    then have "x < int (length src) \<and> y < int (length dst)" "src ! nat x = dst ! nat y"
      "\<not> (x < 0 \<or> y < 0)" "0 \<le> x + 1" "0 \<le> y + 1" "x + 1 - (y + 1) = x - y"
      using "1.prems" by (auto simp: agree_def)
    note facts = this
    obtain x' where x': "snake src dst (x + 1) (y + 1) = Ok x'" "x + 1 \<le> x'"
      "agreeing src dst (x - y) (x + 1) x'" "\<not> agree src dst x' (x' - (x - y))"
      using "1.IH" [OF facts(1,3,2,4,5)] unfolding facts(6) by blast
    have "snake src dst x y = Ok x'"
      using True x'(1) "1.prems" by (subst snake.simps) (simp add: agree_def)
    moreover have "agreeing src dst (x - y) x x'"
    proof (intro allI impI)
      fix t assume "x \<le> t \<and> t < x'"
      with True x'(3) show "agree src dst t (t - (x - y))" by (cases "t = x") auto
    qed
    ultimately show ?thesis using x' by auto
  next
    case False
    then have "snake src dst x y = Ok x"
      using "1.prems" by (subst snake.simps) (auto simp: agree_def)
    then show ?thesis using False by auto
  qed
qed

lemma reach_along:
  assumes "reach src dst d x (x - k)" "agreeing src dst k x x'" "x \<le> x'"
  shows "reach src dst d x' (x' - k)"
proof -
  have "agreeing src dst k x (x + int j) \<Longrightarrow> reach src dst d (x + int j) (x + int j - k)" for j
  proof (induction j)
    case (Suc j)
    then have "reach src dst d (x + int j) (x + int j - k)" "agree src dst (x + int j) (x + int j - k)"
      by auto
    from reach.diag [OF this] show ?case by (simp add: algebra_simps)
  qed (use assms in simp)
  from this [of "nat (x' - x)"] assms show ?thesis by simp
qed

lemma reach_last_edit:
  "reach src dst n x y \<Longrightarrow> n = Suc d \<Longrightarrow>
   \<exists>x1\<le>x. (reach src dst d (x1 - 1) (x1 - 1 - (x - y - 1)) \<or> reach src dst d x1 (x1 - (x - y + 1))) \<and>
     agreeing src dst (x - y) x1 x"
proof (induction rule: reach.induct)
  case (right d' x y)
  then show ?case by (intro exI [of _ "x + 1"]) auto
next
  case (below d' x y)
  then show ?case by (intro exI [of _ x]) auto
next
  case (diag d' x y)
  then obtain x1 where x1: "x1 \<le> x"
    "reach src dst d (x1 - 1) (x1 - 1 - (x - y - 1)) \<or> reach src dst d x1 (x1 - (x - y + 1))"
    "agreeing src dst (x - y) x1 x" by auto
  have "agreeing src dst (x - y) x1 (x + 1)"
  proof (intro allI impI)
    fix t assume "x1 \<le> t \<and> t < x + 1"
    with x1(3) diag.hyps(2) show "agree src dst t (t - (x - y))" by (cases "t = x") auto
  qed
  with x1 show ?case by (intro exI [of _ x1]) auto
qed simp

lemma reach_0: "reach src dst n x y \<Longrightarrow> n = 0 \<Longrightarrow> x = y \<and> agreeing src dst 0 0 x"
proof (induction rule: reach.induct)
  case (diag d x y)
  then show ?case by (auto simp: le_less zless_add1_eq)
qed auto

section \<open>The forward pass computes the furthest points\<close>

lemma diagonals_neighbours:
  assumes "k \<in> set (diagonals (Suc d))"
  shows "k \<noteq> int (Suc d) \<Longrightarrow> k + 1 \<in> set (diagonals d)" "k \<noteq> - int (Suc d) \<Longrightarrow> k - 1 \<in> set (diagonals d)"
  using assms unfolding mem_diagonals by presburger+

lemma startX_reach:
  assumes "\<forall>k\<in>set (diagonals d). furthest src dst d k (V k)" "k \<in> set (diagonals (Suc d))"
  shows "reach src dst (Suc d) (startX (int (Suc d)) k V) (startX (int (Suc d)) k V - k)"
proof (cases "down (int (Suc d)) k V")
  case True
  then have "k + 1 \<in> set (diagonals d)"
    using diagonals_neighbours(1) [OF assms(2)] by (auto simp: down_def)
  then have "reach src dst d (V (k + 1)) (V (k + 1) - (k + 1))" using assms(1) by (simp add: furthest_def)
  from reach.below [OF this] True show ?thesis by (simp add: startX_def algebra_simps)
next
  case False
  then have "k - 1 \<in> set (diagonals d)"
    using diagonals_neighbours(2) [OF assms(2)] by (auto simp: down_def)
  then have "reach src dst d (V (k - 1)) (V (k - 1) - (k - 1))" using assms(1) by (simp add: furthest_def)
  from reach.right [OF this] False show ?thesis by (simp add: startX_def algebra_simps)
qed

lemma startX_max:
  assumes f: "\<forall>k\<in>set (diagonals d). furthest src dst d k (V k)"
    and r: "reach src dst d (x - 1) (x - 1 - (k - 1)) \<or> reach src dst d x (x - (k + 1))"
  shows "x \<le> startX (int (Suc d)) k V"
  using r
proof
  assume r: "reach src dst d (x - 1) (x - 1 - (k - 1))"
  then have "k - 1 \<in> set (diagonals d)" by (rule reach_diagonal)
  with f r have "x - 1 \<le> V (k - 1)" "k \<noteq> - int (Suc d)" by (auto simp: furthest_def mem_diagonals)
  then show ?thesis by (auto simp: startX_def down_def)
next
  assume r: "reach src dst d x (x - (k + 1))"
  then have "k + 1 \<in> set (diagonals d)" by (rule reach_diagonal)
  with f r have "x \<le> V (k + 1)" "k \<noteq> int (Suc d)" by (auto simp: furthest_def mem_diagonals)
  then show ?thesis by (auto simp: startX_def down_def)
qed

lemma furthest_step:
  assumes f: "\<forall>k\<in>set (diagonals d). furthest src dst d k (V k)" and k: "k \<in> set (diagonals (Suc d))"
    and x0: "x0 = startX (int (Suc d)) k V"
  obtains x where "snake src dst x0 (x0 - k) = Ok x" "furthest src dst (Suc d) k x" "x0 \<le> x"
    "agreeing src dst k x0 x"
proof -
  have r0: "reach src dst (Suc d) x0 (x0 - k)" using startX_reach [OF f k] x0 by simp
  then obtain x where x: "snake src dst x0 (x0 - k) = Ok x" "x0 \<le> x" "agreeing src dst k x0 x"
    "\<not> agree src dst x (x - k)"
    using snake_spec [of x0 "x0 - k" src dst] reach_bounds by fastforce
  have "x' \<le> x" if r: "reach src dst (Suc d) x' (x' - k)" for x'
  proof (rule ccontr)
    assume "\<not> x' \<le> x"
    obtain x1 where x1: "x1 \<le> x'" "agreeing src dst k x1 x'"
      "reach src dst d (x1 - 1) (x1 - 1 - (k - 1)) \<or> reach src dst d x1 (x1 - (k + 1))"
      using reach_last_edit [OF r] by auto
    then have "x1 \<le> x0" using startX_max [OF f x1(3)] x0 by simp
    with x1(2) \<open>\<not> x' \<le> x\<close> x(2,4) show False by auto
  qed
  then have "furthest src dst (Suc d) k x"
    using reach_along [OF r0 x(3,2)] by (simp add: furthest_def)
  with x that show ?thesis by blast
qed

abbreviation at_end :: "'a list \<Rightarrow> 'a list \<Rightarrow> int \<Rightarrow> int \<Rightarrow> bool" where
  "at_end src dst k x \<equiv> x = int (length src) \<and> x - k = int (length dst)"

lemma kLoop_spec:
  assumes f: "\<forall>k\<in>set (diagonals d). furthest src dst d k (V k)" and D: "D = int (Suc d)"
  shows "distinct ks \<Longrightarrow> set ks \<subseteq> set (diagonals (Suc d)) \<Longrightarrow>
    \<exists>v' found. kLoop src dst D V ks v = Ok (v', found) \<and>
      (found \<longrightarrow> (\<exists>k\<in>set ks. furthest src dst (Suc d) k (int (length src)) \<and> at_end src dst k (int (length src)))) \<and>
      (\<not> found \<longrightarrow> (\<forall>k\<in>set ks. furthest src dst (Suc d) k (v' k) \<and> \<not> at_end src dst k (v' k))) \<and>
      (\<forall>k. k \<notin> set ks \<longrightarrow> v' k = v k)"
proof (induction ks arbitrary: v)
  case (Cons k ks)
  define x0 where "x0 = startX D k V"
  have k: "k \<in> set (diagonals (Suc d))" using Cons.prems by simp
  obtain x where x: "snake src dst x0 (x0 - k) = Ok x" "furthest src dst (Suc d) k x"
    by (rule furthest_step [OF f k x0_def [unfolded D]])
  show ?case
  proof (cases "at_end src dst k x")
    case True
    then have "kLoop src dst D V (k # ks) v = Ok (v(k := x), True)"
      using x(1) by (simp add: x0_def [symmetric] Let_def)
    moreover have "furthest src dst (Suc d) k (int (length src)) \<and> at_end src dst k (int (length src))"
      using True x(2) by simp
    ultimately show ?thesis by (intro exI [of _ "v(k := x)"] exI [of _ True] conjI) auto
  next
    case False
    define v1 where "v1 = v(k := x)"
    have ks: "distinct ks" "set ks \<subseteq> set (diagonals (Suc d))" using Cons.prems by auto
    obtain v' found where v': "kLoop src dst D V ks v1 = Ok (v', found)"
      "found \<longrightarrow> (\<exists>k\<in>set ks. furthest src dst (Suc d) k (int (length src)) \<and> at_end src dst k (int (length src)))"
      "\<not> found \<longrightarrow> (\<forall>k\<in>set ks. furthest src dst (Suc d) k (v' k) \<and> \<not> at_end src dst k (v' k))"
      "\<forall>k'. k' \<notin> set ks \<longrightarrow> v' k' = v1 k'"
      using Cons.IH [OF ks, of v1] by blast
    have "kLoop src dst D V (k # ks) v = Ok (v', found)"
      using False x(1) v'(1) by (auto simp: x0_def [symmetric] v1_def [symmetric] Let_def)
    moreover have "v' k = x" using v'(4) Cons.prems(1) by (simp add: v1_def)
    moreover have "\<forall>k'. k' \<notin> set (k # ks) \<longrightarrow> v' k' = v k'" using v'(4) by (simp add: v1_def)
    ultimately show ?thesis
      using v'(2,3) x(2) False by (intro exI [of _ v'] exI [of _ found] conjI) auto
  qed
qed auto

section \<open>The least number of edits\<close>

text \<open>A point beyond an end of the lists is reached with more edits than the nearest point of the grid.\<close>

lemma reach_clip:
  "reach src dst d x y \<Longrightarrow>
   \<exists>d'\<le>d. reach src dst d' (min x (int (length src))) (min y (int (length dst))) \<and>
     (x > int (length src) \<or> y > int (length dst) \<longrightarrow> d' < d)"
proof (induction rule: reach.induct)
  case start
  then show ?case using reach.start [of src dst] by auto
next
  case (right d x y)
  then obtain d' where d': "d' \<le> d" "reach src dst d' (min x (int (length src))) (min y (int (length dst)))"
    "x > int (length src) \<or> y > int (length dst) \<longrightarrow> d' < d" by auto
  show ?case
  proof (cases "x + 1 \<le> int (length src)")
    case True
    then show ?thesis using reach.right [OF d'(2)] d' by (intro exI [of _ "Suc d'"]) auto
  next
    case False
    then have "min (x + 1) (int (length src)) = min x (int (length src))" by linarith
    then show ?thesis using d' by (intro exI [of _ d']) auto
  qed
next
  case (below d x y)
  then obtain d' where d': "d' \<le> d" "reach src dst d' (min x (int (length src))) (min y (int (length dst)))"
    "x > int (length src) \<or> y > int (length dst) \<longrightarrow> d' < d" by auto
  show ?case
  proof (cases "y + 1 \<le> int (length dst)")
    case True
    then show ?thesis using reach.below [OF d'(2)] d' by (intro exI [of _ "Suc d'"]) auto
  next
    case False
    then have "min (y + 1) (int (length dst)) = min y (int (length dst))" by linarith
    then show ?thesis using d' by (intro exI [of _ d']) auto
  qed
next
  case (diag d x y)
  then obtain d' where d': "d' \<le> d" "reach src dst d' x y" by (auto simp: agree_def)
  show ?case using reach.diag [OF d'(2) diag.hyps(2)] d'(1) diag.hyps(2)
    by (intro exI [of _ d']) (auto simp: agree_def)
qed

lemma reach_converts:
  "converts s (drop x src) (drop y dst) \<Longrightarrow> x \<le> length src \<Longrightarrow> y \<le> length dst \<Longrightarrow>
   reach src dst d (int x) (int y) \<Longrightarrow> reach src dst (d + edits s) (int (length src)) (int (length dst))"
proof (induction s arbitrary: x y d)
  case Nil
  then show ?case by (simp add: edits_def)
next
  case (Cons p s)
  show ?case
  proof (cases p)
    case INSERT
    with Cons.prems(1) obtain b dst' where d: "drop y dst = b # dst'" "converts s (drop x src) dst'"
      by (cases "drop y dst") auto
    then have y: "y < length dst" "dst' = drop (Suc y) dst" by (auto simp: drop_Suc tl_drop [symmetric] intro: ccontr)
    from reach.below [OF Cons.prems(4)] show ?thesis
      using Cons.IH [of x "Suc y" "Suc d"] d(2) y Cons.prems(2) INSERT by (simp add: edits_def add.commute)
  next
    case DELETE
    with Cons.prems(1) obtain a src' where d: "drop x src = a # src'" "converts s src' (drop y dst)"
      by (cases "drop x src") auto
    then have x: "x < length src" "src' = drop (Suc x) src" by (auto simp: drop_Suc tl_drop [symmetric] intro: ccontr)
    from reach.right [OF Cons.prems(4)] show ?thesis
      using Cons.IH [of "Suc x" y "Suc d"] d(2) x Cons.prems(3) DELETE by (simp add: edits_def add.commute)
  next
    case MOVE
    obtain a src' b dst' where d: "drop x src = a # src'" "drop y dst = b # dst'" "a = b" "converts s src' dst'"
      using Cons.prems(1) MOVE by (cases "drop x src"; cases "drop y dst") auto
    then have xy: "x < length src" "y < length dst" "src' = drop (Suc x) src" "dst' = drop (Suc y) dst"
      by (auto simp: drop_Suc tl_drop [symmetric] intro: ccontr)
    have "src ! x = a" "dst ! y = b" using d(1,2) by (metis hd_drop_conv_nth list.sel(1) xy(1,2))+
    with xy d(3) have "agree src dst (int x) (int y)" by (simp add: agree_def)
    from reach.diag [OF Cons.prems(4) this] show ?thesis
      using Cons.IH [of "Suc x" "Suc y" d] d(4) xy MOVE by (simp add: edits_def add.commute)
  qed
qed

definition leastEdits :: "'a list \<Rightarrow> 'a list \<Rightarrow> nat" where
  "leastEdits src dst = (LEAST d. reach src dst d (int (length src)) (int (length dst)))"

lemma reach_all: "reach src dst (i + j) (int i) (int j)"
proof (induction i)
  case 0
  show ?case
  proof (induction j)
    case (Suc j)
    from reach.below [OF this] show ?case by (simp add: add.commute)
  qed (simp add: reach.start)
next
  case (Suc i)
  from reach.right [OF this] show ?case by (simp add: add.commute)
qed

lemma leastEdits_reach:
  "reach src dst (leastEdits src dst) (int (length src)) (int (length dst))"
  "reach src dst d (int (length src)) (int (length dst)) \<Longrightarrow> leastEdits src dst \<le> d"
  "leastEdits src dst \<le> length src + length dst"
  unfolding leastEdits_def
  using reach_all [of src dst "length src" "length dst"]
  by (auto intro: LeastI Least_le)

abbreviation endDiagonal :: "'a list \<Rightarrow> 'a list \<Rightarrow> int" where
  "endDiagonal src dst \<equiv> int (length src) - int (length dst)"

lemma furthest_least: "furthest src dst (leastEdits src dst) (endDiagonal src dst) (int (length src))"
proof -
  have "x \<le> int (length src)" if r: "reach src dst (leastEdits src dst) x (x - endDiagonal src dst)" for x
  proof (rule ccontr)
    assume x: "\<not> x \<le> int (length src)"
    then obtain d' where "d' < leastEdits src dst" "reach src dst d' (int (length src)) (int (length dst))"
      using reach_clip [OF r] by (auto simp: min_def)
    then show False using leastEdits_reach(2) leD by blast
  qed
  then show ?thesis using leastEdits_reach(1) [of src dst] by (simp add: furthest_def)
qed

lemma end_iff_least:
  assumes "furthest src dst d k x" "d \<le> leastEdits src dst" "at_end src dst k x"
  shows "d = leastEdits src dst"
proof -
  have "reach src dst d (int (length src)) (int (length dst))" using assms by (auto simp: furthest_def)
  then show ?thesis using assms(2) leastEdits_reach(2) [of src dst d] by simp
qed

text \<open>The rounds before the last one hold the furthest points of their number of edits.\<close>

definition rounds :: "'a list \<Rightarrow> 'a list \<Rightarrow> vmap list \<Rightarrow> bool" where
  "rounds src dst trace \<longleftrightarrow> (\<forall>e<length trace. \<forall>k\<in>set (diagonals e). furthest src dst e k ((trace ! e) k))"

lemma rounds_snoc:
  "rounds src dst trace \<Longrightarrow> \<forall>k\<in>set (diagonals (length trace)). furthest src dst (length trace) k (v k) \<Longrightarrow>
   rounds src dst (trace @ [v])"
  by (auto simp: rounds_def nth_append less_Suc_eq)

lemma diagonals_0 [simp]: "diagonals 0 = [0]"
  by (simp add: diagonals_def)

lemma first_round:
  assumes "snake src dst 0 0 = Ok t"
  shows "furthest src dst 0 0 t"
proof -
  obtain t' where t': "snake src dst 0 0 = Ok t'" "0 \<le> t'" "agreeing src dst 0 0 t'" "\<not> agree src dst t' t'"
    using snake_spec [of 0 0 src dst] by auto
  then have "reach src dst 0 t (t - 0)" using assms reach_along [of src dst 0 0 0 t'] reach.start [of src dst] by simp
  moreover have "x \<le> t" if "reach src dst 0 x (x - 0)" for x
    using reach_0 [OF that] t' assms by (auto intro: ccontr)
  ultimately show ?thesis by (auto simp: furthest_def)
qed

lemma distinct_diagonals: "distinct (diagonals d)"
  by (auto simp: diagonals_def distinct_map inj_on_def)

lemma round_spec:
  assumes "rounds src dst trace" "length trace = Suc e" "Suc e \<le> leastEdits src dst"
  obtains v where
    "kLoop src dst (int (Suc e)) (trace ! e) (diagonals (Suc e)) (\<lambda>_. 0) = Ok (v, Suc e = leastEdits src dst)"
    "Suc e < leastEdits src dst \<Longrightarrow> rounds src dst (trace @ [v])"
proof -
  have f: "\<forall>k\<in>set (diagonals e). furthest src dst e k ((trace ! e) k)" using assms(1,2) by (auto simp: rounds_def)
  obtain v found where v: "kLoop src dst (int (Suc e)) (trace ! e) (diagonals (Suc e)) (\<lambda>_. 0) = Ok (v, found)"
    "found \<longrightarrow> (\<exists>k\<in>set (diagonals (Suc e)). furthest src dst (Suc e) k (int (length src)) \<and> at_end src dst k (int (length src)))"
    "\<not> found \<longrightarrow> (\<forall>k\<in>set (diagonals (Suc e)). furthest src dst (Suc e) k (v k) \<and> \<not> at_end src dst k (v k))"
    using kLoop_spec [OF f refl distinct_diagonals subset_refl, of "\<lambda>_. 0"] by blast
  have "found \<longleftrightarrow> Suc e = leastEdits src dst"
  proof
    assume found
    then show "Suc e = leastEdits src dst" using v(2) end_iff_least assms(3) by blast
  next
    assume least: "Suc e = leastEdits src dst"
    let ?k = "endDiagonal src dst"
    have l: "furthest src dst (Suc e) ?k (int (length src))" using furthest_least least by metis
    then have k: "?k \<in> set (diagonals (Suc e))" by (rule furthest_diagonal)
    show found
    proof (rule ccontr)
      assume "\<not> found"
      with v(3) k have "furthest src dst (Suc e) ?k (v ?k)" and no: "\<not> at_end src dst ?k (v ?k)" by auto
      from furthest_unique [OF l this(1)] no show False by auto
    qed
  qed
  moreover have "Suc e < leastEdits src dst \<Longrightarrow> rounds src dst (trace @ [v])"
    using rounds_snoc [OF assms(1)] v(3) assms(2) calculation by simp
  ultimately show ?thesis using v(1) that by simp
qed

lemma dLoop_rounds:
  assumes "rounds src dst trace" "length trace = Suc e" "Suc e \<le> leastEdits src dst"
  shows "\<exists>trace'. dLoop src dst (Suc e) trace = Ok trace' \<and> length trace' = Suc (leastEdits src dst) \<and>
    rounds src dst (take (leastEdits src dst) trace') \<and> trace' ! 0 = trace ! 0"
  using assms
proof (induction "leastEdits src dst - e" arbitrary: e trace rule: less_induct)
  case less
  obtain v where v: "kLoop src dst (int (Suc e)) (trace ! e) (diagonals (Suc e)) (\<lambda>_. 0) = Ok (v, Suc e = leastEdits src dst)"
    "Suc e < leastEdits src dst \<Longrightarrow> rounds src dst (trace @ [v])"
    by (rule round_spec [OF less.prems]) blast
  have max: "\<not> length src + length dst < Suc e"
    using less.prems(3) leastEdits_reach(3) [of src dst] by simp
  have step: "dLoop src dst (Suc e) trace =
      (if Suc e = leastEdits src dst then Ok (trace @ [v]) else dLoop src dst (Suc (Suc e)) (trace @ [v]))"
    using max v(1) by (subst dLoop.simps) simp
  show ?case
  proof (cases "Suc e = leastEdits src dst")
    case True
    then show ?thesis using step less.prems(1,2) by (auto simp: nth_append)
  next
    case False
    then have "leastEdits src dst - Suc e < leastEdits src dst - e" "rounds src dst (trace @ [v])"
      "Suc (Suc e) \<le> leastEdits src dst" using less.prems(3) v(2) by auto
    from less.hyps [OF this(1,2) _ this(3)] less.prems(2) step False
    show ?thesis by (auto simp: nth_append)
  qed
qed

lemma dLoop_spec:
  "\<exists>trace. dLoop src dst 0 [] = Ok trace \<and> length trace = Suc (leastEdits src dst) \<and>
    rounds src dst (take (leastEdits src dst) trace) \<and> furthest src dst 0 0 ((trace ! 0) 0)"
proof -
  obtain t where t: "snake src dst 0 0 = Ok t" using snake_spec [of 0 0 src dst] by auto
  define v :: vmap where "v = (\<lambda>_. 0)(0 := t)"
  have f: "furthest src dst 0 0 (v 0)" using first_round [OF t] by (simp add: v_def)
  then have r: "rounds src dst [v]" using rounds_snoc [of src dst "[]" v] by (simp add: rounds_def)
  have least: "t = int (length src) \<and> t = int (length dst) \<longleftrightarrow> leastEdits src dst = 0"
  proof
    assume "t = int (length src) \<and> t = int (length dst)"
    then show "leastEdits src dst = 0" using end_iff_least [of src dst 0 0 t] f by (simp add: v_def)
  next
    assume l: "leastEdits src dst = 0"
    have r0: "furthest src dst 0 (endDiagonal src dst) (int (length src))" using furthest_least l by metis
    then have "endDiagonal src dst = 0" using furthest_diagonal by fastforce
    with furthest_unique [OF r0, of t] f show "t = int (length src) \<and> t = int (length dst)" by (simp add: v_def)
  qed
  have step: "dLoop src dst 0 [] = (if leastEdits src dst = 0 then Ok [v] else dLoop src dst (Suc 0) [v])"
    using t least by (subst dLoop.simps) (simp add: v_def [symmetric])
  show ?thesis
  proof (cases "leastEdits src dst = 0")
    case True
    then show ?thesis using step f by (simp add: rounds_def)
  next
    case False
    then show ?thesis using dLoop_rounds [OF r, of 0] step f by auto
  qed
qed

section \<open>The backward pass reads off a shortest script\<close>

lemma moveBack_spec:
  "x0 \<le> x \<Longrightarrow> x0 > prevX \<or> x0 - k > prevY \<Longrightarrow> x0 = prevX \<or> x0 - k = prevY \<Longrightarrow>
   moveBack prevX prevY x (x - k) script = (x0, script @ replicate (nat (x - x0)) MOVE)"
proof (induction "nat (x - x0)" arbitrary: x script)
  case 0
  then show ?case by (subst moveBack.simps) auto
next
  case (Suc n)
  then have "moveBack prevX prevY x (x - k) script = moveBack prevX prevY (x - 1) (x - 1 - k) (script @ [MOVE])"
    by (subst moveBack.simps) (auto simp: algebra_simps)
  also have "\<dots> = (x0, script @ [MOVE] @ replicate (nat (x - 1 - x0)) MOVE)"
    using Suc by (subst Suc.hyps(1)) auto
  also have "[MOVE] @ replicate (nat (x - 1 - x0)) MOVE = replicate (nat (x - x0)) MOVE"
  proof -
    have "nat (x - x0) = Suc (nat (x - 1 - x0))" using Suc.hyps(2) by linarith
    then show ?thesis by simp
  qed
  finally show ?case .
qed

lemma converts_append: "converts s a b \<Longrightarrow> converts s' c d \<Longrightarrow> converts (s @ s') (a @ c) (b @ d)"
  by (induction s a b rule: converts.induct) auto

lemma converts_moves: "length xs = n \<Longrightarrow> converts (replicate n MOVE) xs xs"
  by (induction xs arbitrary: n) auto

lemma edits_simps [simp]:
  "edits [] = 0" "edits (s @ s') = edits s + edits s'" "edits (replicate n MOVE) = 0"
  "edits [INSERT] = 1" "edits [DELETE] = 1"
  by (simp_all add: edits_def)

text \<open>An agreeing stretch of a diagonal is the same list on both sides.\<close>

lemma agreeing_eq:
  assumes "agreeing src dst k a b" "0 \<le> a" "0 \<le> a - k" "a \<le> b"
    and "b \<le> int (length src)" "b - k \<le> int (length dst)"
  shows "take (nat (b - a)) (drop (nat a) src) = take (nat (b - a)) (drop (nat (a - k)) dst)"
proof (rule nth_equalityI)
  show "length (take (nat (b - a)) (drop (nat a) src)) = length (take (nat (b - a)) (drop (nat (a - k)) dst))"
    using assms by auto
  fix i assume "i < length (take (nat (b - a)) (drop (nat a) src))"
  then have i: "int i < b - a" by auto
  then have "agree src dst (a + int i) (a + int i - k)" using assms(1) by auto
  moreover have "nat (a + int i) = nat a + i" "nat (a + int i - k) = nat (a - k) + i" using assms by auto
  ultimately show "take (nat (b - a)) (drop (nat a) src) ! i = take (nat (b - a)) (drop (nat (a - k)) dst) ! i"
    using i assms by (simp add: agree_def)
qed

lemma take_stretch: "0 \<le> a \<Longrightarrow> a \<le> b \<Longrightarrow> take (nat b) xs = take (nat a) xs @ take (nat (b - a)) (drop (nat a) xs)"
  by (metis le_add_diff_inverse nat_diff_distrib nat_mono take_add)

lemma converts_stretch:
  assumes "converts s (take (nat a) src) (take (nat (a - k)) dst)" "agreeing src dst k a b"
    "0 \<le> a" "0 \<le> a - k" "a \<le> b" "b \<le> int (length src)" "b - k \<le> int (length dst)"
  shows "converts (s @ replicate (nat (b - a)) MOVE) (take (nat b) src) (take (nat (b - k)) dst)"
proof -
  let ?m = "take (nat (b - a)) (drop (nat a) src)"
  have "take (nat b) src = take (nat a) src @ ?m" using assms(3,5) by (rule take_stretch)
  moreover have "take (nat (b - k)) dst = take (nat (a - k)) dst @ ?m"
    using take_stretch [of "a - k" "b - k" dst] agreeing_eq [OF assms(2-7)] assms(4,5) by simp
  moreover have "converts (replicate (nat (b - a)) MOVE) ?m ?m" using assms by (intro converts_moves) auto
  ultimately show ?thesis using converts_append assms(1) by metis
qed

lemma converts_insert:
  assumes "converts s (take (nat x) src) (take (nat y) dst)" "0 \<le> y" "y + 1 \<le> int (length dst)"
  shows "converts (s @ [INSERT]) (take (nat x) src) (take (nat (y + 1)) dst)"
proof -
  have "take (nat (y + 1)) dst = take (nat y) dst @ [dst ! nat y]"
    using assms(2,3) by (simp add: nat_add_distrib take_Suc_conv_app_nth)
  then show ?thesis using converts_append [OF assms(1), of "[INSERT]" "[]" "[dst ! nat y]"] by simp
qed

lemma converts_delete:
  assumes "converts s (take (nat x) src) (take (nat y) dst)" "0 \<le> x" "x + 1 \<le> int (length src)"
  shows "converts (s @ [DELETE]) (take (nat (x + 1)) src) (take (nat y) dst)"
proof -
  have "take (nat (x + 1)) src = take (nat x) src @ [src ! nat x]"
    using assms(2,3) by (simp add: nat_add_distrib take_Suc_conv_app_nth)
  then show ?thesis using converts_append [OF assms(1), of "[DELETE]" "[src ! nat x]" "[]"] by simp
qed

text \<open>One step back: where it leads, what it appends, and that the script up to there can be completed.\<close>

lemma back_step:
  assumes f: "\<forall>k\<in>set (diagonals e). furthest src dst e k (V k)" and x: "furthest src dst (Suc e) k x"
    and "x \<le> int (length src)" "x - k \<le> int (length dst)"
  obtains prevX prevK oper moves where
    "prevK = (if down (int (Suc e)) k V then k + 1 else k - 1)" "prevX = V prevK" "furthest src dst e prevK prevX"
    "prevX \<le> int (length src)" "prevX - prevK \<le> int (length dst)" "edits (oper # replicate moves MOVE) = 1"
    "\<And>script. \<exists>x'. moveBack prevX (prevX - prevK) x (x - k) script = (x', script @ replicate moves MOVE) \<and>
       oper = (if x' = prevX then INSERT else DELETE)"
    "\<And>s. converts s (take (nat prevX) src) (take (nat (prevX - prevK)) dst) \<Longrightarrow>
       converts (s @ oper # replicate moves MOVE) (take (nat x) src) (take (nat (x - k)) dst)"
proof -
  have k: "k \<in> set (diagonals (Suc e))" using x by (rule furthest_diagonal)
  define x0 where "x0 = startX (int (Suc e)) k V"
  obtain x'' where x'': "furthest src dst (Suc e) k x''" "x0 \<le> x''" "agreeing src dst k x0 x''"
    by (rule furthest_step [OF f k x0_def])
  have eq: "x'' = x" using furthest_unique [OF x''(1) x] .
  have ag: "x0 \<le> x" "agreeing src dst k x0 x" using x''(2,3) unfolding eq by auto
  have b0: "0 \<le> x0" "0 \<le> x0 - k"
    using reach_bounds [OF startX_reach [OF f k]] by (simp_all add: x0_def)
  define prevK where "prevK = (if down (int (Suc e)) k V then k + 1 else k - 1)"
  define prevX where "prevX = V prevK"
  have "prevK \<in> set (diagonals e)"
    using diagonals_neighbours [OF k] by (auto simp: prevK_def down_def)
  then have fp: "furthest src dst e prevK prevX" using f by (simp add: prevX_def)
  then have bp: "0 \<le> prevX" "0 \<le> prevX - prevK" using reach_bounds by (auto simp: furthest_def dest: reach_bounds)
  define oper where "oper = (if down (int (Suc e)) k V then INSERT else DELETE)"
  let ?m = "nat (x - x0)"
  have pos: "x0 = (if down (int (Suc e)) k V then prevX else prevX + 1)"
    "x0 - k = (if down (int (Suc e)) k V then prevX - prevK + 1 else prevX - prevK)"
    by (simp_all add: x0_def startX_def prevX_def prevK_def)
  have mb: "\<exists>x'. moveBack prevX (prevX - prevK) x (x - k) script = (x', script @ replicate ?m MOVE) \<and>
       oper = (if x' = prevX then INSERT else DELETE)" for script
    using moveBack_spec [where ?x0.0 = x0 and x = x and prevX = prevX and prevY = "prevX - prevK" and k = k and script = script] ag(1) pos
    by (intro exI [of _ x0]) (auto simp: oper_def split: if_splits)
  have cv: "converts (s @ oper # replicate ?m MOVE) (take (nat x) src) (take (nat (x - k)) dst)"
    if s: "converts s (take (nat prevX) src) (take (nat (prevX - prevK)) dst)" for s
  proof -
    have "converts (s @ [oper]) (take (nat x0) src) (take (nat (x0 - k)) dst)"
      using converts_insert [OF s bp(2)] converts_delete [OF s bp(1)] pos ag(1) assms(3,4)
      by (auto simp: oper_def split: if_splits)
    from converts_stretch [OF this ag(2) b0 ag(1) assms(3,4)] show ?thesis by simp
  qed
  have "prevX \<le> int (length src)" "prevX - prevK \<le> int (length dst)"
    using pos ag(1) assms(3,4) by (auto split: if_splits)
  moreover have "edits (oper # replicate ?m MOVE) = 1" by (simp add: edits_def oper_def)
  ultimately show ?thesis using that [OF prevK_def prevX_def fp _ _ _ mb cv] by blast
qed

lemma backLoop_spec:
  assumes first: "furthest src dst 0 0 ((trace ! 0) 0)"
  shows "\<forall>e<d. \<forall>k\<in>set (diagonals e). furthest src dst e k ((trace ! e) k) \<Longrightarrow> furthest src dst d (x - y) x \<Longrightarrow>
    x \<le> int (length src) \<Longrightarrow> y \<le> int (length dst) \<Longrightarrow>
    \<exists>pre. rev (backLoop trace d x y script @ replicate (nat ((trace ! 0) 0)) MOVE) = pre @ rev script \<and>
      converts pre (take (nat x) src) (take (nat y) dst) \<and> edits pre = d"
proof (induction d arbitrary: x y script)
  case 0
  then have "x - y \<in> set (diagonals 0)" by (intro furthest_diagonal)
  then have xy: "y = x" by simp
  then have x: "(trace ! 0) 0 = x" using furthest_unique [OF first] 0(2) by simp
  have r: "reach src dst 0 x x" using first x by (simp add: furthest_def)
  then have "agreeing src dst 0 0 x" "0 \<le> x" using reach_0 [OF r] reach_bounds [OF r] by auto
  then have "converts (replicate (nat x) MOVE) (take (nat x) src) (take (nat y) dst)"
    using converts_stretch [of "[]" 0 src 0 dst x] 0 xy by simp
  then show ?case using x by (intro exI [of _ "replicate (nat x) MOVE"]) simp
next
  case (Suc e)
  have f: "\<forall>k\<in>set (diagonals e). furthest src dst e k ((trace ! e) k)" using Suc.prems(1) by simp
  have y: "x - (x - y) = y" by simp
  obtain prevX prevK oper moves where p:
    "prevK = (if down (int (Suc e)) (x - y) (trace ! e) then x - y + 1 else x - y - 1)" "prevX = (trace ! e) prevK"
    "furthest src dst e prevK prevX" "prevX \<le> int (length src)" "prevX - prevK \<le> int (length dst)"
    "edits (oper # replicate moves MOVE) = 1"
    and mb: "\<And>script. \<exists>x'. moveBack prevX (prevX - prevK) x y script = (x', script @ replicate moves MOVE) \<and>
       oper = (if x' = prevX then INSERT else DELETE)"
    and cv: "\<And>s. converts s (take (nat prevX) src) (take (nat (prevX - prevK)) dst) \<Longrightarrow>
       converts (s @ oper # replicate moves MOVE) (take (nat x) src) (take (nat y) dst)"
    by (rule back_step [OF f Suc.prems(2,3), unfolded y, OF Suc.prems(4)]) (rule that)
  have step: "backLoop trace (Suc e) x y script =
      backLoop trace e prevX (prevX - prevK) (script @ replicate moves MOVE @ [oper])"
    using mb [of script] p(1,2) by (auto simp: Let_def)
  obtain pre where pre: "rev (backLoop trace e prevX (prevX - prevK) (script @ replicate moves MOVE @ [oper]) @
        replicate (nat ((trace ! 0) 0)) MOVE) = pre @ rev (script @ replicate moves MOVE @ [oper])"
      "converts pre (take (nat prevX) src) (take (nat (prevX - prevK)) dst)" "edits pre = e"
    using Suc.IH [of prevX "prevX - prevK" "script @ replicate moves MOVE @ [oper]"] Suc.prems(1) p(3-5) by auto
  then show ?case
    using cv [OF pre(2)] step p(6) by (intro exI [of _ "pre @ oper # replicate moves MOVE"]) simp
qed

lemma editScript_spec:
  "\<exists>s. editScript src dst = Ok s \<and> converts s src dst \<and> edits s = leastEdits src dst"
proof -
  obtain trace where t: "dLoop src dst 0 [] = Ok trace" "length trace = Suc (leastEdits src dst)"
    "rounds src dst (take (leastEdits src dst) trace)" "furthest src dst 0 0 ((trace ! 0) 0)"
    using dLoop_spec [of src dst] by blast
  have "\<forall>e<leastEdits src dst. \<forall>k\<in>set (diagonals e). furthest src dst e k ((trace ! e) k)"
    using t(2,3) by (simp add: rounds_def)
  from backLoop_spec [OF t(4) this furthest_least order_refl order_refl, of "[]"]
  show ?thesis using t(1,2) by (auto simp: editScript_def Let_def)
qed

section \<open>Properties\<close>

text \<open>
  C10: For all lists the algorithm ends without a panic, and its script turns the first list
  into the second with the least number of insertions and deletions any script needs.
\<close>

theorem editScript_shortest:
  "\<exists>s. editScript src dst = Ok s \<and> converts s src dst \<and> (\<forall>s'. converts s' src dst \<longrightarrow> edits s \<le> edits s')"
proof -
  obtain s where s: "editScript src dst = Ok s" "converts s src dst" "edits s = leastEdits src dst"
    using editScript_spec by blast
  have "edits s \<le> edits s'" if "converts s' src dst" for s'
  proof -
    have "reach src dst (0 + edits s') (int (length src)) (int (length dst))"
      by (rule reach_converts [of s' 0 src 0 dst 0]) (use that in \<open>simp_all add: reach.start\<close>)
    then show ?thesis using leastEdits_reach(2) s(3) by simp
  qed
  with s show ?thesis by blast
qed

section \<open>Witnesses\<close>

theorem editScript_shortest_witness:
  "\<exists>s. editScript ''abc'' ''ac'' = Ok s \<and> converts s ''abc'' ''ac'' \<and> edits s \<le> 1"
proof -
  have "converts [MOVE, DELETE, MOVE] ''abc'' ''ac''" "edits [MOVE, DELETE, MOVE] = 1" by (simp_all add: edits_def)
  with editScript_shortest [of "''abc''" "''ac''"] show ?thesis by metis
qed

end
