(* ===== verification/Dyaic.thy ===== *)
theory Dyaic
  imports Myers GoOS GoHash
begin

text \<open>
  The file comparison tool of \<open>src/lib/dyaic\<close>: line changes and their application
  (\<open>myers.go\<close>, \<open>recover.go\<close>), stored differences, the commit of a working directory to
  the repository (\<open>commands.go\<close>, \<open>diff.go\<close>, \<open>file.go\<close>, \<open>hash.go\<close>) and the
  patches between the numbered versions of a git walk. \<open>log.Panic\<close> is \<open>Panic\<close>; an
  operation that may panic half-way gives the machine it leaves. The programs \<open>diff\<close>,
  \<open>patch\<close>, \<open>bsdiff\<close> and \<open>bspatch\<close>, the walk over a directory and the modification
  times are arguments; what is printed is left out where it is only progress.
\<close>

section \<open>Lines and changes\<close>

definition RepoLocation :: string where "RepoLocation = ''repo''"

definition TempLocation :: string where "TempLocation = ''tmp''"

record Change =
  LineNumber :: int
  ChangeOp :: operation
  ChangeContent :: string

definition getFileLines :: "string \<Rightarrow> world \<Rightarrow> (os_error, string list) outcome" where
  "getFileLines p w =
     bindO (os_ReadFile w p) (\<lambda>data. if scan_err data then Err ErrOther else Ok (scan_lines data))"

definition linesOrPanic :: "string \<Rightarrow> world \<Rightarrow> (unit, string list) outcome" where
  "linesOrPanic p w = (case getFileLines p w of Ok ls \<Rightarrow> Ok ls | _ \<Rightarrow> Panic)"

fun changesLoop :: "string list \<Rightarrow> operation list \<Rightarrow> nat \<Rightarrow> nat \<Rightarrow> (unit, Change list) outcome" where
  "changesLoop dst [] srcIndex dstIndex = Ok []"
| "changesLoop dst (INSERT # s) srcIndex dstIndex =
     (if length dst \<le> dstIndex then Panic
      else bindO (changesLoop dst s srcIndex (Suc dstIndex)) (\<lambda>chs.
             Ok (\<lparr>LineNumber = int srcIndex, ChangeOp = INSERT, ChangeContent = dst ! dstIndex\<rparr> # chs)))"
| "changesLoop dst (MOVE # s) srcIndex dstIndex = changesLoop dst s (Suc srcIndex) (Suc dstIndex)"
| "changesLoop dst (DELETE # s) srcIndex dstIndex =
     bindO (changesLoop dst s (Suc srcIndex) dstIndex) (\<lambda>chs.
       Ok (\<lparr>LineNumber = int srcIndex, ChangeOp = DELETE, ChangeContent = []\<rparr> # chs))"

definition GenerateChanges :: "string \<Rightarrow> string \<Rightarrow> world \<Rightarrow> (unit, Change list) outcome" where
  "GenerateChanges old new w =
     bindO (linesOrPanic old w) (\<lambda>src.
     bindO (linesOrPanic new w) (\<lambda>dst.
     bindO (shortestEditScript src dst) (\<lambda>script. changesLoop dst script 0 0)))"

section \<open>Applying changes\<close>

text \<open>
  The text written so far and the next line of the old file; the flag is an index that is out
  of range, where the text written so far stays in the file.
\<close>

function copyLines :: "string list \<Rightarrow> int \<Rightarrow> int \<Rightarrow> string \<Rightarrow> string \<times> int \<times> bool" where
  "copyLines lines index lim out =
     (if index < lim then
        if index < 0 \<or> int (length lines) \<le> index then (out, index, True)
        else copyLines lines (index + 1) lim (out @ lines ! nat index @ [CHR 0x0A])
      else (out, index, False))"
  by pat_completeness auto
termination by (relation "measure (\<lambda>(lines, index, lim, out). nat (lim - index))") auto

declare copyLines.simps [simp del]

fun recoverLoop :: "string list \<Rightarrow> Change list \<Rightarrow> int \<Rightarrow> string \<Rightarrow> string \<times> int \<times> bool" where
  "recoverLoop lines [] index out = copyLines lines index (int (length lines)) out"
| "recoverLoop lines (ch # chs) index out =
     (case copyLines lines index (LineNumber ch) out of
        (out', index', True) \<Rightarrow> (out', index', True)
      | (out', index', False) \<Rightarrow>
          (case ChangeOp ch of
             INSERT \<Rightarrow> recoverLoop lines chs index' (out' @ ChangeContent ch @ [CHR 0x0A])
           | DELETE \<Rightarrow> recoverLoop lines chs (index' + 1) out'
           | MOVE \<Rightarrow> recoverLoop lines chs index' out'))"

definition Recover :: "string \<Rightarrow> Change list \<Rightarrow> world \<Rightarrow> world \<times> (unit, unit) outcome" where
  "Recover dst chs w =
     (case linesOrPanic dst w of
        Ok lines \<Rightarrow>
          (case recoverLoop lines chs 0 [] of
             (out, _, failed) \<Rightarrow>
               (case os_WriteFile w dst out of
                  Ok w' \<Rightarrow> (w', if failed then Panic else Ok ())
                | _ \<Rightarrow> (w, Panic)))
      | _ \<Rightarrow> (w, Panic))"

section \<open>Printed and stored differences\<close>

fun opColor :: "operation \<Rightarrow> string" where
  "opColor INSERT = CHR 0x1B # ''[32m''"
| "opColor DELETE = CHR 0x1B # ''[31m''"
| "opColor MOVE = CHR 0x1B # ''[39m''"

text \<open>The lines a script prints; \<open>None\<close> is an index out of range.\<close>

fun diffLines :: "(operation \<Rightarrow> string \<Rightarrow> 'b) \<Rightarrow> string list \<Rightarrow> string list \<Rightarrow> operation list \<Rightarrow> 'b list option" where
  "diffLines f src dst [] = Some []"
| "diffLines f src dst (INSERT # s) =
     (case dst of [] \<Rightarrow> None | b # dst' \<Rightarrow> map_option ((#) (f INSERT b)) (diffLines f src dst' s))"
| "diffLines f src dst (DELETE # s) =
     (case src of [] \<Rightarrow> None | a # src' \<Rightarrow> map_option ((#) (f DELETE a)) (diffLines f src' dst s))"
| "diffLines f src dst (MOVE # s) =
     (case src of [] \<Rightarrow> None | a # src' \<Rightarrow> map_option ((#) (f MOVE a)) (diffLines f src' (tl dst) s))"

fun opSign :: "operation \<Rightarrow> string" where
  "opSign INSERT = ''+''"
| "opSign DELETE = ''-''"
| "opSign MOVE = '' ''"

definition GenerateDiff :: "string list \<Rightarrow> string list \<Rightarrow> (unit, string list) outcome" where
  "GenerateDiff src dst =
     bindO (shortestEditScript src dst) (\<lambda>script.
       case diffLines (\<lambda>p l. opColor p @ opSign p @ l) src dst script of
         None \<Rightarrow> Panic
       | Some ls \<Rightarrow> Ok (ls @ [opColor MOVE]))"

definition ShowDiff :: "string \<Rightarrow> string \<Rightarrow> world \<Rightarrow> (unit, string list) outcome" where
  "ShowDiff old new w =
     bindO (linesOrPanic old w) (\<lambda>src. bindO (linesOrPanic new w) (\<lambda>dst. GenerateDiff src dst))"

definition SaveDiff :: "string \<Rightarrow> string \<Rightarrow> world \<Rightarrow> world \<times> (unit, unit) outcome" where
  "SaveDiff old new w =
     (case bindO (linesOrPanic old w) (\<lambda>src. bindO (linesOrPanic new w) (\<lambda>dst.
             bindO (shortestEditScript src dst) (\<lambda>script.
               case diffLines (\<lambda>p l. if p = MOVE then [] else opSign p @ l) src dst script of
                 None \<Rightarrow> Panic | Some ls \<Rightarrow> Ok (concat ls)))) of
        Ok out \<Rightarrow> (case os_WriteFile w (RepoLocation @ ''/diff'') out of Ok w' \<Rightarrow> (w', Ok ()) | _ \<Rightarrow> (w, Panic))
      | _ \<Rightarrow> (w, Panic))"

text \<open>The bytes of a stored byte difference; the option is the operation before, none at first.\<close>

fun byteDiff :: "string \<Rightarrow> string \<Rightarrow> operation option \<Rightarrow> operation list \<Rightarrow> string option" where
  "byteDiff src dst lstOp [] = Some []"
| "byteDiff src dst lstOp (INSERT # s) =
     (case dst of
        [] \<Rightarrow> None
      | b # dst' \<Rightarrow> map_option (\<lambda>r. (if lstOp \<noteq> Some INSERT then [CHR ''+''] else []) @ b # r) (byteDiff src dst' (Some INSERT) s))"
| "byteDiff src dst lstOp (DELETE # s) =
     (case src of
        [] \<Rightarrow> None
      | a # src' \<Rightarrow> map_option (\<lambda>r. (if lstOp \<noteq> Some DELETE then [CHR ''-''] else []) @ a # r) (byteDiff src' dst (Some DELETE) s))"
| "byteDiff src dst lstOp (MOVE # s) = byteDiff (tl src) (tl dst) (Some MOVE) s"

definition SaveDyaicDiff :: "string \<Rightarrow> string \<Rightarrow> world \<Rightarrow> world \<times> (unit, unit) outcome" where
  "SaveDyaicDiff old new w =
     (case (os_ReadFile w old, os_ReadFile w new) of
        (Ok src, Ok dst) \<Rightarrow>
          (case shortestEditDist src dst of
             Ok script \<Rightarrow>
               (case byteDiff src dst None script of
                  None \<Rightarrow> (w, Panic)
                | Some tmp \<Rightarrow>
                    (case os_WriteFile w (RepoLocation @ ''/diff'') tmp of Ok w' \<Rightarrow> (w', Ok ()) | _ \<Rightarrow> (w, Panic)))
           | _ \<Rightarrow> (w, Panic))
      | _ \<Rightarrow> (w, Panic))"

section \<open>Files and tools\<close>

record dyaic_env =
  diffTool :: "string list \<Rightarrow> world \<Rightarrow> string"
  patchTool :: "string list \<Rightarrow> world \<Rightarrow> world \<times> bool"
  bsdiffTool :: "string \<Rightarrow> string \<Rightarrow> string \<Rightarrow> world \<Rightarrow> world \<times> bool"
  bspatchTool :: "string \<Rightarrow> string \<Rightarrow> string \<Rightarrow> world \<Rightarrow> world \<times> bool"
  bashTool :: "string \<Rightarrow> world \<Rightarrow> world \<times> bool"
  modTime :: "string \<Rightarrow> int"
  homeDir :: "string option"
  dirCount :: "string \<Rightarrow> nat"

definition Md5File :: "string \<Rightarrow> world \<Rightarrow> (unit, string) outcome" where
  "Md5File p w = (case os_ReadFile w p of Ok data \<Rightarrow> Ok (Md5Sum data) | _ \<Rightarrow> Panic)"

definition SameFile :: "string \<Rightarrow> string \<Rightarrow> world \<Rightarrow> (unit, bool) outcome" where
  "SameFile a b w = bindO (Md5File a w) (\<lambda>x. bindO (Md5File b w) (\<lambda>y. Ok (x = y)))"

text \<open>A directory can be opened but not copied: the new file stays behind, empty.\<close>

definition copyFile :: "string \<Rightarrow> string \<Rightarrow> world \<Rightarrow> world \<times> (unit, unit) outcome" where
  "copyFile src dst w =
     (case os_ReadFile w src of
        Ok data \<Rightarrow> (case os_WriteFile w dst data of Ok w' \<Rightarrow> (w', Ok ()) | _ \<Rightarrow> (w, Panic))
      | _ \<Rightarrow>
          if dirs w src \<and> \<not> read_fails w src then
            (case os_WriteFile w dst [] of Ok w' \<Rightarrow> (w', Panic) | _ \<Rightarrow> (w, Panic))
          else (w, Panic))"

text \<open>\<open>exist\<close> on the error of \<open>os.Stat\<close>.\<close>

definition exist :: "(os_error, file_info) outcome \<Rightarrow> (unit, bool) outcome" where
  "exist r = (case r of Ok _ \<Rightarrow> Ok True | Err ErrNotExist \<Rightarrow> Ok False | _ \<Rightarrow> Panic)"

definition cleaned :: "bool \<Rightarrow> string \<Rightarrow> world \<Rightarrow> world \<times> (unit, unit) outcome" where
  "cleaned clean patchName w =
     (if clean then (case os_Remove w patchName of Ok w' \<Rightarrow> (w', Ok ()) | _ \<Rightarrow> (w, Panic)) else (w, Ok ()))"

definition genPatch :: "dyaic_env \<Rightarrow> string \<Rightarrow> string \<Rightarrow> string \<Rightarrow> world \<Rightarrow> world \<times> (unit, unit) outcome" where
  "genPatch env old new patchName w =
     (case os_WriteFile w patchName (diffTool env [old, new] w) of Ok w' \<Rightarrow> (w', Ok ()) | _ \<Rightarrow> (w, Panic))"

definition genPatchForDirectory :: "dyaic_env \<Rightarrow> string \<Rightarrow> string \<Rightarrow> string \<Rightarrow> world \<Rightarrow> world \<times> (unit, unit) outcome" where
  "genPatchForDirectory env old new patchName w =
     (case os_WriteFile w patchName (diffTool env [''-ruN'', old, new] w) of Ok w' \<Rightarrow> (w', Ok ()) | _ \<Rightarrow> (w, Panic))"

definition patch :: "dyaic_env \<Rightarrow> string \<Rightarrow> string \<Rightarrow> string \<Rightarrow> bool \<Rightarrow> world \<Rightarrow> world \<times> (unit, unit) outcome" where
  "patch env old new patchName clean w =
     (case patchTool env [old, ''-i'', patchName, ''-o'', new] w of
        (w1, True) \<Rightarrow> cleaned clean patchName w1
      | (w1, False) \<Rightarrow> (w1, Panic))"

definition patchForDirectory :: "dyaic_env \<Rightarrow> string \<Rightarrow> string \<Rightarrow> bool \<Rightarrow> world \<Rightarrow> world \<times> (unit, unit) outcome" where
  "patchForDirectory env old patchName clean w =
     (case bashTool env (''patch -d '' @ old @ '' -s -p5 < '' @ patchName) w of
        (w1, True) \<Rightarrow> cleaned clean patchName w1
      | (w1, False) \<Rightarrow> (w1, Panic))"

definition genBSPatch :: "dyaic_env \<Rightarrow> string \<Rightarrow> string \<Rightarrow> string \<Rightarrow> world \<Rightarrow> world \<times> (unit, unit) outcome" where
  "genBSPatch env old new patchName w =
     (case bsdiffTool env old new patchName w of (w1, True) \<Rightarrow> (w1, Ok ()) | (w1, False) \<Rightarrow> (w1, Panic))"

definition bsPatch :: "dyaic_env \<Rightarrow> string \<Rightarrow> string \<Rightarrow> string \<Rightarrow> bool \<Rightarrow> world \<Rightarrow> world \<times> (unit, unit) outcome" where
  "bsPatch env old new patchName clean w =
     (case bspatchTool env old new patchName w of
        (w1, True) \<Rightarrow> cleaned clean patchName w1
      | (w1, False) \<Rightarrow> (w1, Panic))"

section \<open>Commands\<close>

text \<open>One call of the function given to \<open>filepath.Walk\<close>.\<close>

record walk_call =
  WalkPath :: string
  WalkIsDir :: bool
  WalkModTime :: int
  WalkFailed :: bool

definition os_Mkdir :: "world \<Rightarrow> string \<Rightarrow> (os_error, world) outcome" where
  "os_Mkdir w p =
     (if write_fails w p \<or> content w p \<noteq> None \<or> dirs w p then Err ErrOther
      else Ok (w\<lparr>dirs := (dirs w)(p := True)\<rparr>))"

fun thenDo ::
  "world \<times> (unit, unit) outcome \<Rightarrow> (world \<Rightarrow> world \<times> (unit, unit) outcome) \<Rightarrow> world \<times> (unit, unit) outcome" where
  "thenDo (w, Ok _) f = f w"
| "thenDo (w, r) f = (w, r)"

text \<open>
  The calls in order, until one returns an error or panics, which both end in a panic of the
  command. \<open>path[locLen:]\<close> panics on a path shorter than the location.
\<close>

fun walkVisit :: "nat \<Rightarrow> (walk_call \<Rightarrow> string \<Rightarrow> world \<Rightarrow> world \<times> (unit, unit) outcome) \<Rightarrow> walk_call list \<Rightarrow> world \<Rightarrow>
    world \<times> (unit, unit) outcome" where
  "walkVisit locLen visitor [] w = (w, Ok ())"
| "walkVisit locLen visitor (c # cs) w =
     (if WalkFailed c \<or> length (WalkPath c) < locLen then (w, Panic)
      else thenDo (visitor c (drop locLen (WalkPath c)) w) (walkVisit locLen visitor cs))"

definition locOf :: "string \<Rightarrow> string" where
  "locOf loc = (if loc = [] then TempLocation else loc)"

definition commitVisit :: "dyaic_env \<Rightarrow> bool \<Rightarrow> walk_call \<Rightarrow> string \<Rightarrow> world \<Rightarrow> world \<times> (unit, unit) outcome" where
  "commitVisit env bs c rLoc w =
     (let repoLoc = RepoLocation @ rLoc; patchName = repoLoc @ ''.patch'' in
      case exist (os_Stat w repoLoc) of
        Ok True \<Rightarrow>
          if WalkIsDir c then (w, Ok ())
          else if WalkModTime c > modTime env repoLoc then
            if bs then thenDo (genBSPatch env repoLoc (WalkPath c) patchName w) (bsPatch env repoLoc repoLoc patchName True)
            else thenDo (genPatch env repoLoc (WalkPath c) patchName w) (patch env repoLoc repoLoc patchName True)
          else (w, Ok ())
      | Ok False \<Rightarrow>
          if WalkIsDir c then (case os_Mkdir w repoLoc of Ok w' \<Rightarrow> (w', Ok ()) | _ \<Rightarrow> (w, Panic))
          else copyFile (WalkPath c) repoLoc w
      | _ \<Rightarrow> (w, Panic))"

definition DyaicCommit :: "dyaic_env \<Rightarrow> (string \<Rightarrow> walk_call list) \<Rightarrow> string \<Rightarrow> bool \<Rightarrow> world \<Rightarrow> world \<times> (unit, unit) outcome" where
  "DyaicCommit env tree loc bs w =
     walkVisit (length (locOf loc)) (commitVisit env bs) (tree (locOf loc)) w"

text \<open>The error tested by \<open>exist\<close> here is that of the walk, always nil at that point.\<close>

definition patchVisit :: "dyaic_env \<Rightarrow> bool \<Rightarrow> walk_call \<Rightarrow> string \<Rightarrow> world \<Rightarrow> world \<times> (unit, unit) outcome" where
  "patchVisit env bs c rLoc w =
     (let repoLoc = RepoLocation @ rLoc; patchName = repoLoc @ ''.patch'' in
      if WalkIsDir c then (w, Ok ())
      else case SameFile (WalkPath c) repoLoc w of
             Ok True \<Rightarrow> (w, Ok ())
           | Ok False \<Rightarrow>
               if bs then genBSPatch env repoLoc (WalkPath c) patchName w
               else genPatch env repoLoc (WalkPath c) patchName w
           | _ \<Rightarrow> (w, Panic))"

definition DyaicPatch :: "dyaic_env \<Rightarrow> (string \<Rightarrow> walk_call list) \<Rightarrow> string \<Rightarrow> bool \<Rightarrow> world \<Rightarrow> world \<times> (unit, unit) outcome" where
  "DyaicPatch env tree loc bs w =
     walkVisit (length (locOf loc)) (patchVisit env bs) (tree (locOf loc)) w"

definition saveDiffVisit :: "dyaic_env \<Rightarrow> walk_call \<Rightarrow> string \<Rightarrow> world \<Rightarrow> world \<times> (unit, unit) outcome" where
  "saveDiffVisit env c rLoc w =
     (let repoLoc = RepoLocation @ rLoc in
      case exist (os_Stat w repoLoc) of
        Ok True \<Rightarrow>
          if WalkIsDir c then (w, Ok ())
          else if WalkModTime c > modTime env repoLoc then
            (case GenerateChanges repoLoc (WalkPath c) w of
               Ok chs \<Rightarrow> if chs = [] then (w, Ok ()) else SaveDyaicDiff repoLoc (WalkPath c) w
             | _ \<Rightarrow> (w, Panic))
          else (w, Ok ())
      | Ok False \<Rightarrow> (w, Ok ())
      | _ \<Rightarrow> (w, Panic))"

definition saveDiff :: "dyaic_env \<Rightarrow> (string \<Rightarrow> walk_call list) \<Rightarrow> string \<Rightarrow> world \<Rightarrow> world \<times> (unit, unit) outcome" where
  "saveDiff env tree loc w = walkVisit (length (locOf loc)) (saveDiffVisit env) (tree (locOf loc)) w"

text \<open>The loops over the numbered versions of a git walk.\<close>

fun versionLoop :: "(nat \<Rightarrow> world \<Rightarrow> world \<times> (unit, unit) outcome) \<Rightarrow> nat list \<Rightarrow> world \<Rightarrow> world \<times> (unit, unit) outcome" where
  "versionLoop f [] w = (w, Ok ())"
| "versionLoop f (d # ds) w = thenDo (f d w) (versionLoop f ds)"

definition DyaicGitwalker :: "dyaic_env \<Rightarrow> world \<Rightarrow> world \<times> (unit, unit) outcome" where
  "DyaicGitwalker env w =
     (case homeDir env of
        None \<Rightarrow> (w, Panic)
      | Some home \<Rightarrow>
          (let gitwalkerDir = home @ ''/.gitwalker/''; patchesDir = home @ ''/.dyaic/patches/'' in
           versionLoop (\<lambda>d. genPatchForDirectory env (gitwalkerDir @ pad_dec 4 (d - 1)) (gitwalkerDir @ pad_dec 4 d)
               (patchesDir @ pad_dec 4 (d - 1) @ pad_dec 4 d @ ''.patch''))
             [1..<dirCount env gitwalkerDir] w))"

definition DyaicPatchGitwalker :: "dyaic_env \<Rightarrow> bool \<Rightarrow> world \<Rightarrow> world \<times> (unit, unit) outcome" where
  "DyaicPatchGitwalker env bs w =
     (case homeDir env of
        None \<Rightarrow> (w, Panic)
      | Some home \<Rightarrow>
          (let gitwalkerDir = home @ ''/.gitwalker/''; patchesDir = home @ ''/.dyaic/patches/'' in
           versionLoop (\<lambda>d. patchForDirectory env (gitwalkerDir @ pad_dec 4 (d - 1))
               (patchesDir @ pad_dec 4 (d - 1) @ pad_dec 4 d @ ''.patch'') bs)
             [1..<dirCount env gitwalkerDir] w))"

section \<open>Lemmas\<close>

lemma copyLines_spec:
  "i \<le> j \<Longrightarrow> j \<le> length lines \<Longrightarrow>
   copyLines lines (int i) (int j) out = (out @ unlines (take (j - i) (drop i lines)), int j, False)"
proof (induction "j - i" arbitrary: i out)
  case 0
  then show ?case by (subst copyLines.simps) simp
next
  case (Suc n)
  then have i: "i < j" "i < length lines" by auto
  have "copyLines lines (int i) (int j) out = copyLines lines (int (Suc i)) (int j) (out @ lines ! i @ [CHR 0x0A])"
    using i by (subst copyLines.simps) (simp add: add.commute)
  also have "\<dots> = (out @ lines ! i @ [CHR 0x0A] @ unlines (take (j - Suc i) (drop (Suc i) lines)), int j, False)"
    using Suc i by (subst Suc.hyps(1)) auto
  also have "lines ! i @ [CHR 0x0A] @ unlines (take (j - Suc i) (drop (Suc i) lines)) = unlines (take (j - i) (drop i lines))"
    using i by (simp add: Cons_nth_drop_Suc [symmetric] Suc_diff_Suc [symmetric])
  finally show ?case .
qed

text \<open>
  Reading off the changes from line \<open>i\<close> of the old and \<open>j\<close> of the new file on, and applying
  them from a line \<open>k\<close> up to which the old file has been copied.
\<close>

lemma changes_recover:
  "converts s (drop i src) (drop j dst) \<Longrightarrow> i \<le> length src \<Longrightarrow> j \<le> length dst \<Longrightarrow>
   \<exists>chs. changesLoop dst s i j = Ok chs \<and>
     (\<forall>k out. k \<le> i \<longrightarrow> recoverLoop src chs (int k) out =
        (out @ unlines (take (i - k) (drop k src)) @ unlines (drop j dst), int (length src), False))"
proof (induction s arbitrary: i j)
  case Nil
  then have "i = length src" "j = length dst" by auto
  then show ?case by (simp add: copyLines_spec)
next
  case (Cons p s)
  show ?case
  proof (cases p)
    case INSERT
    then obtain b dst' where d: "drop j dst = b # dst'" "converts s (drop i src) dst'"
      using Cons.prems(1) by (cases "drop j dst") auto
    then have j: "j < length dst" "dst' = drop (Suc j) dst" "dst ! j = b"
      by (auto simp: drop_Suc tl_drop [symmetric] nth_via_drop intro: ccontr)
    obtain chs where chs: "changesLoop dst s i (Suc j) = Ok chs"
      "\<And>k out. k \<le> i \<Longrightarrow> recoverLoop src chs (int k) out =
        (out @ unlines (take (i - k) (drop k src)) @ unlines (drop (Suc j) dst), int (length src), False)"
      using Cons.IH [of i "Suc j"] d(2) j Cons.prems(2) by auto
    show ?thesis
      using INSERT chs j d(1) Cons.prems(2) by (simp add: copyLines_spec)
  next
    case DELETE
    then obtain a src' where d: "drop i src = a # src'" "converts s src' (drop j dst)"
      using Cons.prems(1) by (cases "drop i src") auto
    then have i: "i < length src" "src' = drop (Suc i) src"
      by (auto simp: drop_Suc tl_drop [symmetric] intro: ccontr)
    obtain chs where chs: "changesLoop dst s (Suc i) j = Ok chs"
      "\<And>k out. k \<le> Suc i \<Longrightarrow> recoverLoop src chs (int k) out =
        (out @ unlines (take (Suc i - k) (drop k src)) @ unlines (drop j dst), int (length src), False)"
      using Cons.IH [of "Suc i" j] d(2) i Cons.prems(3) by auto
    show ?thesis
      using DELETE chs(1) chs(2) [of "Suc i"] i Cons.prems(2) by (simp add: copyLines_spec add.commute)
  next
    case MOVE
    then obtain a src' dst' where d: "drop i src = a # src'" "drop j dst = a # dst'" "converts s src' dst'"
      using Cons.prems(1) by (cases "drop i src"; cases "drop j dst") auto
    then have ij: "i < length src" "src' = drop (Suc i) src" "j < length dst" "dst' = drop (Suc j) dst" "src ! i = a"
      by (auto simp: drop_Suc tl_drop [symmetric] nth_via_drop intro: ccontr)
    obtain chs where chs: "changesLoop dst s (Suc i) (Suc j) = Ok chs"
      "\<And>k out. k \<le> Suc i \<Longrightarrow> recoverLoop src chs (int k) out =
        (out @ unlines (take (Suc i - k) (drop k src)) @ unlines (drop (Suc j) dst), int (length src), False)"
      using Cons.IH [of "Suc i" "Suc j"] d(3) ij by auto
    have "unlines (take (Suc i - k) (drop k src)) = unlines (take (i - k) (drop k src)) @ a @ [CHR 0x0A]" if "k \<le> i" for k
    proof -
      have "take (Suc i - k) (drop k src) = take (i - k) (drop k src) @ [a]"
        using that ij(1,5) by (simp add: Suc_diff_le take_Suc_conv_app_nth)
      then show ?thesis by (simp add: unlines_append)
    qed
    then show ?thesis using MOVE chs d(2) ij(4) by simp
  qed
qed

lemma GenerateChanges_recover:
  assumes "getFileLines old w = Ok src" "getFileLines new w = Ok dst"
  shows "\<exists>chs. GenerateChanges old new w = Ok chs \<and> recoverLoop src chs 0 [] = (unlines dst, int (length src), False)"
proof -
  obtain s where s: "shortestEditScript src dst = Ok s" "converts s src dst"
    using editScript_spec [of src dst] by (auto simp: shortestEditScript_def)
  with changes_recover [of s 0 src 0 dst] show ?thesis
    using assms by (fastforce simp: GenerateChanges_def linesOrPanic_def)
qed

section \<open>Properties\<close>

text \<open>
  C11: Recovering a file with the changes generated from it to another one succeeds, and the file
  then has the lines of the other one, each ended by a newline; no other file changes.
\<close>

theorem Recover_GenerateChanges:
  assumes "getFileLines old w = Ok src" "getFileLines new w = Ok dst" "\<not> write_fails w old" "\<not> dirs w old"
  shows "\<exists>chs w'. GenerateChanges old new w = Ok chs \<and> Recover old chs w = (w', Ok ()) \<and>
    content w' old = Some (unlines dst) \<and> (\<forall>p. p \<noteq> old \<longrightarrow> content w' p = content w p)"
proof -
  obtain chs where chs: "GenerateChanges old new w = Ok chs" "recoverLoop src chs 0 [] = (unlines dst, int (length src), False)"
    using GenerateChanges_recover [OF assms(1,2)] by blast
  have "Recover old chs w = (w\<lparr>content := (content w)(old \<mapsto> unlines dst)\<rparr>, Ok ())"
    using assms chs(2) by (simp add: Recover_def linesOrPanic_def os_WriteFile_def)
  with chs(1) show ?thesis by (intro exI conjI) auto
qed

text \<open>
  Committing a regular file makes its copy in the repository equal to it, when the copy was
  missing or older: a new file is copied, and a changed one is patched with a binary patch that
  is removed again, given that \<open>bspatch\<close> applied to what \<open>bsdiff\<close> produced restores the
  new file. No other file changes.
\<close>

theorem commitVisit_updates:
  assumes "\<not> WalkIsDir c" "content w (WalkPath c) = Some data" "\<not> read_fails w (WalkPath c)"
    and "repoLoc = RepoLocation @ rLoc" "\<not> stat_fails w repoLoc" "\<not> dirs w repoLoc"
    and "\<not> write_fails w repoLoc" "\<not> write_fails w (repoLoc @ ''.patch'')"
    and "content w repoLoc \<noteq> None \<longrightarrow> WalkModTime c > modTime env repoLoc"
    and bsdiff: "\<And>old new p w x y. content w old = Some x \<Longrightarrow> content w new = Some y \<Longrightarrow>
      bsdiffTool env old new p w = (w\<lparr>content := (content w)(p \<mapsto> delta x y)\<rparr>, True)"
    and bspatch: "\<And>old new p w x y. content w old = Some x \<Longrightarrow> content w p = Some (delta x y) \<Longrightarrow>
      bspatchTool env old new p w = (w\<lparr>content := (content w)(new \<mapsto> y)\<rparr>, True)"
  shows "\<exists>w'. commitVisit env True c rLoc w = (w', Ok ()) \<and> content w' repoLoc = Some data \<and>
    (content w repoLoc \<noteq> None \<longrightarrow> content w' (repoLoc @ ''.patch'') = None) \<and>
    (\<forall>p. p \<noteq> repoLoc \<and> p \<noteq> repoLoc @ ''.patch'' \<longrightarrow> content w' p = content w p)"
proof (cases "content w repoLoc")
  case None
  then have "exist (os_Stat w repoLoc) = Ok False" using assms(5,6) by (simp add: exist_def os_Stat_def)
  then show ?thesis
    using None assms(1-4,6,7) by (simp add: commitVisit_def copyFile_def os_ReadFile_def os_WriteFile_def)
next
  case (Some x)
  then have ex: "exist (os_Stat w repoLoc) = Ok True" using assms(5) by (simp add: exist_def os_Stat_def)
  let ?p = "repoLoc @ ''.patch''"
  let ?w1 = "w\<lparr>content := (content w)(?p \<mapsto> delta x data)\<rparr>"
  let ?w2 = "w\<lparr>content := (content w)(?p \<mapsto> delta x data, repoLoc \<mapsto> data)\<rparr>"
  have "genBSPatch env repoLoc (WalkPath c) ?p w = (?w1, Ok ())"
    using bsdiff [OF Some assms(2)] by (simp add: genBSPatch_def)
  moreover have "bspatchTool env repoLoc repoLoc ?p ?w1 = (?w2, True)"
    using bspatch [of ?w1 repoLoc x ?p data] Some by simp
  then have "bsPatch env repoLoc repoLoc ?p True ?w1 = (?w2\<lparr>content := (content ?w2)(?p := None)\<rparr>, Ok ())"
    using assms(8) by (simp add: bsPatch_def cleaned_def os_Remove_def)
  ultimately show ?thesis using ex assms(1,4,9) Some by (simp add: commitVisit_def Let_def)
qed

text \<open>
  Generating patches panics on the first file of the working directory that the repository
  does not have, since its digest is taken without testing that it exists.
\<close>

theorem DyaicPatch_new_file:
  assumes "tree (locOf loc) = cs @ c # cs'"
    and "\<forall>d\<in>set cs. WalkIsDir d \<and> \<not> WalkFailed d \<and> length (locOf loc) \<le> length (WalkPath d)"
    and "\<not> WalkIsDir c" "length (locOf loc) \<le> length (WalkPath c)"
    and "content w (RepoLocation @ drop (length (locOf loc)) (WalkPath c)) = None"
  shows "DyaicPatch env tree loc bs w = (w, Panic)"
proof -
  have p: "patchVisit env bs c (drop (length (locOf loc)) (WalkPath c)) w = (w, Panic)"
    using assms(3,5) by (simp add: patchVisit_def SameFile_def Md5File_def os_ReadFile_def Let_def split: option.split)
  have "walkVisit (length (locOf loc)) (patchVisit env bs) (cs @ c # cs') w = (w, Panic)"
    using assms(2) p by (induction cs) (auto simp: patchVisit_def Let_def)
  then show ?thesis using assms(1) by (simp add: DyaicPatch_def)
qed

section \<open>Witnesses\<close>

definition twoFiles :: world where
  "twoFiles = emptyWorld\<lparr>content := [''old'' \<mapsto> unlines [''a'', ''b'', ''c''], ''new'' \<mapsto> unlines [''b'', ''x'', ''c'', ''d'']]\<rparr>"

lemma two_lines:
  "getFileLines ''old'' twoFiles = Ok [''a'', ''b'', ''c'']" "getFileLines ''new'' twoFiles = Ok [''b'', ''x'', ''c'', ''d'']"
  by (simp_all add: getFileLines_def os_ReadFile_def twoFiles_def scan_err_def scan_lines_def raw_lines_def
      dropCR_def MaxScanTokenSize_def)

theorem Recover_GenerateChanges_witness:
  "\<exists>chs w'. GenerateChanges ''old'' ''new'' twoFiles = Ok chs \<and> Recover ''old'' chs twoFiles = (w', Ok ()) \<and>
     content w' ''old'' = content twoFiles ''new''"
proof -
  have "content twoFiles ''new'' = Some (unlines [''b'', ''x'', ''c'', ''d''])" by (simp add: twoFiles_def)
  with Recover_GenerateChanges [OF two_lines] show ?thesis by (auto simp: twoFiles_def)
qed

definition copyTools :: dyaic_env where
  "copyTools = \<lparr>diffTool = (\<lambda>_ _. []), patchTool = (\<lambda>_ w. (w, True)),
     bsdiffTool = (\<lambda>old new p w. case content w new of Some y \<Rightarrow> (w\<lparr>content := (content w)(p \<mapsto> y)\<rparr>, True) | None \<Rightarrow> (w, False)),
     bspatchTool = (\<lambda>old new p w. case content w p of Some y \<Rightarrow> (w\<lparr>content := (content w)(new \<mapsto> y)\<rparr>, True) | None \<Rightarrow> (w, False)),
     bashTool = (\<lambda>_ w. (w, True)), modTime = (\<lambda>_. 0), homeDir = None, dirCount = (\<lambda>_. 0)\<rparr>"

definition tempFile :: walk_call where
  "tempFile = \<lparr>WalkPath = ''tmp/f'', WalkIsDir = False, WalkModTime = 1, WalkFailed = False\<rparr>"

definition changedWorld :: world where
  "changedWorld = emptyWorld\<lparr>content := [''tmp/f'' \<mapsto> ''new'', ''repo/f'' \<mapsto> ''old'']\<rparr>"

theorem commitVisit_updates_witness:
  "\<exists>w'. commitVisit copyTools True tempFile ''/f'' changedWorld = (w', Ok ()) \<and> content w' ''repo/f'' = Some ''new'' \<and>
     content w' ''repo/f.patch'' = None"
proof -
  have "\<exists>w'. commitVisit copyTools True tempFile ''/f'' changedWorld = (w', Ok ()) \<and> content w' ''repo/f'' = Some ''new'' \<and>
     (content changedWorld ''repo/f'' \<noteq> None \<longrightarrow> content w' (''repo/f'' @ ''.patch'') = None) \<and>
     (\<forall>p. p \<noteq> ''repo/f'' \<and> p \<noteq> ''repo/f'' @ ''.patch'' \<longrightarrow> content w' p = content changedWorld p)"
    by (rule commitVisit_updates [where delta = "\<lambda>x y. y"])
      (simp_all add: tempFile_def changedWorld_def emptyWorld_def copyTools_def RepoLocation_def)
  moreover have "content changedWorld ''repo/f'' \<noteq> None" by (simp add: changedWorld_def)
  ultimately show ?thesis by auto
qed

theorem DyaicPatch_new_file_witness:
  "DyaicPatch copyTools (\<lambda>_. [tempFile]) ''tmp'' True emptyWorld = (emptyWorld, Panic)"
  by (rule DyaicPatch_new_file [of _ _ "[]" tempFile "[]"]) (simp_all add: tempFile_def locOf_def)

end
