(* ===== verification/SectorEvents.thy ===== *)
theory SectorEvents
  imports Prelude SectorStates "HOL-Library.Word"
begin

text \<open>
  The record of a sector in the sealing pipeline (\<open>src/storage/pipeline/types.go\<close>) and
  the events of its state machine with what each does to the record
  (\<open>src/storage/pipeline/fsm_events.go\<close>). Cids, proofs and random values are byte strings,
  epochs are integers, the counters of failures keep their 64 bits. A pointer that may be nil
  is an option. The type \<open>ReturnState\<close> is a state; the empty string is
  \<open>UndefinedSectorState\<close>.
\<close>

section \<open>Sectors\<close>

record Log =
  LogTimestamp :: nat
  LogTrace :: string
  LogMessage :: string
  LogKind :: string

record PieceInfo =
  PieceInfoSize :: "64 word"
  PieceCID :: string

record DealProposal =
  ProposalPieceCID :: string
  StartEpoch :: int
  EndEpoch :: int

record PieceDealInfo =
  PublishCid :: "string option"
  DealID :: nat
  Proposal :: DealProposal
  ScheduleStart :: int
  ScheduleEnd :: int
  KeepUnsealed :: bool

record SectorPiece =
  Piece :: PieceInfo
  DealInfo :: "PieceDealInfo option"

record SectorLocation =
  Local :: bool
  URL :: string
  Headers :: "(string \<times> string) list"

record SectorInfo =
  State :: SectorState
  SectorNumber :: nat
  SectorType :: int
  CreationTime :: int
  Pieces :: "SectorPiece list"
  TicketValue :: string
  TicketEpoch :: int
  PreCommit1Out :: string
  CommD :: "string option"
  CommR :: "string option"
  Proof :: string
  PreCommitDeposit :: int
  PreCommitMessage :: "string option"
  PreCommitTipSet :: string
  PreCommit2Fails :: "64 word"
  SeedValue :: string
  SeedEpoch :: int
  CommitMessage :: "string option"
  InvalidProofs :: "64 word"
  CCUpdate :: bool
  CCPieces :: "SectorPiece list"
  UpdateSealed :: "string option"
  UpdateUnsealed :: "string option"
  ReplicaUpdateProof :: string
  ReplicaUpdateMessage :: "string option"
  FaultReportMsg :: "string option"
  Return :: SectorState
  TerminateMessage :: "string option"
  TerminatedAt :: int
  RemoteDataUnsealed :: "SectorLocation option"
  RemoteDataSealed :: "SectorLocation option"
  RemoteDataCache :: "SectorLocation option"
  RemoteCommit1Endpoint :: string
  RemoteCommit2Endpoint :: string
  RemoteSealingDoneEndpoint :: string
  RemoteDataFinalized :: bool
  LastErr :: string
  SectorLog :: "Log list"

definition emptyInfo :: SectorInfo where
  "emptyInfo = \<lparr>State = UndefinedSectorState, SectorNumber = 0, SectorType = 0, CreationTime = 0, Pieces = [],
     TicketValue = [], TicketEpoch = 0, PreCommit1Out = [], CommD = None, CommR = None, Proof = [],
     PreCommitDeposit = 0, PreCommitMessage = None, PreCommitTipSet = [], PreCommit2Fails = 0,
     SeedValue = [], SeedEpoch = 0, CommitMessage = None, InvalidProofs = 0, CCUpdate = False,
     CCPieces = [], UpdateSealed = None, UpdateUnsealed = None, ReplicaUpdateProof = [],
     ReplicaUpdateMessage = None, FaultReportMsg = None, Return = UndefinedSectorState,
     TerminateMessage = None, TerminatedAt = 0, RemoteDataUnsealed = None, RemoteDataSealed = None,
     RemoteDataCache = None, RemoteCommit1Endpoint = [], RemoteCommit2Endpoint = [],
     RemoteSealingDoneEndpoint = [], RemoteDataFinalized = False, LastErr = [], SectorLog = []\<rparr>"

definition pieceInfos :: "SectorInfo \<Rightarrow> PieceInfo list" where
  "pieceInfos t = map Piece (Pieces t)"

definition dealIDs :: "SectorInfo \<Rightarrow> nat list" where
  "dealIDs t = List.map_filter (\<lambda>p. map_option DealID (DealInfo p)) (Pieces t)"

text \<open>
  The size of a piece without its padding (\<open>PaddedPieceSize.Unpadded\<close> of the state types)
  is the argument \<open>unpadded\<close>.
\<close>

definition existingPieceSizes :: "(64 word \<Rightarrow> 64 word) \<Rightarrow> SectorInfo \<Rightarrow> 64 word list" where
  "existingPieceSizes unpadded t = map (\<lambda>p. unpadded (PieceInfoSize (Piece p))) (Pieces t)"

definition hasDeals :: "SectorInfo \<Rightarrow> bool" where
  "hasDeals t \<longleftrightarrow> list_ex (\<lambda>p. DealInfo p \<noteq> None) (Pieces t)"

text \<open>The ranges of sector data to keep unsealed, as offsets and lengths.\<close>

fun keepRanges :: "(64 word \<Rightarrow> 64 word) \<Rightarrow> bool \<Rightarrow> bool \<Rightarrow> 64 word \<Rightarrow> SectorPiece list \<Rightarrow> (64 word \<times> 64 word) list" where
  "keepRanges unpadded invert alwaysKeep pos [] = []"
| "keepRanges unpadded invert alwaysKeep pos (piece # pieces) =
     (let psize = unpadded (PieceInfoSize (Piece piece)); pos' = pos + psize;
          rest = keepRanges unpadded invert alwaysKeep pos' pieces in
      case DealInfo piece of
        None \<Rightarrow> rest
      | Some d \<Rightarrow> if (KeepUnsealed d \<or> alwaysKeep) = invert then rest else (pos' - psize, psize) # rest)"

definition keepUnsealedRanges :: "(64 word \<Rightarrow> 64 word) \<Rightarrow> SectorPiece list \<Rightarrow> bool \<Rightarrow> bool \<Rightarrow> (64 word \<times> 64 word) list" where
  "keepUnsealedRanges unpadded pieces invert alwaysKeep = keepRanges unpadded invert alwaysKeep 0 pieces"

section \<open>Events\<close>

text \<open>
  An event is the \<open>User\<close> value of a \<open>statemachine.Event\<close>. The interfaces of the source
  are the constructors here: a \<open>globalMutator\<close> applies in every state, a \<open>mutator\<close>
  where a planner lists its type, and any other value is known by its type name. The mutators
  are grouped as in the source.
  An embedded error is its text.
\<close>

datatype globalMutator =
    SectorRestart | SectorFatalError string | SectorForceState SectorState | SectorTerminate | SectorRemove

datatype (plugins only: code size) sealEvent =
    isSectorStart: SectorStart nat int | isSectorStartCC: SectorStartCC nat int |
    isSectorAddPiece: SectorAddPiece | isSectorPieceAdded: SectorPieceAdded "SectorPiece list" |
    isSectorAddPieceFailed: SectorAddPieceFailed string |
    isSectorRetryWaitDeals: SectorRetryWaitDeals | isSectorStartPacking: SectorStartPacking |
    isSectorPacked: SectorPacked "PieceInfo list" | isSectorTicket: SectorTicket string int |
    isSectorOldTicket: SectorOldTicket | isSectorPreCommit1: SectorPreCommit1 string |
    isSectorPreCommit2: SectorPreCommit2 string string |
    isSectorPreCommitBatch: SectorPreCommitBatch |
    isSectorPreCommitBatchSent: SectorPreCommitBatchSent string |
    isSectorPreCommitLanded: SectorPreCommitLanded string |
    isSectorSealPreCommit1Failed: SectorSealPreCommit1Failed string |
    isSectorSealPreCommit2Failed: SectorSealPreCommit2Failed string |
    isSectorChainPreCommitFailed: SectorChainPreCommitFailed string |
    isSectorPreCommitted: SectorPreCommitted string int string

datatype (plugins only: code size) commitEvent =
    isSectorSeedReady: SectorSeedReady string int |
    isSectorRemoteCommit1Failed: SectorRemoteCommit1Failed string |
    isSectorRemoteCommit2Failed: SectorRemoteCommit2Failed string |
    isSectorComputeProofFailed: SectorComputeProofFailed string |
    isSectorCommitFailed: SectorCommitFailed string |
    isSectorRetrySubmitCommit: SectorRetrySubmitCommit |
    isSectorDealsExpired: SectorDealsExpired string |
    isSectorTicketExpired: SectorTicketExpired string | isSectorCommitted: SectorCommitted string |
    isSectorProofReady: SectorProofReady string |
    isSectorSubmitCommitAggregate: SectorSubmitCommitAggregate |
    isSectorCommitSubmitted: SectorCommitSubmitted string |
    isSectorCommitAggregateSent: SectorCommitAggregateSent string |
    isSectorProving: SectorProving | isSectorFinalized: SectorFinalized |
    isSectorFinalizedAvailable: SectorFinalizedAvailable |
    isSectorRetryFinalize: SectorRetryFinalize | isSectorFinalizeFailed: SectorFinalizeFailed string

datatype (plugins only: code size) snapEvent =
    isSectorMarkForUpdate: SectorMarkForUpdate | isSectorStartCCUpdate: SectorStartCCUpdate |
    isSectorReplicaUpdate: SectorReplicaUpdate string string |
    isSectorProveReplicaUpdate: SectorProveReplicaUpdate string |
    isSectorReplicaUpdateSubmitted: SectorReplicaUpdateSubmitted string |
    isSectorReplicaUpdateLanded: SectorReplicaUpdateLanded |
    isSectorUpdateActive: SectorUpdateActive | isSectorKeyReleased: SectorKeyReleased

datatype (plugins only: code size) retryEvent =
    isSectorRetrySealPreCommit1: SectorRetrySealPreCommit1 |
    isSectorRetrySealPreCommit2: SectorRetrySealPreCommit2 |
    isSectorRetryPreCommit: SectorRetryPreCommit | isSectorRetryWaitSeed: SectorRetryWaitSeed |
    isSectorRetryPreCommitWait: SectorRetryPreCommitWait |
    isSectorRetryComputeProof: SectorRetryComputeProof |
    isSectorRetryInvalidProof: SectorRetryInvalidProof |
    isSectorRetryCommitWait: SectorRetryCommitWait |
    isSectorInvalidDealIDs: SectorInvalidDealIDs SectorState |
    isSectorUpdateDealIDs: SectorUpdateDealIDs "(int \<times> nat) list"

datatype (plugins only: code size) snapRetryEvent =
    isSectorRetryReplicaUpdate: SectorRetryReplicaUpdate |
    isSectorRetryProveReplicaUpdate: SectorRetryProveReplicaUpdate |
    isSectorUpdateReplicaFailed: SectorUpdateReplicaFailed string |
    isSectorProveReplicaUpdateFailed: SectorProveReplicaUpdateFailed string |
    isSectorAbortUpgrade: SectorAbortUpgrade string |
    isSectorRevertUpgradeToProving: SectorRevertUpgradeToProving |
    isSectorRetrySubmitReplicaUpdateWait: SectorRetrySubmitReplicaUpdateWait |
    isSectorRetrySubmitReplicaUpdate: SectorRetrySubmitReplicaUpdate |
    isSectorSubmitReplicaUpdateFailed: SectorSubmitReplicaUpdateFailed |
    isSectorReleaseKeyFailed: SectorReleaseKeyFailed string

datatype (plugins only: code size) otherEvent =
    isSectorFaulty: SectorFaulty | isSectorFaultReported: SectorFaultReported string |
    isSectorTerminating: SectorTerminating "string option" |
    isSectorTerminated: SectorTerminated int |
    isSectorTerminateFailed: SectorTerminateFailed string | isSectorRemoved: SectorRemoved |
    isSectorRemoveFailed: SectorRemoveFailed string | isSectorReceive: SectorReceive SectorInfo |
    isSectorReceived: SectorReceived

datatype mutator =
    Seal sealEvent | Commit commitEvent | Snap snapEvent | Retry retryEvent | SnapRetry snapRetryEvent | Ext otherEvent

datatype user = Global globalMutator | Mut mutator | OtherUser string

definition Ignorable :: "mutator \<Rightarrow> bool" where
  "Ignorable m \<longleftrightarrow> m = Seal SectorStartPacking"

text \<open>The events that format as errors, with \<open>FormatError\<close>.\<close>

fun mutFormatter :: "mutator \<Rightarrow> bool" where
  "mutFormatter (Seal e) =
     (isSectorAddPieceFailed e \<or> isSectorSealPreCommit1Failed e \<or>
      isSectorSealPreCommit2Failed e \<or> isSectorChainPreCommitFailed e)"
| "mutFormatter (Commit e) =
     (isSectorRemoteCommit1Failed e \<or> isSectorRemoteCommit2Failed e \<or>
      isSectorComputeProofFailed e \<or> isSectorCommitFailed e \<or> isSectorDealsExpired e \<or>
      isSectorTicketExpired e \<or> isSectorFinalizeFailed e)"
| "mutFormatter (Snap e) = False"
| "mutFormatter (Retry e) = False"
| "mutFormatter (SnapRetry e) =
     (isSectorUpdateReplicaFailed e \<or> isSectorProveReplicaUpdateFailed e \<or>
      isSectorAbortUpgrade e \<or> isSectorReleaseKeyFailed e)"
| "mutFormatter (Ext e) =
     (isSectorTerminateFailed e \<or> isSectorRemoveFailed e)"

fun isFormatter :: "user \<Rightarrow> bool" where
  "isFormatter (Global g) = (case g of SectorFatalError _ \<Rightarrow> True | _ \<Rightarrow> False)"
| "isFormatter (Mut m) = mutFormatter m"
| "isFormatter (OtherUser _) = False"

fun globalName :: "globalMutator \<Rightarrow> string" where
  "globalName SectorRestart = ''SectorRestart''"
| "globalName (SectorFatalError _) = ''SectorFatalError''"
| "globalName (SectorForceState _) = ''SectorForceState''"
| "globalName SectorTerminate = ''SectorTerminate''"
| "globalName SectorRemove = ''SectorRemove''"

fun sealEventName :: "sealEvent \<Rightarrow> string" where
  "sealEventName (SectorStart _ _) = ''SectorStart''"
| "sealEventName (SectorStartCC _ _) = ''SectorStartCC''"
| "sealEventName SectorAddPiece = ''SectorAddPiece''"
| "sealEventName (SectorPieceAdded _) = ''SectorPieceAdded''"
| "sealEventName (SectorAddPieceFailed _) = ''SectorAddPieceFailed''"
| "sealEventName SectorRetryWaitDeals = ''SectorRetryWaitDeals''"
| "sealEventName SectorStartPacking = ''SectorStartPacking''"
| "sealEventName (SectorPacked _) = ''SectorPacked''"
| "sealEventName (SectorTicket _ _) = ''SectorTicket''"
| "sealEventName SectorOldTicket = ''SectorOldTicket''"
| "sealEventName (SectorPreCommit1 _) = ''SectorPreCommit1''"
| "sealEventName (SectorPreCommit2 _ _) = ''SectorPreCommit2''"
| "sealEventName SectorPreCommitBatch = ''SectorPreCommitBatch''"
| "sealEventName (SectorPreCommitBatchSent _) = ''SectorPreCommitBatchSent''"
| "sealEventName (SectorPreCommitLanded _) = ''SectorPreCommitLanded''"
| "sealEventName (SectorSealPreCommit1Failed _) = ''SectorSealPreCommit1Failed''"
| "sealEventName (SectorSealPreCommit2Failed _) = ''SectorSealPreCommit2Failed''"
| "sealEventName (SectorChainPreCommitFailed _) = ''SectorChainPreCommitFailed''"
| "sealEventName (SectorPreCommitted _ _ _) = ''SectorPreCommitted''"

fun commitEventName :: "commitEvent \<Rightarrow> string" where
  "commitEventName (SectorSeedReady _ _) = ''SectorSeedReady''"
| "commitEventName (SectorRemoteCommit1Failed _) = ''SectorRemoteCommit1Failed''"
| "commitEventName (SectorRemoteCommit2Failed _) = ''SectorRemoteCommit2Failed''"
| "commitEventName (SectorComputeProofFailed _) = ''SectorComputeProofFailed''"
| "commitEventName (SectorCommitFailed _) = ''SectorCommitFailed''"
| "commitEventName SectorRetrySubmitCommit = ''SectorRetrySubmitCommit''"
| "commitEventName (SectorDealsExpired _) = ''SectorDealsExpired''"
| "commitEventName (SectorTicketExpired _) = ''SectorTicketExpired''"
| "commitEventName (SectorCommitted _) = ''SectorCommitted''"
| "commitEventName (SectorProofReady _) = ''SectorProofReady''"
| "commitEventName SectorSubmitCommitAggregate = ''SectorSubmitCommitAggregate''"
| "commitEventName (SectorCommitSubmitted _) = ''SectorCommitSubmitted''"
| "commitEventName (SectorCommitAggregateSent _) = ''SectorCommitAggregateSent''"
| "commitEventName SectorProving = ''SectorProving''"
| "commitEventName SectorFinalized = ''SectorFinalized''"
| "commitEventName SectorFinalizedAvailable = ''SectorFinalizedAvailable''"
| "commitEventName SectorRetryFinalize = ''SectorRetryFinalize''"
| "commitEventName (SectorFinalizeFailed _) = ''SectorFinalizeFailed''"

fun snapEventName :: "snapEvent \<Rightarrow> string" where
  "snapEventName SectorMarkForUpdate = ''SectorMarkForUpdate''"
| "snapEventName SectorStartCCUpdate = ''SectorStartCCUpdate''"
| "snapEventName (SectorReplicaUpdate _ _) = ''SectorReplicaUpdate''"
| "snapEventName (SectorProveReplicaUpdate _) = ''SectorProveReplicaUpdate''"
| "snapEventName (SectorReplicaUpdateSubmitted _) = ''SectorReplicaUpdateSubmitted''"
| "snapEventName SectorReplicaUpdateLanded = ''SectorReplicaUpdateLanded''"
| "snapEventName SectorUpdateActive = ''SectorUpdateActive''"
| "snapEventName SectorKeyReleased = ''SectorKeyReleased''"

fun retryEventName :: "retryEvent \<Rightarrow> string" where
  "retryEventName SectorRetrySealPreCommit1 = ''SectorRetrySealPreCommit1''"
| "retryEventName SectorRetrySealPreCommit2 = ''SectorRetrySealPreCommit2''"
| "retryEventName SectorRetryPreCommit = ''SectorRetryPreCommit''"
| "retryEventName SectorRetryWaitSeed = ''SectorRetryWaitSeed''"
| "retryEventName SectorRetryPreCommitWait = ''SectorRetryPreCommitWait''"
| "retryEventName SectorRetryComputeProof = ''SectorRetryComputeProof''"
| "retryEventName SectorRetryInvalidProof = ''SectorRetryInvalidProof''"
| "retryEventName SectorRetryCommitWait = ''SectorRetryCommitWait''"
| "retryEventName (SectorInvalidDealIDs _) = ''SectorInvalidDealIDs''"
| "retryEventName (SectorUpdateDealIDs _) = ''SectorUpdateDealIDs''"

fun snapRetryEventName :: "snapRetryEvent \<Rightarrow> string" where
  "snapRetryEventName SectorRetryReplicaUpdate = ''SectorRetryReplicaUpdate''"
| "snapRetryEventName SectorRetryProveReplicaUpdate = ''SectorRetryProveReplicaUpdate''"
| "snapRetryEventName (SectorUpdateReplicaFailed _) = ''SectorUpdateReplicaFailed''"
| "snapRetryEventName (SectorProveReplicaUpdateFailed _) = ''SectorProveReplicaUpdateFailed''"
| "snapRetryEventName (SectorAbortUpgrade _) = ''SectorAbortUpgrade''"
| "snapRetryEventName SectorRevertUpgradeToProving = ''SectorRevertUpgradeToProving''"
| "snapRetryEventName SectorRetrySubmitReplicaUpdateWait = ''SectorRetrySubmitReplicaUpdateWait''"
| "snapRetryEventName SectorRetrySubmitReplicaUpdate = ''SectorRetrySubmitReplicaUpdate''"
| "snapRetryEventName SectorSubmitReplicaUpdateFailed = ''SectorSubmitReplicaUpdateFailed''"
| "snapRetryEventName (SectorReleaseKeyFailed _) = ''SectorReleaseKeyFailed''"

fun otherEventName :: "otherEvent \<Rightarrow> string" where
  "otherEventName SectorFaulty = ''SectorFaulty''"
| "otherEventName (SectorFaultReported _) = ''SectorFaultReported''"
| "otherEventName (SectorTerminating _) = ''SectorTerminating''"
| "otherEventName (SectorTerminated _) = ''SectorTerminated''"
| "otherEventName (SectorTerminateFailed _) = ''SectorTerminateFailed''"
| "otherEventName SectorRemoved = ''SectorRemoved''"
| "otherEventName (SectorRemoveFailed _) = ''SectorRemoveFailed''"
| "otherEventName (SectorReceive _) = ''SectorReceive''"
| "otherEventName SectorReceived = ''SectorReceived''"

fun mutName :: "mutator \<Rightarrow> string" where
  "mutName (Seal e) = sealEventName e"
| "mutName (Commit e) = commitEventName e"
| "mutName (Snap e) = snapEventName e"
| "mutName (Retry e) = retryEventName e"
| "mutName (SnapRetry e) = snapRetryEventName e"
| "mutName (Ext e) = otherEventName e"

text \<open>What \<open>%T\<close> prints.\<close>

fun typeName :: "user \<Rightarrow> string" where
  "typeName (Global g) = ''sealing.'' @ globalName g"
| "typeName (Mut m) = ''sealing.'' @ mutName m"
| "typeName (OtherUser t) = t"

section \<open>Effects\<close>

record RemoteSealingDoneParams =
  Endpoint :: string
  Successful :: bool
  DoneState :: string
  DoneCommitMessage :: "string option"

text \<open>The notification of the remote sealing endpoint, whose failures are only logged.\<close>

definition maybeNotifyRemoteDone :: "bool \<Rightarrow> string \<Rightarrow> SectorInfo \<Rightarrow> RemoteSealingDoneParams list" where
  "maybeNotifyRemoteDone success st sector =
     (if RemoteSealingDoneEndpoint sector = [] then []
      else [\<lparr>Endpoint = RemoteSealingDoneEndpoint sector, Successful = success, DoneState = st,
             DoneCommitMessage = CommitMessage sector\<rparr>])"

fun applyGlobal :: "globalMutator \<Rightarrow> SectorInfo \<Rightarrow> SectorInfo \<times> RemoteSealingDoneParams list \<times> bool" where
  "applyGlobal SectorRestart st = (st, [], False)"
| "applyGlobal (SectorFatalError _) st = (st, [], True)"
| "applyGlobal (SectorForceState s) st = (st\<lparr>State := s\<rparr>, [], True)"
| "applyGlobal SectorTerminate st = (st\<lparr>State := Terminating\<rparr>, [], True)"
| "applyGlobal SectorRemove st =
     (st\<lparr>State := Removing\<rparr>, maybeNotifyRemoteDone False ''Removing'' st, True)"

text \<open>
  The updates of \<open>SectorUpdateDealIDs\<close>: an index outside the pieces or a piece without a
  deal panics. The keys of the Go map are distinct, so the order of the list does not matter.
\<close>

fun updateDealIDs :: "(int \<times> nat) list \<Rightarrow> SectorPiece list \<Rightarrow> (unit, SectorPiece list) outcome" where
  "updateDealIDs [] ps = Ok ps"
| "updateDealIDs ((i, deal) # us) ps =
     (if i < 0 \<or> int (length ps) \<le> i then Panic
      else case DealInfo (ps ! nat i) of
             None \<Rightarrow> Panic
           | Some d \<Rightarrow> updateDealIDs us (ps[nat i := (ps ! nat i)\<lparr>DealInfo := Some (d\<lparr>DealID := deal\<rparr>)\<rparr>]))"

text \<open>The method \<open>apply\<close> of every event; \<open>now\<close> is the clock.\<close>

definition applySeal :: "int \<Rightarrow> sealEvent \<Rightarrow> SectorInfo \<Rightarrow> SectorInfo" where
  "applySeal now evt st = (case evt of
     SectorStart i t \<Rightarrow> st\<lparr>SectorNumber := i, SectorType := t\<rparr>
   | SectorStartCC i t \<Rightarrow> st\<lparr>SectorNumber := i, SectorType := t\<rparr>
   | SectorAddPiece \<Rightarrow> if CreationTime st = 0 then st\<lparr>CreationTime := now\<rparr> else st
   | SectorPieceAdded ps \<Rightarrow> st\<lparr>Pieces := Pieces st @ ps\<rparr>
   | SectorPacked fillers \<Rightarrow> st\<lparr>Pieces := Pieces st @ map (\<lambda>p. \<lparr>Piece = p, DealInfo = None\<rparr>) fillers\<rparr>
   | SectorTicket v e \<Rightarrow> st\<lparr>TicketEpoch := e, TicketValue := v\<rparr>
   | SectorPreCommit1 out \<Rightarrow> st\<lparr>PreCommit1Out := out, PreCommit2Fails := 0\<rparr>
   | SectorPreCommit2 sealed unsealed \<Rightarrow> st\<lparr>CommD := Some unsealed, CommR := Some sealed\<rparr>
   | SectorPreCommitBatchSent msg \<Rightarrow> st\<lparr>PreCommitMessage := Some msg\<rparr>
   | SectorPreCommitLanded ts \<Rightarrow> st\<lparr>PreCommitTipSet := ts\<rparr>
   | SectorSealPreCommit1Failed _ \<Rightarrow> st\<lparr>InvalidProofs := 0, PreCommit2Fails := 0\<rparr>
   | SectorSealPreCommit2Failed _ \<Rightarrow> st\<lparr>InvalidProofs := 0, PreCommit2Fails := PreCommit2Fails st + 1\<rparr>
   | SectorPreCommitted msg deposit _ \<Rightarrow> st\<lparr>PreCommitMessage := Some msg, PreCommitDeposit := deposit\<rparr>
   | _ \<Rightarrow> st)"

definition applyCommit :: "commitEvent \<Rightarrow> SectorInfo \<Rightarrow> SectorInfo" where
  "applyCommit evt st = (case evt of
     SectorSeedReady v e \<Rightarrow> st\<lparr>SeedEpoch := e, SeedValue := v\<rparr>
   | SectorCommitted prf \<Rightarrow> st\<lparr>Proof := prf\<rparr>
   | SectorProofReady prf \<Rightarrow> st\<lparr>Proof := prf\<rparr>
   | SectorCommitSubmitted msg \<Rightarrow> st\<lparr>CommitMessage := Some msg\<rparr>
   | SectorCommitAggregateSent msg \<Rightarrow> st\<lparr>CommitMessage := Some msg\<rparr>
   | _ \<Rightarrow> st)"

definition applySnap :: "snapEvent \<Rightarrow> SectorInfo \<Rightarrow> SectorInfo" where
  "applySnap evt st = (case evt of
     SectorStartCCUpdate \<Rightarrow> st\<lparr>CCUpdate := True, CCPieces := Pieces st, Pieces := []\<rparr>
   | SectorReplicaUpdate sealed unsealed \<Rightarrow> st\<lparr>UpdateSealed := Some sealed, UpdateUnsealed := Some unsealed\<rparr>
   | SectorProveReplicaUpdate prf \<Rightarrow> st\<lparr>ReplicaUpdateProof := prf\<rparr>
   | SectorReplicaUpdateSubmitted msg \<Rightarrow> st\<lparr>ReplicaUpdateMessage := Some msg\<rparr>
   | _ \<Rightarrow> st)"

definition applyRetry :: "retryEvent \<Rightarrow> SectorInfo \<Rightarrow> (unit, SectorInfo) outcome" where
  "applyRetry evt st = (case evt of
     SectorRetryComputeProof \<Rightarrow> Ok (st\<lparr>InvalidProofs := InvalidProofs st + 1\<rparr>)
   | SectorRetryInvalidProof \<Rightarrow> Ok (st\<lparr>InvalidProofs := InvalidProofs st + 1\<rparr>)
   | SectorInvalidDealIDs ret \<Rightarrow> Ok (st\<lparr>Return := ret\<rparr>)
   | SectorUpdateDealIDs updates \<Rightarrow>
       bindO (updateDealIDs updates (Pieces st)) (\<lambda>ps. Ok (st\<lparr>Pieces := ps\<rparr>))
   | _ \<Rightarrow> Ok st)"

definition applySnapRetry :: "snapRetryEvent \<Rightarrow> SectorInfo \<Rightarrow> SectorInfo" where
  "applySnapRetry evt st = (case evt of
     SectorRevertUpgradeToProving \<Rightarrow>
       st\<lparr>CCUpdate := False, UpdateSealed := None, UpdateUnsealed := None, ReplicaUpdateProof := [],
          ReplicaUpdateMessage := None, Pieces := CCPieces st, CCPieces := []\<rparr>
   | _ \<Rightarrow> st)"

definition applyOther :: "otherEvent \<Rightarrow> SectorInfo \<Rightarrow> SectorInfo" where
  "applyOther evt st = (case evt of
     SectorFaultReported msg \<Rightarrow> st\<lparr>FaultReportMsg := Some msg\<rparr>
   | SectorTerminating msg \<Rightarrow> st\<lparr>TerminateMessage := msg\<rparr>
   | SectorTerminated epoch \<Rightarrow> st\<lparr>TerminatedAt := epoch\<rparr>
   | SectorReceive st' \<Rightarrow> st'
   | _ \<Rightarrow> st)"

fun applyMut :: "int \<Rightarrow> mutator \<Rightarrow> SectorInfo \<Rightarrow> (unit, SectorInfo) outcome" where
  "applyMut now (Seal evt) st = Ok (applySeal now evt st)"
| "applyMut now (Commit evt) st = Ok (applyCommit evt st)"
| "applyMut now (Snap evt) st = Ok (applySnap evt st)"
| "applyMut now (Retry evt) st = applyRetry evt st"
| "applyMut now (SnapRetry evt) st = Ok (applySnapRetry evt st)"
| "applyMut now (Ext evt) st = Ok (applyOther evt st)"

end
