(* ===== verification/SectorStats.thy ===== *)
theory SectorStats
  imports Prelude SectorStates "HOL-Library.Word"
begin

text \<open>
  The counts of sectors per stage of the pipeline (\<open>src/storage/pipeline/stats.go\<close>), which
  decide whether new sectors may be opened for deals, and the sealing configuration
  (\<open>src/storage/pipeline/sealiface/config.go\<close>) they are compared with. The totals are
  unsigned 64-bit counters and wrap. Recording the metric is left out.
\<close>

record SealingConfig =
  MaxWaitDealsSectors :: "64 word"
  MaxSealingSectors :: "64 word"
  MaxSealingSectorsForDeals :: "64 word"
  PreferNewSectorsForDeals :: bool
  MinUpgradeSectorExpiration :: "64 word"
  MinTargetUpgradeSectorExpiration :: "64 word"
  MaxUpgradingSectors :: "64 word"
  MakeNewSectorForDeals :: bool
  MakeCCSectorsAvailable :: bool
  WaitDealsDelay :: int
  CommittedCapacitySectorLifetime :: int
  StartEpochSealingBuffer :: int
  AlwaysKeepUnsealedCopy :: bool
  FinalizeEarly :: bool

type_synonym sector_id = "nat \<times> nat"

record SectorStats =
  bySector :: "sector_id \<rightharpoonup> SectorState"
  byState :: "SectorState \<Rightarrow> int"
  totals :: "statSectorState \<Rightarrow> 64 word"

definition newStats :: SectorStats where
  "newStats = \<lparr>bySector = Map.empty, byState = (\<lambda>_. 0), totals = (\<lambda>_. 0)\<rparr>"

definition curSealing :: "SectorStats \<Rightarrow> 64 word" where
  "curSealing ss = totals ss sstStaging + totals ss sstSealing + totals ss sstFailed"

definition curStaging :: "SectorStats \<Rightarrow> 64 word" where
  "curStaging ss = totals ss sstStaging"

definition dropSector :: "bool \<Rightarrow> sector_id \<Rightarrow> SectorStats \<Rightarrow> SectorStats" where
  "dropSector early sid ss =
     (case bySector ss sid of
        None \<Rightarrow> ss
      | Some oldst \<Rightarrow>
          let sst = toStatState oldst early in
          ss\<lparr>byState := (byState ss)(oldst := byState ss oldst - 1), totals := (totals ss)(sst := totals ss sst - 1)\<rparr>)"

definition addSector :: "bool \<Rightarrow> sector_id \<Rightarrow> SectorState \<Rightarrow> SectorStats \<Rightarrow> SectorStats" where
  "addSector early sid st ss =
     (let sst = toStatState st early in
      ss\<lparr>bySector := (bySector ss)(sid \<mapsto> st), byState := (byState ss)(st := byState ss st + 1),
         totals := (totals ss)(sst := totals ss sst + 1)\<rparr>)"

text \<open>The limit \<open>0\<close> is no limit; the flag asks for more input once the count falls below one.\<close>

definition fellBelow :: "64 word \<Rightarrow> 64 word \<Rightarrow> 64 word \<Rightarrow> bool" where
  "fellBelow lim before after \<longleftrightarrow> lim > 0 \<and> before \<ge> lim \<and> after < lim"

definition updateSector :: "SealingConfig \<Rightarrow> sector_id \<Rightarrow> SectorState \<Rightarrow> SectorStats \<Rightarrow> SectorStats \<times> bool" where
  "updateSector cfg sid st ss =
     (let ss' = addSector (FinalizeEarly cfg) sid st (dropSector (FinalizeEarly cfg) sid ss) in
      (ss', fellBelow (MaxSealingSectorsForDeals cfg) (curSealing ss) (curSealing ss') \<or>
            fellBelow (MaxWaitDealsSectors cfg) (curStaging ss) (curStaging ss')))"

section \<open>What the counts mean\<close>

text \<open>The sectors of a stage.\<close>

definition stageOf :: "bool \<Rightarrow> SectorStats \<Rightarrow> statSectorState \<Rightarrow> sector_id set" where
  "stageOf early ss k = {sid. \<exists>st. bySector ss sid = Some st \<and> toStatState st early = k}"

text \<open>The counts agree with the recorded states of the sectors.\<close>

definition counted :: "bool \<Rightarrow> SectorStats \<Rightarrow> bool" where
  "counted early ss \<longleftrightarrow> finite (dom (bySector ss)) \<and>
     (\<forall>k. totals ss k = of_nat (card (stageOf early ss k))) \<and>
     (\<forall>st. byState ss st = int (card {sid. bySector ss sid = Some st}))"

lemma finite_stageOf: "counted early ss \<Longrightarrow> finite (stageOf early ss k)"
  unfolding counted_def stageOf_def by (rule finite_subset [of _ "dom (bySector ss)"]) auto

lemma card_update:
  assumes "finite A"
  shows "int (card (if b then insert x A else A - {x})) = int (card A) - (if x \<in> A then 1 else 0) + (if b then 1 else 0)"
proof (cases "x \<in> A")
  case True
  then have "0 < card A" using assms by (auto simp: card_gt_0_iff)
  with True assms show ?thesis by (simp add: insert_absorb of_nat_diff)
qed (use assms in simp)

lemma stageOf_update:
  "stageOf early (fst (updateSector cfg sid st ss)) k =
     (if toStatState st early = k then insert sid (stageOf early ss k) else stageOf early ss k - {sid})"
  by (auto simp: stageOf_def updateSector_def addSector_def dropSector_def Let_def split: option.splits)

lemma totals_update:
  "totals (fst (updateSector cfg sid st ss)) k =
     totals ss k - (if sid \<in> stageOf (FinalizeEarly cfg) ss k then 1 else 0) +
     (if toStatState st (FinalizeEarly cfg) = k then 1 else 0)"
  by (auto simp: stageOf_def updateSector_def addSector_def dropSector_def Let_def split: option.splits)

lemma byState_update:
  "byState (fst (updateSector cfg sid st ss)) s =
     byState ss s - (if bySector ss sid = Some s then 1 else 0) + (if s = st then 1 else 0)"
  by (auto simp: updateSector_def addSector_def dropSector_def Let_def split: option.splits)

lemma bySector_update: "bySector (fst (updateSector cfg sid st ss)) = (bySector ss)(sid \<mapsto> st)"
  by (auto simp: updateSector_def addSector_def dropSector_def Let_def split: option.splits)

lemma sectors_update:
  "{i. ((bySector ss)(sid \<mapsto> st)) i = Some s} =
     (if st = s then insert sid {i. bySector ss i = Some s} else {i. bySector ss i = Some s} - {sid})"
  by auto

lemma counted_updateSector:
  assumes "counted (FinalizeEarly cfg) ss"
  shows "counted (FinalizeEarly cfg) (fst (updateSector cfg sid st ss))"
proof -
  have fin: "finite {i. bySector ss i = Some s}" for s
    using assms unfolding counted_def by (auto intro: finite_subset [of _ "dom (bySector ss)"])
  have "totals (fst (updateSector cfg sid st ss)) k =
      of_nat (card (stageOf (FinalizeEarly cfg) (fst (updateSector cfg sid st ss)) k))" for k
  proof -
    have "(of_nat (card (stageOf (FinalizeEarly cfg) (fst (updateSector cfg sid st ss)) k)) :: 64 word) =
        of_int (int (card (stageOf (FinalizeEarly cfg) ss k)) - (if sid \<in> stageOf (FinalizeEarly cfg) ss k then 1 else 0) +
          (if toStatState st (FinalizeEarly cfg) = k then 1 else 0))"
      unfolding stageOf_update using card_update [OF finite_stageOf [OF assms]] by (metis of_int_of_nat_eq)
    also have "\<dots> = totals (fst (updateSector cfg sid st ss)) k"
      using assms unfolding totals_update counted_def by simp
    finally show ?thesis by simp
  qed
  moreover have "byState (fst (updateSector cfg sid st ss)) s =
      int (card {i. bySector (fst (updateSector cfg sid st ss)) i = Some s})" for s
    using assms unfolding byState_update bySector_update sectors_update card_update [OF fin] counted_def by simp
  ultimately show ?thesis using assms by (simp add: counted_def bySector_update)
qed

text \<open>A sequence of updates, each with the configuration of its moment.\<close>

definition updateAll :: "(SealingConfig \<times> sector_id \<times> SectorState) list \<Rightarrow> SectorStats \<Rightarrow> SectorStats" where
  "updateAll us = fold (\<lambda>(cfg, sid, st) ss. fst (updateSector cfg sid st ss)) us"

lemma updateAll_simps [simp]:
  "updateAll [] ss = ss"
  "updateAll ((cfg, sid, st) # us) ss = updateAll us (fst (updateSector cfg sid st ss))"
  by (simp_all add: updateAll_def)

lemma counted_updateAll:
  assumes "\<forall>u\<in>set us. FinalizeEarly (fst u) = early" "counted early ss"
  shows "counted early (updateAll us ss)"
  using assms
proof (induction us arbitrary: ss)
  case (Cons u us)
  obtain cfg sid st where u: "u = (cfg, sid, st)" by (cases u)
  have "counted early (fst (updateSector cfg sid st ss))"
    using Cons.prems counted_updateSector [of cfg ss sid st] u by simp
  then show ?case using Cons.IH Cons.prems(1) u by simp
qed simp

lemma bySector_updateAll: "bySector (updateAll us ss) = bySector ss ++ map_of (rev (map snd us))"
  by (induction us arbitrary: ss) (auto simp: bySector_update)

lemma counted_newStats: "counted early newStats"
  by (simp add: counted_def newStats_def stageOf_def)

lemma toStatState_cases:
  "toStatState st early \<noteq> sstProving \<longleftrightarrow>
     toStatState st early = sstStaging \<or> toStatState st early = sstSealing \<or> toStatState st early = sstFailed"
  by (cases "toStatState st early") auto

lemma curSealing_counted:
  assumes "counted early ss"
  shows "curSealing ss = of_nat (card {sid. \<exists>st. bySector ss sid = Some st \<and> toStatState st early \<noteq> sstProving})"
proof -
  have "{sid. \<exists>st. bySector ss sid = Some st \<and> toStatState st early \<noteq> sstProving} =
      stageOf early ss sstStaging \<union> stageOf early ss sstSealing \<union> stageOf early ss sstFailed" (is "?A = _")
    unfolding toStatState_cases stageOf_def by auto
  moreover have "stageOf early ss sstStaging \<inter> stageOf early ss sstSealing = {}"
    "(stageOf early ss sstStaging \<union> stageOf early ss sstSealing) \<inter> stageOf early ss sstFailed = {}"
    by (auto simp: stageOf_def)
  ultimately have "card ?A = card (stageOf early ss sstStaging) + card (stageOf early ss sstSealing) + card (stageOf early ss sstFailed)"
    using finite_stageOf [OF assms] by (simp add: card_Un_disjoint)
  then show ?thesis using assms by (simp add: curSealing_def counted_def)
qed

text \<open>
  C20: As long as the setting of early finalization does not change, the counters agree with the
  states of the sectors after any sequence of updates: the number of sectors in the sealing
  pipeline is that of the sectors that are not yet proving, and the number of staged sectors
  that of the sectors that wait for deals.
\<close>

theorem updateAll_counted:
  assumes "\<forall>u\<in>set us. FinalizeEarly (fst u) = early"
  defines "ss \<equiv> updateAll us newStats"
  shows "bySector ss = map_of (rev (map snd us)) \<and>
    curSealing ss = of_nat (card {sid. \<exists>st. bySector ss sid = Some st \<and> toStatState st early \<noteq> sstProving}) \<and>
    curStaging ss = of_nat (card {sid. \<exists>st. bySector ss sid = Some st \<and> toStatState st early = sstStaging})"
proof -
  have c: "counted early ss" using assms by (simp add: counted_updateAll counted_newStats)
  then have "curStaging ss = of_nat (card {sid. \<exists>st. bySector ss sid = Some st \<and> toStatState st early = sstStaging})"
    by (simp add: curStaging_def counted_def stageOf_def)
  with curSealing_counted [OF c] show ?thesis unfolding ss_def bySector_updateAll by (simp add: newStats_def)
qed

text \<open>
  When early finalization is switched on while a sector waits for its commit message, the
  counters are not recomputed: the next step of that sector to its finalization counts it
  twice in the sealing pipeline, and a step to proving leaves it in that count for good.
\<close>

theorem updateSector_config_drift:
  assumes "counted False ss" "bySector ss sid = Some st"
    and "st \<in> {SubmitCommit, CommitWait, SubmitCommitAggregate, CommitAggregateWait}"
    and "FinalizeEarly cfg"
  shows "curSealing (fst (updateSector cfg sid FinalizeSector ss)) = curSealing ss + 1 \<and>
    curSealing (fst (updateSector cfg sid Proving ss)) = curSealing ss"
proof -
  have "toStatState st True = sstProving" using assms(3) by (auto simp: toStatState_def)
  then have "sid \<notin> stageOf True ss k" if "k \<noteq> sstProving" for k
    using assms(2) that by (auto simp: stageOf_def)
  moreover have "toStatState FinalizeSector True = sstSealing" "toStatState Proving True = sstProving"
    by (simp_all add: toStatState_def)
  ultimately show ?thesis using assms(4) by (simp add: curSealing_def totals_update)
qed

section \<open>Witnesses\<close>

definition demoSealing :: SealingConfig where
  "demoSealing = \<lparr>MaxWaitDealsSectors = 2, MaxSealingSectors = 0, MaxSealingSectorsForDeals = 0,
     PreferNewSectorsForDeals = False, MinUpgradeSectorExpiration = 0, MinTargetUpgradeSectorExpiration = 0,
     MaxUpgradingSectors = 0, MakeNewSectorForDeals = True, MakeCCSectorsAvailable = False, WaitDealsDelay = 0,
     CommittedCapacitySectorLifetime = 0, StartEpochSealingBuffer = 0, AlwaysKeepUnsealedCopy = True,
     FinalizeEarly = False\<rparr>"

definition demoUpdates :: "(SealingConfig \<times> sector_id \<times> SectorState) list" where
  "demoUpdates = [(demoSealing, (1, 1), WaitDeals), (demoSealing, (1, 2), WaitDeals), (demoSealing, (1, 1), SubmitCommit)]"

theorem updateAll_counted_witness:
  "curStaging (updateAll demoUpdates newStats) =
     of_nat (card {sid. \<exists>st. bySector (updateAll demoUpdates newStats) sid = Some st \<and> toStatState st False = sstStaging})"
  using updateAll_counted [of demoUpdates False] by (simp add: demoUpdates_def demoSealing_def)

theorem updateSector_config_drift_witness:
  "curSealing (fst (updateSector (demoSealing\<lparr>FinalizeEarly := True\<rparr>) (1, 1) Proving (updateAll demoUpdates newStats))) = 2"
proof -
  have "counted False (updateAll demoUpdates newStats)"
    by (rule counted_updateAll) (simp_all add: demoUpdates_def demoSealing_def counted_newStats)
  moreover have "bySector (updateAll demoUpdates newStats) (1, 1) = Some SubmitCommit"
    by (simp add: demoUpdates_def bySector_update)
  moreover have "curSealing (updateAll demoUpdates newStats) = 2"
    by (simp add: demoUpdates_def curSealing_def totals_update stageOf_def bySector_update newStats_def toStatState_def demoSealing_def)
  ultimately show ?thesis using updateSector_config_drift [of "updateAll demoUpdates newStats" "(1, 1)" SubmitCommit
      "demoSealing\<lparr>FinalizeEarly := True\<rparr>"] by simp
qed

end
