(* ===== verification/SectorFSM.thy ===== *)
theory SectorFSM
  imports SectorEvents SectorStats
begin

text \<open>
  The state machine of a sector (\<open>src/storage/pipeline/fsm.go\<close>): the planners with their
  transition tables, the log of events, and \<open>Plan\<close>, which the state machine library calls
  with the pending events of a sector. A planner gives the sector it leaves, the
  notifications it sent to the remote sealing endpoint, the number of events processed and
  an error; it panics where an event does. The JSON text and the error text of an event and the
  clock are arguments.
\<close>

section \<open>Transitions\<close>

datatype fsm_error =
    UnexpectedEvent SectorState string | ReturnNotSet | CommittingUnknown string | NotFinal SectorState
  | NoPlanner SectorState | Running SectorState fsm_error

type_synonym post = RemoteSealingDoneParams

type_synonym transition = "(mutator \<Rightarrow> bool) \<times> (SectorInfo \<Rightarrow> SectorInfo \<times> post list \<times> bool \<times> fsm_error option)"

type_synonym planned = "SectorInfo \<times> post list \<times> nat \<times> fsm_error option"

definition on :: "(mutator \<Rightarrow> bool) \<Rightarrow> SectorState \<Rightarrow> transition" where
  "on mut nxt = (mut, \<lambda>st. (st\<lparr>State := nxt\<rparr>, [], False, None))"

definition onWithCB :: "(mutator \<Rightarrow> bool) \<Rightarrow> SectorState \<Rightarrow> (SectorInfo \<Rightarrow> post list) \<Rightarrow> transition" where
  "onWithCB mut nxt cb = (mut, \<lambda>st. (st\<lparr>State := nxt\<rparr>, cb st, False, None))"

definition applyOnly :: "(mutator \<Rightarrow> bool) \<Rightarrow> transition" where
  "applyOnly mut = (mut, \<lambda>st. (st, [], True, None))"

definition onReturning :: "(mutator \<Rightarrow> bool) \<Rightarrow> transition" where
  "onReturning mut = (mut, \<lambda>st.
     if Return st = UndefinedSectorState then (st, [], False, Some ReturnNotSet)
     else (st\<lparr>State := Return st, Return := UndefinedSectorState\<rparr>, [], False, None))"

text \<open>The types of events, by the group they belong to.\<close>

fun seal :: "(sealEvent \<Rightarrow> bool) \<Rightarrow> mutator \<Rightarrow> bool" where
  "seal d (Seal e) = d e"
| "seal d _ = False"

fun commit :: "(commitEvent \<Rightarrow> bool) \<Rightarrow> mutator \<Rightarrow> bool" where
  "commit d (Commit e) = d e"
| "commit d _ = False"

fun snap :: "(snapEvent \<Rightarrow> bool) \<Rightarrow> mutator \<Rightarrow> bool" where
  "snap d (Snap e) = d e"
| "snap d _ = False"

fun retry :: "(retryEvent \<Rightarrow> bool) \<Rightarrow> mutator \<Rightarrow> bool" where
  "retry d (Retry e) = d e"
| "retry d _ = False"

fun snapRetry :: "(snapRetryEvent \<Rightarrow> bool) \<Rightarrow> mutator \<Rightarrow> bool" where
  "snapRetry d (SnapRetry e) = d e"
| "snapRetry d _ = False"

fun ext :: "(otherEvent \<Rightarrow> bool) \<Rightarrow> mutator \<Rightarrow> bool" where
  "ext d (Ext e) = d e"
| "ext d _ = False"

section \<open>Planners\<close>

fun planLoop :: "int \<Rightarrow> transition list \<Rightarrow> nat \<Rightarrow> user list \<Rightarrow> SectorInfo \<Rightarrow> post list \<Rightarrow> (unit, planned) outcome" where
  "planLoop now ts i [] st ps = Ok (st, ps, i, None)"
| "planLoop now ts i (Global g # es) st ps =
     (case applyGlobal g st of (st', qs, _) \<Rightarrow> Ok (st', ps @ qs, Suc i, None))"
| "planLoop now ts i (Mut m # es) st ps =
     (case find (\<lambda>t. fst t m) ts of
        Some t \<Rightarrow>
          bindO (applyMut now m st) (\<lambda>st1.
            case snd t st1 of
              (st2, qs, cont, err) \<Rightarrow>
                if err \<noteq> None \<or> \<not> cont then Ok (st2, ps @ qs, Suc i, err)
                else planLoop now ts (Suc i) es st2 (ps @ qs))
      | None \<Rightarrow>
          if Ignorable m then planLoop now ts (Suc i) es st ps
          else Ok (st, ps, Suc i, Some (UnexpectedEvent (State st) (typeName (Mut m)))))"
| "planLoop now ts i (OtherUser t # es) st ps = Ok (st, ps, Suc i, Some (UnexpectedEvent (State st) t))"

definition planOne :: "transition list \<Rightarrow> int \<Rightarrow> user list \<Rightarrow> SectorInfo \<Rightarrow> (unit, planned) outcome" where
  "planOne ts now events st = planLoop now ts 0 events st []"

definition planOneOrIgnore :: "transition list \<Rightarrow> int \<Rightarrow> user list \<Rightarrow> SectorInfo \<Rightarrow> (unit, planned) outcome" where
  "planOneOrIgnore ts now events st =
     bindO (planOne ts now events st) (\<lambda>(st', ps, cnt, err). Ok (st', ps, cnt, None))"

text \<open>
  One event of \<open>planCommitting\<close>: the new sector and whether the planner returns at once;
  \<open>None\<close> is an event it does not know.
\<close>

definition committingEvent :: "mutator \<Rightarrow> SectorInfo \<Rightarrow> (SectorInfo \<times> bool) option" where
  "committingEvent m st =
     (case m of
        Commit e \<Rightarrow>
          (case e of
             SectorCommitted _ \<Rightarrow> Some ((applyCommit e st)\<lparr>State := SubmitCommit\<rparr>, False)
           | SectorProofReady _ \<Rightarrow> Some ((applyCommit e st)\<lparr>State := CommitFinalize\<rparr>, False)
           | SectorSeedReady v epoch \<Rightarrow>
               if epoch = SeedEpoch st \<and> v = SeedValue st then Some (st, False)
               else Some ((applyCommit e st)\<lparr>State := Committing\<rparr>, True)
           | SectorComputeProofFailed _ \<Rightarrow> Some (st\<lparr>State := ComputeProofFailed\<rparr>, False)
           | SectorRemoteCommit1Failed _ \<Rightarrow> Some (st\<lparr>State := RemoteCommitFailed\<rparr>, False)
           | SectorRemoteCommit2Failed _ \<Rightarrow> Some (st\<lparr>State := RemoteCommitFailed\<rparr>, False)
           | SectorCommitFailed _ \<Rightarrow> Some (st\<lparr>State := CommitFailed\<rparr>, False)
           | _ \<Rightarrow> None)
      | Seal e \<Rightarrow> if isSectorSealPreCommit1Failed e then Some (st\<lparr>State := SealPreCommit1Failed\<rparr>, False) else None
      | Retry e \<Rightarrow> if e = SectorRetryCommitWait then Some (st\<lparr>State := CommitWait\<rparr>, False) else None
      | _ \<Rightarrow> None)"

fun committingLoop :: "nat \<Rightarrow> user list \<Rightarrow> SectorInfo \<Rightarrow> post list \<Rightarrow> planned" where
  "committingLoop i [] st ps = (st, ps, i, None)"
| "committingLoop i (Global g # es) st ps =
     (case applyGlobal g st of
        (st', qs, stop) \<Rightarrow> if stop then (st', ps @ qs, Suc i, None) else committingLoop (Suc i) es st' (ps @ qs))"
| "committingLoop i (Mut m # es) st ps =
     (case committingEvent m st of
        None \<Rightarrow> (st, ps, i, Some (CommittingUnknown (typeName (Mut m))))
      | Some (st', stop) \<Rightarrow> if stop then (st', ps, Suc i, None) else committingLoop (Suc i) es st' ps)"
| "committingLoop i (OtherUser t # es) st ps = (st, ps, i, Some (CommittingUnknown t))"

definition planCommitting :: "user list \<Rightarrow> SectorInfo \<Rightarrow> planned" where
  "planCommitting events st = committingLoop 0 events st []"

definition final :: "user list \<Rightarrow> SectorInfo \<Rightarrow> planned" where
  "final events st =
     (case events of
        Global g # _ \<Rightarrow> (case applyGlobal g st of (st', qs, _) \<Rightarrow> (st', qs, 1, None))
      | _ \<Rightarrow> (st, [], 0, Some (NotFinal (State st))))"

definition finalRemoved :: "user list \<Rightarrow> SectorInfo \<Rightarrow> planned" where
  "finalRemoved events st = (st, [], length events, None)"

section \<open>The table\<close>

datatype planner =
    PlanOne "transition list" | PlanOneOrIgnore "transition list" | PlanCommitting | Final | FinalRemoved

fun runPlanner :: "planner \<Rightarrow> int \<Rightarrow> user list \<Rightarrow> SectorInfo \<Rightarrow> (unit, planned) outcome" where
  "runPlanner (PlanOne ts) now events st = planOne ts now events st"
| "runPlanner (PlanOneOrIgnore ts) now events st = planOneOrIgnore ts now events st"
| "runPlanner PlanCommitting now events st = Ok (planCommitting events st)"
| "runPlanner Final now events st = Ok (final events st)"
| "runPlanner FinalRemoved now events st = Ok (finalRemoved events st)"

text \<open>The entries of \<open>fsmPlanners\<close>, by the sections of the source.\<close>

definition sealingPlanners :: "(SectorState \<times> planner) list" where
  "sealingPlanners = [
     (ReceiveSector, PlanOne [onReturning (ext isSectorReceived)]),
     (UndefinedSectorState, PlanOne [
        on (seal isSectorStart) WaitDeals,
        on (seal isSectorStartCC) Packing,
        on (ext isSectorReceive) ReceiveSector]),
     (Empty, PlanOne [
        on (seal isSectorAddPiece) AddPiece,
        on (seal isSectorStartPacking) Packing]),
     (WaitDeals, PlanOne [
        on (seal isSectorAddPiece) AddPiece,
        on (seal isSectorStartPacking) Packing]),
     (AddPiece, PlanOne [
        on (seal isSectorPieceAdded) WaitDeals,
        applyOnly (seal isSectorStartPacking),
        applyOnly (seal isSectorAddPiece),
        on (seal isSectorAddPieceFailed) AddPieceFailed]),
     (Packing, PlanOne [on (seal isSectorPacked) GetTicket]),
     (GetTicket, PlanOne [
        on (seal isSectorTicket) PreCommit1,
        on (commit isSectorCommitFailed) CommitFailed]),
     (PreCommit1, PlanOne [
        on (seal isSectorPreCommit1) PreCommit2,
        on (seal isSectorSealPreCommit1Failed) SealPreCommit1Failed,
        on (commit isSectorDealsExpired) DealsExpired,
        on (retry isSectorInvalidDealIDs) RecoverDealIDs,
        on (seal isSectorOldTicket) GetTicket]),
     (PreCommit2, PlanOne [
        on (seal isSectorPreCommit2) PreCommitting,
        on (seal isSectorSealPreCommit2Failed) SealPreCommit2Failed,
        on (seal isSectorSealPreCommit1Failed) SealPreCommit1Failed]),
     (PreCommitting, PlanOne [
        on (seal isSectorPreCommitBatch) SubmitPreCommitBatch,
        on (seal isSectorPreCommitted) PreCommitWait,
        on (seal isSectorSealPreCommit1Failed) SealPreCommit1Failed,
        on (seal isSectorChainPreCommitFailed) PreCommitFailed,
        on (seal isSectorPreCommitLanded) WaitSeed,
        on (commit isSectorDealsExpired) DealsExpired,
        on (retry isSectorInvalidDealIDs) RecoverDealIDs]),
     (SubmitPreCommitBatch, PlanOne [
        on (seal isSectorPreCommitBatchSent) PreCommitBatchWait,
        on (seal isSectorSealPreCommit1Failed) SealPreCommit1Failed,
        on (seal isSectorChainPreCommitFailed) PreCommitFailed,
        on (seal isSectorPreCommitLanded) WaitSeed,
        on (commit isSectorDealsExpired) DealsExpired,
        on (retry isSectorInvalidDealIDs) RecoverDealIDs]),
     (PreCommitBatchWait, PlanOne [
        on (seal isSectorChainPreCommitFailed) PreCommitFailed,
        on (seal isSectorPreCommitLanded) WaitSeed,
        on (retry isSectorRetryPreCommit) PreCommitting]),
     (PreCommitWait, PlanOne [
        on (seal isSectorChainPreCommitFailed) PreCommitFailed,
        on (seal isSectorPreCommitLanded) WaitSeed,
        on (retry isSectorRetryPreCommit) PreCommitting]),
     (WaitSeed, PlanOne [
        on (commit isSectorSeedReady) Committing,
        on (seal isSectorChainPreCommitFailed) PreCommitFailed]),
     (Committing, PlanCommitting),
     (CommitFinalize, PlanOne [
        on (commit isSectorFinalized) SubmitCommit,
        on (commit isSectorFinalizedAvailable) SubmitCommit,
        on (commit isSectorFinalizeFailed) CommitFinalizeFailed]),
     (SubmitCommit, PlanOne [
        on (commit isSectorCommitSubmitted) CommitWait,
        on (commit isSectorSubmitCommitAggregate) SubmitCommitAggregate,
        on (commit isSectorCommitFailed) CommitFailed]),
     (SubmitCommitAggregate, PlanOne [
        on (commit isSectorCommitAggregateSent) CommitAggregateWait,
        on (commit isSectorCommitFailed) CommitFailed,
        on (commit isSectorRetrySubmitCommit) SubmitCommit]),
     (CommitWait, PlanOne [
        on (commit isSectorProving) FinalizeSector,
        on (commit isSectorCommitFailed) CommitFailed,
        on (commit isSectorRetrySubmitCommit) SubmitCommit]),
     (CommitAggregateWait, PlanOne [
        on (commit isSectorProving) FinalizeSector,
        on (commit isSectorCommitFailed) CommitFailed,
        on (commit isSectorRetrySubmitCommit) SubmitCommit]),
     (FinalizeSector, PlanOne [
        onWithCB (commit isSectorFinalized) Proving (maybeNotifyRemoteDone True ''Proving''),
        onWithCB (commit isSectorFinalizedAvailable) Available (maybeNotifyRemoteDone True ''Available''),
        on (commit isSectorFinalizeFailed) FinalizeFailed])]"

definition snapPlanners :: "(SectorState \<times> planner) list" where
  "snapPlanners = [
     (SnapDealsWaitDeals, PlanOne [
        on (seal isSectorAddPiece) SnapDealsAddPiece,
        on (seal isSectorStartPacking) SnapDealsPacking,
        on (snapRetry isSectorAbortUpgrade) AbortUpgrade]),
     (SnapDealsAddPiece, PlanOne [
        on (seal isSectorPieceAdded) SnapDealsWaitDeals,
        applyOnly (seal isSectorStartPacking),
        applyOnly (seal isSectorAddPiece),
        on (seal isSectorAddPieceFailed) SnapDealsAddPieceFailed,
        on (snapRetry isSectorAbortUpgrade) AbortUpgrade]),
     (SnapDealsPacking, PlanOne [
        on (seal isSectorPacked) UpdateReplica,
        on (snapRetry isSectorAbortUpgrade) AbortUpgrade]),
     (UpdateReplica, PlanOne [
        on (snap isSectorReplicaUpdate) ProveReplicaUpdate,
        on (snapRetry isSectorUpdateReplicaFailed) ReplicaUpdateFailed,
        on (commit isSectorDealsExpired) SnapDealsDealsExpired,
        on (retry isSectorInvalidDealIDs) SnapDealsRecoverDealIDs,
        on (snapRetry isSectorAbortUpgrade) AbortUpgrade]),
     (ProveReplicaUpdate, PlanOne [
        on (snap isSectorProveReplicaUpdate) FinalizeReplicaUpdate,
        on (snapRetry isSectorProveReplicaUpdateFailed) ReplicaUpdateFailed,
        on (commit isSectorDealsExpired) SnapDealsDealsExpired,
        on (retry isSectorInvalidDealIDs) SnapDealsRecoverDealIDs,
        on (snapRetry isSectorAbortUpgrade) AbortUpgrade]),
     (FinalizeReplicaUpdate, PlanOne [
        on (commit isSectorFinalized) SubmitReplicaUpdate,
        on (commit isSectorFinalizeFailed) FinalizeReplicaUpdateFailed]),
     (SubmitReplicaUpdate, PlanOne [
        on (snap isSectorReplicaUpdateSubmitted) ReplicaUpdateWait,
        on (snapRetry isSectorSubmitReplicaUpdateFailed) ReplicaUpdateFailed]),
     (ReplicaUpdateWait, PlanOne [
        on (snap isSectorReplicaUpdateLanded) UpdateActivating,
        on (snapRetry isSectorSubmitReplicaUpdateFailed) ReplicaUpdateFailed,
        on (snapRetry isSectorAbortUpgrade) AbortUpgrade]),
     (UpdateActivating, PlanOne [on (snap isSectorUpdateActive) ReleaseSectorKey]),
     (ReleaseSectorKey, PlanOne [
        on (snap isSectorKeyReleased) Proving,
        on (snapRetry isSectorReleaseKeyFailed) ReleaseSectorKeyFailed])]"

definition errorPlanners :: "(SectorState \<times> planner) list" where
  "errorPlanners = [
     (AddPieceFailed, PlanOne [
        on (seal isSectorRetryWaitDeals) WaitDeals,
        applyOnly (seal isSectorStartPacking),
        applyOnly (seal isSectorAddPiece)]),
     (SealPreCommit1Failed, PlanOne [on (retry isSectorRetrySealPreCommit1) PreCommit1]),
     (SealPreCommit2Failed, PlanOne [
        on (retry isSectorRetrySealPreCommit1) PreCommit1,
        on (retry isSectorRetrySealPreCommit2) PreCommit2]),
     (PreCommitFailed, PlanOne [
        on (retry isSectorRetryPreCommit) PreCommitting,
        on (retry isSectorRetryPreCommitWait) PreCommitWait,
        on (retry isSectorRetryWaitSeed) WaitSeed,
        on (seal isSectorSealPreCommit1Failed) SealPreCommit1Failed,
        on (seal isSectorPreCommitLanded) WaitSeed,
        onWithCB (commit isSectorDealsExpired) DealsExpired (maybeNotifyRemoteDone False ''DealsExpired''),
        on (retry isSectorInvalidDealIDs) RecoverDealIDs]),
     (ComputeProofFailed, PlanOne [
        on (retry isSectorRetryComputeProof) Committing,
        on (seal isSectorSealPreCommit1Failed) SealPreCommit1Failed]),
     (RemoteCommitFailed, PlanOne [on (retry isSectorRetryComputeProof) Committing]),
     (CommitFinalizeFailed, PlanOne [on (commit isSectorRetryFinalize) CommitFinalize]),
     (CommitFailed, PlanOne [
        on (seal isSectorSealPreCommit1Failed) SealPreCommit1Failed,
        on (retry isSectorRetryWaitSeed) WaitSeed,
        on (retry isSectorRetryComputeProof) Committing,
        on (retry isSectorRetryInvalidProof) Committing,
        on (retry isSectorRetryPreCommitWait) PreCommitWait,
        on (seal isSectorChainPreCommitFailed) PreCommitFailed,
        on (retry isSectorRetryPreCommit) PreCommitting,
        on (retry isSectorRetryCommitWait) CommitWait,
        on (commit isSectorRetrySubmitCommit) SubmitCommit,
        onWithCB (commit isSectorDealsExpired) DealsExpired (maybeNotifyRemoteDone False ''DealsExpired''),
        on (retry isSectorInvalidDealIDs) RecoverDealIDs,
        onWithCB (commit isSectorTicketExpired) Removing (maybeNotifyRemoteDone False ''Removing'')]),
     (FinalizeFailed, PlanOne [on (commit isSectorRetryFinalize) FinalizeSector]),
     (PackingFailed, PlanOne []),
     (DealsExpired, PlanOne []),
     (RecoverDealIDs, PlanOne [onReturning (retry isSectorUpdateDealIDs)])]"

definition snapErrorPlanners :: "(SectorState \<times> planner) list" where
  "snapErrorPlanners = [
     (SnapDealsAddPieceFailed, PlanOne [
        on (seal isSectorRetryWaitDeals) SnapDealsWaitDeals,
        applyOnly (seal isSectorStartPacking),
        applyOnly (seal isSectorAddPiece),
        on (snapRetry isSectorAbortUpgrade) AbortUpgrade]),
     (SnapDealsDealsExpired, PlanOne [on (snapRetry isSectorAbortUpgrade) AbortUpgrade]),
     (SnapDealsRecoverDealIDs, PlanOne [
        on (retry isSectorUpdateDealIDs) SubmitReplicaUpdate,
        on (snapRetry isSectorAbortUpgrade) AbortUpgrade]),
     (AbortUpgrade, PlanOneOrIgnore [on (snapRetry isSectorRevertUpgradeToProving) Proving]),
     (ReplicaUpdateFailed, PlanOne [
        on (snapRetry isSectorRetrySubmitReplicaUpdateWait) ReplicaUpdateWait,
        on (snapRetry isSectorRetrySubmitReplicaUpdate) SubmitReplicaUpdate,
        on (snapRetry isSectorRetryReplicaUpdate) UpdateReplica,
        on (snapRetry isSectorRetryProveReplicaUpdate) ProveReplicaUpdate,
        on (retry isSectorInvalidDealIDs) SnapDealsRecoverDealIDs,
        on (commit isSectorDealsExpired) SnapDealsDealsExpired,
        on (snapRetry isSectorAbortUpgrade) AbortUpgrade]),
     (ReleaseSectorKeyFailed, PlanOne [on (snap isSectorUpdateActive) ReleaseSectorKey]),
     (FinalizeReplicaUpdateFailed, PlanOne [on (commit isSectorRetryFinalize) FinalizeReplicaUpdate])]"

definition postSealPlanners :: "(SectorState \<times> planner) list" where
  "postSealPlanners = [
     (Proving, PlanOne [
        on (ext isSectorFaultReported) FaultReported,
        on (ext isSectorFaulty) Faulty,
        on (snap isSectorMarkForUpdate) Available]),
     (Available, PlanOne [
        on (snap isSectorStartCCUpdate) SnapDealsWaitDeals,
        on (snapRetry isSectorAbortUpgrade) Proving]),
     (Terminating, PlanOne [
        on (ext isSectorTerminating) TerminateWait,
        on (ext isSectorTerminateFailed) TerminateFailed]),
     (TerminateWait, PlanOne [
        on (ext isSectorTerminated) TerminateFinality,
        on (ext isSectorTerminateFailed) TerminateFailed]),
     (TerminateFinality, PlanOne [on (ext isSectorTerminateFailed) TerminateFailed]),
     (TerminateFailed, PlanOne []),
     (Removing, PlanOneOrIgnore [
        on (ext isSectorRemoved) Removed,
        on (ext isSectorRemoveFailed) RemoveFailed]),
     (RemoveFailed, PlanOne []),
     (Faulty, PlanOne [on (ext isSectorFaultReported) FaultReported]),
     (FaultReported, Final),
     (FaultedFinal, Final),
     (Removed, FinalRemoved),
     (FailedUnrecoverable, Final)]"

definition fsmPlanners :: "SectorState \<Rightarrow> planner option" where
  "fsmPlanners =
     map_of (sealingPlanners @ snapPlanners @ errorPlanners @ snapErrorPlanners @ postSealPlanners)"

section \<open>The log\<close>

definition logAppend :: "nat \<Rightarrow> Log \<Rightarrow> SectorInfo \<Rightarrow> SectorInfo" where
  "logAppend now l st =
     (let entries = SectorLog st;
          entries' = (if length entries > 8000 then
            let marked = entries[2000 := \<lparr>LogTimestamp = now, LogTrace = [],
                  LogMessage = ''truncating log (above 8000 entries)'', LogKind = ''truncate''\<rparr>]
            in take 2000 marked @ drop 6000 marked
            else entries)
      in st\<lparr>SectorLog := entries' @ [l]\<rparr>)"

record plan_env =
  marshalEvent :: "user \<Rightarrow> string option"
  formatTrace :: "user \<Rightarrow> string"
  errorText :: "fsm_error option \<Rightarrow> string"
  errorKind :: "fsm_error option \<Rightarrow> string"
  unixNow :: nat
  getSealingConfig :: "SealingConfig option option"
  hasSealProof :: bool
  minerID :: "nat option"
  hasNotifee :: bool

fun logEvents :: "plan_env \<Rightarrow> user list \<Rightarrow> SectorInfo \<Rightarrow> SectorInfo" where
  "logEvents env [] st = st"
| "logEvents env (event # es) st =
     (case marshalEvent env event of
        None \<Rightarrow> logEvents env es st
      | Some e \<Rightarrow>
          if event = Global SectorRestart then logEvents env es st
          else logEvents env es (logAppend (unixNow env)
            \<lparr>LogTimestamp = unixNow env, LogTrace = (if isFormatter event then formatTrace env event else []),
             LogMessage = (if length e > 8000 then take 8000 e @ ''... truncated'' else e),
             LogKind = ''event;'' @ typeName event\<rparr> st))"

section \<open>Planning\<close>

datatype (plugins only: code size) handler =
    handleReceiveSector | handleWaitDeals | handleAddPiece | handlePacking | handleGetTicket |
    handlePreCommit1 | handlePreCommit2 | handlePreCommitting | handleSubmitPreCommitBatch |
    handlePreCommitWait | handleWaitSeed | handleCommitting | handleSubmitCommit |
    handleSubmitCommitAggregate | handleCommitWait | handleFinalizeSector | handleReplicaUpdate |
    handleProveReplicaUpdate | handleSubmitReplicaUpdate | handleReplicaUpdateWait |
    handleFinalizeReplicaUpdate | handleUpdateActivating | handleReleaseSectorKey |
    handleAddPieceFailed | handleSealPrecommit1Failed | handleSealPrecommit2Failed |
    handlePreCommitFailed | handleComputeProofFailed | handleRemoteCommitFailed |
    handleCommitFailed | handleFinalizeFailed | handleDealsExpired | HandleRecoverDealIDs |
    handleDealsExpiredSnapDeals | handleSnapDealsRecoverDealIDs | handleSubmitReplicaUpdateFailed |
    handleReleaseSectorKeyFailed | handleAbortUpgrade | handleProvingSector |
    handleAvailableSector | handleTerminating | handleTerminateWait | handleTerminateFinality |
    handleTerminateFailed | handleRemoving | handleRemoveFailed | handleFaulty | handleFaultReported

definition handlers :: "(SectorState \<times> handler) list" where
  "handlers = [
     (ReceiveSector, handleReceiveSector), (Empty, handleWaitDeals), (WaitDeals, handleWaitDeals),
     (AddPiece, handleAddPiece), (Packing, handlePacking), (GetTicket, handleGetTicket),
     (PreCommit1, handlePreCommit1), (PreCommit2, handlePreCommit2),
     (PreCommitting, handlePreCommitting), (SubmitPreCommitBatch, handleSubmitPreCommitBatch),
     (PreCommitBatchWait, handlePreCommitWait), (PreCommitWait, handlePreCommitWait),
     (WaitSeed, handleWaitSeed), (Committing, handleCommitting), (SubmitCommit, handleSubmitCommit),
     (SubmitCommitAggregate, handleSubmitCommitAggregate), (CommitAggregateWait, handleCommitWait),
     (CommitWait, handleCommitWait), (CommitFinalize, handleFinalizeSector),
     (FinalizeSector, handleFinalizeSector), (SnapDealsWaitDeals, handleWaitDeals),
     (SnapDealsAddPiece, handleAddPiece), (SnapDealsPacking, handlePacking),
     (UpdateReplica, handleReplicaUpdate), (ProveReplicaUpdate, handleProveReplicaUpdate),
     (SubmitReplicaUpdate, handleSubmitReplicaUpdate), (ReplicaUpdateWait, handleReplicaUpdateWait),
     (FinalizeReplicaUpdate, handleFinalizeReplicaUpdate), (UpdateActivating, handleUpdateActivating),
     (ReleaseSectorKey, handleReleaseSectorKey), (AddPieceFailed, handleAddPieceFailed),
     (SealPreCommit1Failed, handleSealPrecommit1Failed),
     (SealPreCommit2Failed, handleSealPrecommit2Failed), (PreCommitFailed, handlePreCommitFailed),
     (ComputeProofFailed, handleComputeProofFailed), (RemoteCommitFailed, handleRemoteCommitFailed),
     (CommitFailed, handleCommitFailed), (CommitFinalizeFailed, handleFinalizeFailed),
     (FinalizeFailed, handleFinalizeFailed), (PackingFailed, handleDealsExpired),
     (DealsExpired, handleDealsExpired), (RecoverDealIDs, HandleRecoverDealIDs),
     (SnapDealsAddPieceFailed, handleAddPieceFailed),
     (SnapDealsDealsExpired, handleDealsExpiredSnapDeals),
     (SnapDealsRecoverDealIDs, handleSnapDealsRecoverDealIDs),
     (ReplicaUpdateFailed, handleSubmitReplicaUpdateFailed),
     (ReleaseSectorKeyFailed, handleReleaseSectorKeyFailed),
     (FinalizeReplicaUpdateFailed, handleFinalizeFailed), (AbortUpgrade, handleAbortUpgrade),
     (Proving, handleProvingSector), (Available, handleAvailableSector),
     (Terminating, handleTerminating), (TerminateWait, handleTerminateWait),
     (TerminateFinality, handleTerminateFinality), (TerminateFailed, handleTerminateFailed),
     (Removing, handleRemoving), (RemoveFailed, handleRemoveFailed), (Faulty, handleFaulty),
     (FaultReported, handleFaultReported)]"

text \<open>The next step; a sector that failed packing is one whose deals expired.\<close>

definition nextStep :: "SectorInfo \<Rightarrow> SectorInfo \<times> handler option" where
  "nextStep st =
     (if State st = PackingFailed then st\<lparr>State := DealsExpired\<rparr> else st, map_of handlers (State st))"

text \<open>
  \<open>onUpdateSector\<close> updates the counters; the flag says that it started an update of the
  input. Its errors are logged only; the miner address without an id panics.
\<close>

definition onUpdateSector :: "plan_env \<Rightarrow> SectorStats \<Rightarrow> SectorInfo \<Rightarrow> (unit, SectorStats \<times> bool) outcome" where
  "onUpdateSector env ss st =
     (case getSealingConfig env of
        Some (Some cfg) \<Rightarrow>
          (case minerID env of
             None \<Rightarrow> Panic
           | Some mid \<Rightarrow>
               (case updateSector cfg (mid, SectorNumber st) (State st) ss of
                  (ss', inp) \<Rightarrow> Ok (ss', inp \<and> hasSealProof env)))
      | _ \<Rightarrow> Ok (ss, False))"

record plan_result =
  NextHandler :: "handler option"
  ProcessedCount :: nat
  PlanError :: "fsm_error option"
  NewSector :: SectorInfo
  Posts :: "post list"
  NotifeeCalls :: "(SectorInfo \<times> SectorInfo) list"
  NewStats :: SectorStats
  InputUpdate :: bool

definition findPlanner :: "user list \<Rightarrow> SectorState \<Rightarrow> planner option" where
  "findPlanner events s =
     (case fsmPlanners s of
        Some p \<Rightarrow> Some p
      | None \<Rightarrow> (case events of [Global _] \<Rightarrow> Some (PlanOne []) | _ \<Rightarrow> None))"

definition plan :: "plan_env \<Rightarrow> SectorStats \<Rightarrow> user list \<Rightarrow> SectorInfo \<Rightarrow> (unit, plan_result) outcome" where
  "plan env ss events st =
     (let before = logEvents env events st;
          result = (\<lambda>h n err after ps ss' inp.
            \<lparr>NextHandler = h, ProcessedCount = n, PlanError = err, NewSector = after, Posts = ps,
             NotifeeCalls = (if hasNotifee env then [(before, after)] else []), NewStats = ss', InputUpdate = inp\<rparr>)
      in case findPlanner events (State before) of
           None \<Rightarrow> Ok (result None 0 (Some (NoPlanner (State before))) before [] ss False)
         | Some p \<Rightarrow>
             bindO (runPlanner p (int (unixNow env)) events before) (\<lambda>(st1, ps, processed, err).
               case err of
                 Some e \<Rightarrow> Ok (result None processed (Some (Running (State st1) e)) st1 ps ss False)
               | None \<Rightarrow>
                   bindO (onUpdateSector env ss st1) (\<lambda>(ss', inp).
                     case nextStep st1 of
                       (st2, h) \<Rightarrow>
                         Ok (result h (if State st1 = ReleaseSectorKeyFailed then 0 else processed) None st2 ps ss' inp))))"

text \<open>
  What the state machine library calls. An error of \<open>plan\<close> is logged and not returned, so
  the library stores the sector and drops the processed events in that case too; the field
  \<open>PlanError\<close> keeps it for the statements below.
\<close>

definition Plan :: "plan_env \<Rightarrow> SectorStats \<Rightarrow> user list \<Rightarrow> SectorInfo \<Rightarrow> (unit, plan_result) outcome" where
  "Plan env ss events st =
     bindO (plan env ss events st) (\<lambda>r.
       if PlanError r \<noteq> None \<or> NextHandler r = None then
         Ok (r\<lparr>NewSector := logAppend (unixNow env)
           \<lparr>LogTimestamp = unixNow env, LogTrace = [], LogMessage = ''state machine error: '' @ errorText env (PlanError r),
            LogKind = ''error;'' @ errorKind env (PlanError r)\<rparr> (NewSector r)\<rparr>)
       else Ok r)"

end
