(* ===== verification/SectorRuns.thy ===== *)
theory SectorRuns
  imports SectorFSM
begin

text \<open>
  What the state machine of a sector guarantees: every planner leaves the sector in a declared
  state, progress, removal, the way to proving and the abort of an upgrade. A run is a sequence
  of calls of \<open>Plan\<close>, whose sector the state machine library stores each time.
\<close>

section \<open>Invariants of a planner\<close>

lemmas row_defs = on_def onWithCB_def applyOnly_def onReturning_def

lemmas table_defs = sealingPlanners_def snapPlanners_def errorPlanners_def snapErrorPlanners_def postSealPlanners_def

lemma logEvents_eq: "\<exists>L. logEvents env es st = st\<lparr>SectorLog := L\<rparr>"
proof (induction es arbitrary: st)
  case Nil
  have "st = st\<lparr>SectorLog := SectorLog st\<rparr>" by simp
  then show ?case by (metis logEvents.simps(1))
next
  case (Cons e es)
  have "\<exists>L. logEvents env es (logAppend t l st) = st\<lparr>SectorLog := L\<rparr>" for t l
    using Cons.IH [of "logAppend t l st"] by (auto simp: logAppend_def Let_def)
  then show ?case using Cons.IH by (auto split: option.split)
qed

lemma logEvents_fields [simp]:
  "State (logEvents env es st) = State st" "Return (logEvents env es st) = Return st"
  "CCPieces (logEvents env es st) = CCPieces st" "Pieces (logEvents env es st) = Pieces st"
  "RemoteSealingDoneEndpoint (logEvents env es st) = RemoteSealingDoneEndpoint st"
  "CommitMessage (logEvents env es st) = CommitMessage st"
  using logEvents_eq [of env es st] by auto

declare logEvents.simps [simp del]

lemma find_Some_set: "find P xs = Some x \<Longrightarrow> x \<in> set xs \<and> P x"
  by (induction xs) (auto split: if_splits)

lemma planLoop_keeps:
  assumes "planLoop now ts i es st ps = Ok (st', qs, n, err)" "Inv st"
    and "\<forall>g st. Global g \<in> set es \<longrightarrow> Inv st \<longrightarrow> Inv (fst (applyGlobal g st))"
    and "\<forall>m t st st1. Mut m \<in> set es \<longrightarrow> t \<in> set ts \<longrightarrow> fst t m \<longrightarrow> Inv st \<longrightarrow> applyMut now m st = Ok st1 \<longrightarrow>
      Inv (fst (snd t st1))"
  shows "Inv st'"
  using assms
proof (induction now ts i es st ps rule: planLoop.induct)
  case (3 now ts i m es st ps)
  show ?case
  proof (cases "find (\<lambda>t. fst t m) ts")
    case None
    show ?thesis
    proof (cases "Ignorable m")
      case True
      show ?thesis by (rule 3(1) [OF None True]) (use 3(3-6) None True in \<open>simp_all\<close>)
    qed (use 3(3,4) None in simp)
  next
    case (Some t)
    from find_Some_set [OF Some] have t: "t \<in> set ts" "fst t m" by auto
    from 3(3) Some obtain st1 where st1: "applyMut now m st = Ok st1" by (auto simp: bindO_eq_Ok)
    obtain st2 qs2 cont err2 where s: "snd t st1 = (st2, qs2, cont, err2)" by (cases "snd t st1")
    have "Inv st2" using 3(4,6) t st1 s by (metis fst_conv list.set_intros(1))
    show ?thesis
    proof (cases "err2 \<noteq> None \<or> \<not> cont")
      case True
      with 3(3) Some st1 s \<open>Inv st2\<close> show ?thesis by auto
    next
      case False
      then show ?thesis
        by (intro 3(2) [OF Some st1 s [symmetric] refl refl False]) (use 3(3-6) Some st1 s \<open>Inv st2\<close> in \<open>simp_all\<close>)
    qed
  qed
next
  case (2 now ts i g es st ps)
  then have "Inv (fst (applyGlobal g st))" by (metis list.set_intros(1))
  with 2(1) show ?case by (cases "applyGlobal g st") auto
qed auto

definition committingTargets :: "SectorState list" where
  "committingTargets = [SubmitCommit, CommitFinalize, Committing, ComputeProofFailed, RemoteCommitFailed, CommitFailed,
     SealPreCommit1Failed, CommitWait]"

lemma committingEvent_cases:
  assumes "committingEvent m st = Some (st', stop)"
  shows "st' = st \<or> (\<exists>s\<in>set committingTargets. st' = st\<lparr>State := s\<rparr> \<or>
    (\<exists>e. m = Commit e \<and> st' = (applyCommit e st)\<lparr>State := s\<rparr>))"
  using assms
  by (cases m) (auto simp: committingEvent_def committingTargets_def split: commitEvent.splits if_splits)

lemma committingLoop_keeps:
  assumes "committingLoop i es st ps = (st', qs, n, err)" "Inv st"
    and "\<forall>g st. Global g \<in> set es \<longrightarrow> Inv st \<longrightarrow> Inv (fst (applyGlobal g st))"
    and "\<forall>e st. Mut (Commit e) \<in> set es \<longrightarrow> Inv st \<longrightarrow> Inv (applyCommit e st)"
    and "\<forall>s\<in>set committingTargets. \<forall>st. Inv st \<longrightarrow> Inv (st\<lparr>State := s\<rparr>)"
  shows "Inv st'"
  using assms
proof (induction es arbitrary: i st ps)
  case (Cons e es)
  have IH: "Inv st'" if "committingLoop j es st1 qs1 = (st', qs, n, err)" "Inv st1" for j st1 qs1
    by (rule Cons.IH [OF that]) (use Cons.prems in auto)
  show ?case
  proof (cases e)
    case (Global g)
    then have "Inv (fst (applyGlobal g st))" using Cons.prems by simp
    then show ?thesis using Global Cons.prems(1) IH by (cases "applyGlobal g st") (auto split: if_splits)
  next
    case (Mut m)
    have "Inv st1" if "committingEvent m st = Some (st1, stop)" for st1 stop
      using committingEvent_cases [OF that] Cons.prems(2,4,5) Mut by auto
    then show ?thesis using Mut Cons.prems(1,2) IH by (auto split: option.splits prod.splits if_splits)
  qed (use Cons.prems in auto)
qed simp

section \<open>The rows of the table\<close>

fun declared :: "SectorState \<Rightarrow> bool" where
  "declared (OtherState _) = False"
| "declared _ = True"

fun rowsOf :: "planner \<Rightarrow> transition list" where
  "rowsOf (PlanOne ts) = ts"
| "rowsOf (PlanOneOrIgnore ts) = ts"
| "rowsOf _ = []"

text \<open>What a row does to the sector.\<close>

definition okRow :: "transition \<Rightarrow> bool" where
  "okRow t \<longleftrightarrow> (\<exists>s. declared s \<and> (\<forall>st. fst (snd t st) = st\<lparr>State := s\<rparr>)) \<or> (\<forall>st. fst (snd t st) = st) \<or>
     (\<forall>st. fst (snd t st) = st \<or> fst (snd t st) = st\<lparr>State := Return st, Return := UndefinedSectorState\<rparr>)"

lemma okRow_simps [simp]:
  "declared s \<Longrightarrow> okRow (on mut s)" "declared s \<Longrightarrow> okRow (onWithCB mut s cb)" "okRow (applyOnly mut)" "okRow (onReturning mut)"
  by (auto simp: okRow_def row_defs)

lemma okRow_table:
  "list_all (\<lambda>(s, p). list_all okRow (rowsOf p))
     (sealingPlanners @ snapPlanners @ errorPlanners @ snapErrorPlanners @ postSealPlanners)"
  by (simp add: table_defs)

lemma fsmPlanners_declared: "fsmPlanners s = None \<longleftrightarrow> \<not> declared s"
  by (cases s) (simp_all add: fsmPlanners_def table_defs)

lemma findPlanner_rows:
  assumes "findPlanner es s = Some p" "t \<in> set (rowsOf p)"
  shows "okRow t"
proof (cases "fsmPlanners s")
  case None
  with assms show ?thesis by (auto simp: findPlanner_def split: list.splits user.splits)
next
  case (Some q)
  then have "(s, q) \<in> set (sealingPlanners @ snapPlanners @ errorPlanners @ snapErrorPlanners @ postSealPlanners)"
    unfolding fsmPlanners_def by (rule map_of_SomeD)
  then show ?thesis using assms Some okRow_table by (auto simp: findPlanner_def list_all_iff)
qed

section \<open>Calls of plan\<close>

lemma plan_Ok_cases:
  assumes "plan env ss es st = Ok r"
  obtains (planner) p st1 ps n err where "findPlanner es (State st) = Some p"
      "runPlanner p (int (unixNow env)) es (logEvents env es st) = Ok (st1, ps, n, err)"
      "PlanError r = map_option (Running (State st1)) err" "Posts r = ps"
      "NewSector r = (if err = None then fst (nextStep st1) else st1)"
      "ProcessedCount r = (if err = None \<and> State st1 = ReleaseSectorKeyFailed then 0 else n)"
      "err = None \<Longrightarrow> NextHandler r = snd (nextStep st1)"
  | (none) "findPlanner es (State st) = None" "NewSector r = logEvents env es st" "PlanError r = Some (NoPlanner (State st))"
proof (cases "findPlanner es (State st)")
  case None
  with assms show ?thesis by (intro none) (auto simp: plan_def Let_def)
next
  case (Some p)
  from assms Some obtain st1 ps n err where
    run: "runPlanner p (int (unixNow env)) es (logEvents env es st) = Ok (st1, ps, n, err)"
    by (auto simp: plan_def Let_def bindO_eq_Ok)
  obtain st2 h where ns: "nextStep st1 = (st2, h)" by (cases "nextStep st1")
  show ?thesis
    by (rule planner [OF Some run])
      (use assms Some run ns in \<open>auto simp: plan_def Let_def bindO_eq_Ok split: option.splits\<close>)
qed

lemma plan_Ok:
  assumes "findPlanner es (State st) = Some p"
    and "runPlanner p (int (unixNow env)) es (logEvents env es st) = Ok (st1, ps, n, None)"
    and "minerID env \<noteq> None"
  obtains r where "plan env ss es st = Ok r" "PlanError r = None" "Posts r = ps" "NewSector r = fst (nextStep st1)"
    "NextHandler r = snd (nextStep st1)" "ProcessedCount r = (if State st1 = ReleaseSectorKeyFailed then 0 else n)"
proof -
  have "\<exists>ss' inp. onUpdateSector env ss st1 = Ok (ss', inp)"
    using assms(3) by (auto simp: onUpdateSector_def split: option.split prod.split)
  then obtain ss' inp where "onUpdateSector env ss st1 = Ok (ss', inp)" by blast
  moreover obtain st2 h where "nextStep st1 = (st2, h)" by (cases "nextStep st1")
  ultimately show ?thesis using assms(1,2) by (intro that) (auto simp: plan_def Let_def)
qed

text \<open>\<open>Plan\<close> differs from \<open>plan\<close> in the log only.\<close>

lemma Plan_Ok:
  assumes "plan env ss es st = Ok r"
  shows "\<exists>L. Plan env ss es st = Ok (r\<lparr>NewSector := (NewSector r)\<lparr>SectorLog := L\<rparr>\<rparr>)"
proof (cases "PlanError r \<noteq> None \<or> NextHandler r = None")
  case True
  then show ?thesis using assms by (auto simp: Plan_def logAppend_def Let_def)
next
  case False
  then have "Plan env ss es st = Ok (r\<lparr>NewSector := (NewSector r)\<lparr>SectorLog := SectorLog (NewSector r)\<rparr>\<rparr>)"
    using assms by (auto simp: Plan_def)
  then show ?thesis by blast
qed

lemma Plan_OkD:
  assumes "Plan env ss es st = Ok r"
  obtains r0 L where "plan env ss es st = Ok r0" "r = r0\<lparr>NewSector := (NewSector r0)\<lparr>SectorLog := L\<rparr>\<rparr>"
proof -
  from assms obtain r0 where r0: "plan env ss es st = Ok r0" by (auto simp: Plan_def bindO_eq_Ok)
  with Plan_Ok [OF r0] assms that show ?thesis by auto
qed

lemma Plan_simple:
  assumes "findPlanner es (State st) = Some p"
    and "runPlanner p (int (unixNow env)) es (logEvents env es st) = Ok (st1, ps, n, None)"
    and "minerID env \<noteq> None"
  obtains r L where "Plan env ss es st = Ok r" "PlanError r = None" "Posts r = ps"
    "NewSector r = (fst (nextStep st1))\<lparr>SectorLog := L\<rparr>"
    "NextHandler r = snd (nextStep st1)" "ProcessedCount r = (if State st1 = ReleaseSectorKeyFailed then 0 else n)"
proof -
  obtain r where r: "plan env ss es st = Ok r" "PlanError r = None" "Posts r = ps" "NewSector r = fst (nextStep st1)"
    "NextHandler r = snd (nextStep st1)" "ProcessedCount r = (if State st1 = ReleaseSectorKeyFailed then 0 else n)"
    by (rule plan_Ok [OF assms])
  from Plan_Ok [OF r(1)] obtain L where "Plan env ss es st = Ok (r\<lparr>NewSector := (NewSector r)\<lparr>SectorLog := L\<rparr>\<rparr>)" by blast
  with r that show ?thesis by simp
qed

section \<open>Invariants of a sector\<close>

text \<open>
  A property of sectors that setting a declared state, returning and every allowed event keep
  is kept by every call of \<open>plan\<close>, once the events are logged.
\<close>

locale sector_invariant =
  fixes Inv :: "SectorInfo \<Rightarrow> bool" and allowed :: "user \<Rightarrow> bool"
  assumes state: "Inv st \<Longrightarrow> declared s \<Longrightarrow> Inv (st\<lparr>State := s\<rparr>)"
    and return: "Inv st \<Longrightarrow> Inv (st\<lparr>State := Return st, Return := UndefinedSectorState\<rparr>)"
    and global: "allowed (Global g) \<Longrightarrow> Inv st \<Longrightarrow> Inv (fst (applyGlobal g st))"
    and mut: "allowed (Mut m) \<Longrightarrow> Inv st \<Longrightarrow> applyMut now m st = Ok st' \<Longrightarrow> Inv st'"
begin

lemma row_keeps: "okRow t \<Longrightarrow> Inv st \<Longrightarrow> Inv (fst (snd t st))"
  unfolding okRow_def using state return by metis

lemma planner_keeps:
  assumes "runPlanner p now es st = Ok (st', ps, n, err)" "Inv st"
    and "\<forall>e\<in>set es. allowed e" "\<forall>t\<in>set (rowsOf p). okRow t"
  shows "Inv st'"
proof -
  have g: "\<forall>g st. Global g \<in> set es \<longrightarrow> Inv st \<longrightarrow> Inv (fst (applyGlobal g st))" using assms(3) global by blast
  have loop: "Inv st'" if "planLoop now ts i es st qs = Ok (st', qs', n', err')" "set ts \<subseteq> set (rowsOf p)" for ts i qs qs' n' err'
    by (rule planLoop_keeps [where Inv = Inv, OF that(1) assms(2) g]) (use assms(3,4) that(2) mut row_keeps in blast)
  show ?thesis
  proof (cases p)
    case PlanCommitting
    have "\<forall>e st. Mut (Commit e) \<in> set es \<longrightarrow> Inv st \<longrightarrow> Inv (applyCommit e st)"
      using assms(3) mut [of "Commit _"] by auto
    moreover have "\<forall>s\<in>set committingTargets. \<forall>st. Inv st \<longrightarrow> Inv (st\<lparr>State := s\<rparr>)"
      using state by (auto simp: committingTargets_def)
    ultimately show ?thesis
      using PlanCommitting assms(1,2) g committingLoop_keeps [where Inv = Inv, of 0 es st "[]"] by (auto simp: planCommitting_def)
  next
    case Final
    with assms(1) have "(\<exists>g'. Global g' \<in> set es \<and> st' = fst (applyGlobal g' st)) \<or> st' = st"
      by (auto simp: final_def split: list.splits user.splits prod.splits)
    then show ?thesis using g assms(2) by blast
  qed (use assms(1,2) loop in \<open>auto simp: planOne_def planOneOrIgnore_def bindO_eq_Ok finalRemoved_def\<close>)
qed

lemma plan_keeps:
  assumes "plan env ss es st = Ok r" "Inv (logEvents env es st)" "\<forall>e\<in>set es. allowed e"
  shows "Inv (NewSector r)"
  using assms(1)
proof (cases rule: plan_Ok_cases)
  case (planner p st1 ps n err)
  have "Inv st1"
    by (rule planner_keeps [OF planner(2) assms(2,3)]) (use findPlanner_rows [OF planner(1)] in blast)
  then show ?thesis using planner(5) state by (auto simp: nextStep_def)
qed (use assms(2) in simp)

end

section \<open>Declared states\<close>

definition sectorDeclared :: "SectorInfo \<Rightarrow> bool" where
  "sectorDeclared st \<longleftrightarrow> declared (State st) \<and> declared (Return st)"

text \<open>The events that carry a state carry a declared one.\<close>

definition declaredUser :: "user \<Rightarrow> bool" where
  "declaredUser u = (case u of
     Global g \<Rightarrow> (case g of SectorForceState s \<Rightarrow> declared s | _ \<Rightarrow> True)
   | Mut m \<Rightarrow>
       (case m of
          Retry e \<Rightarrow> (case e of SectorInvalidDealIDs s \<Rightarrow> declared s | _ \<Rightarrow> True)
        | Ext e \<Rightarrow> (case e of SectorReceive st \<Rightarrow> sectorDeclared st | _ \<Rightarrow> True)
        | _ \<Rightarrow> True)
   | OtherUser _ \<Rightarrow> True)"

lemma State_apply [simp]:
  "State (applySeal now e1 st) = State st" "State (applyCommit e2 st) = State st" "State (applySnap e3 st) = State st"
  "State (applySnapRetry e4 st) = State st"
  by (simp_all add: applySeal_def applyCommit_def applySnap_def applySnapRetry_def
      split: sealEvent.split commitEvent.split snapEvent.split snapRetryEvent.split)

lemma Return_apply [simp]:
  "Return (applySeal now e1 st) = Return st" "Return (applyCommit e2 st) = Return st" "Return (applySnap e3 st) = Return st"
  "Return (applySnapRetry e4 st) = Return st"
  by (simp_all add: applySeal_def applyCommit_def applySnap_def applySnapRetry_def
      split: sealEvent.split commitEvent.split snapEvent.split snapRetryEvent.split)

lemma applyRetry_fields:
  assumes "applyRetry e st = Ok st'"
  shows "State st' = State st" "Return st' = (case e of SectorInvalidDealIDs s \<Rightarrow> s | _ \<Rightarrow> Return st)"
    "SectorLog st' = SectorLog st" "CCPieces st' = CCPieces st" "SectorNumber st' = SectorNumber st"
  using assms by (auto simp: applyRetry_def bindO_eq_Ok split: retryEvent.splits)

interpretation declared_sector: sector_invariant sectorDeclared declaredUser
proof
  fix g st assume "declaredUser (Global g)" "sectorDeclared st"
  then show "sectorDeclared (fst (applyGlobal g st))" by (cases g) (simp_all add: declaredUser_def sectorDeclared_def)
next
  fix m st now st' assume "declaredUser (Mut m)" "sectorDeclared st" "applyMut now m st = Ok st'"
  then show "sectorDeclared st'"
    by (cases m) (auto simp: declaredUser_def sectorDeclared_def applyOther_def applyRetry_fields
        split: retryEvent.splits otherEvent.splits)
qed (auto simp: sectorDeclared_def)

text \<open>
  C16: The state machine is closed: from a sector in a declared state, with events that carry only
  declared states, \<open>Plan\<close> leaves the sector in a declared state, and it never lacks a
  planner.
\<close>

theorem Plan_declared:
  assumes "Plan env ss es st = Ok r" "sectorDeclared st" "\<forall>e\<in>set es. declaredUser e"
  shows "sectorDeclared (NewSector r) \<and> (\<forall>s. PlanError r \<noteq> Some (NoPlanner s))"
proof -
  obtain r0 L where r0: "plan env ss es st = Ok r0" "r = r0\<lparr>NewSector := (NewSector r0)\<lparr>SectorLog := L\<rparr>\<rparr>"
    using Plan_OkD [OF assms(1)] .
  have "sectorDeclared (logEvents env es st)" using assms(2) by (simp add: sectorDeclared_def)
  then have "sectorDeclared (NewSector r0)" using declared_sector.plan_keeps r0(1) assms(3) by blast
  moreover have "findPlanner es (State st) \<noteq> None"
    using assms(2) fsmPlanners_declared by (auto simp: findPlanner_def sectorDeclared_def split: option.split)
  then have "\<forall>s. PlanError r0 \<noteq> Some (NoPlanner s)" by (cases rule: plan_Ok_cases [OF r0(1)]) auto
  ultimately show ?thesis using r0(2) by (simp add: sectorDeclared_def)
qed

section \<open>Progress\<close>

lemma planLoop_count:
  assumes "planLoop now ts i es st ps = Ok (st', qs, n, err)"
  shows "n \<le> i + length es \<and> (es \<noteq> [] \<longrightarrow> i < n)"
  using assms
proof (induction now ts i es st ps rule: planLoop.induct)
  case (3 now ts i m es st ps)
  show ?case
  proof (cases "find (\<lambda>t. fst t m) ts")
    case None
    show ?thesis
    proof (cases "Ignorable m")
      case True
      with 3(1) [OF None True] 3(3) None show ?thesis by (cases es) auto
    qed (use 3(3) None in simp)
  next
    case (Some t)
    with 3(3) obtain st1 where st1: "applyMut now m st = Ok st1" by (auto simp: bindO_eq_Ok)
    obtain st2 qs2 cont err2 where t: "snd t st1 = (st2, qs2, cont, err2)" by (cases "snd t st1")
    show ?thesis
    proof (cases "err2 \<noteq> None \<or> \<not> cont")
      case True
      with 3(3) Some st1 t show ?thesis by auto
    next
      case False
      with 3(2) [OF Some st1 t [symmetric] refl refl False] 3(3) Some st1 t show ?thesis by (cases es) auto
    qed
  qed
qed (auto split: prod.splits)

lemma committingLoop_count:
  assumes "committingLoop i es st ps = (st', qs, n, err)"
  shows "n \<le> i + length es \<and> (es \<noteq> [] \<and> err = None \<longrightarrow> i < n)"
  using assms
proof (induction i es st ps rule: committingLoop.induct)
  case (2 i g es st ps)
  then show ?case by (cases "applyGlobal g st"; cases es) (fastforce split: if_splits)+
next
  case (3 i m es st ps)
  then show ?case by (cases "committingEvent m st"; cases es) (fastforce split: if_splits prod.splits)+
qed auto

lemma runPlanner_count:
  assumes "runPlanner p now es st = Ok (st', ps, n, None)"
  shows "n \<le> length es \<and> (es \<noteq> [] \<longrightarrow> 0 < n)"
proof (cases p)
  case PlanCommitting
  with assms committingLoop_count [of 0 es st "[]"] show ?thesis by (simp add: planCommitting_def)
next
  case Final
  with assms show ?thesis by (auto simp: final_def split: list.splits user.splits prod.splits)
qed (use assms planLoop_count [of now _ 0 es st "[]"] in
    \<open>auto simp: planOne_def planOneOrIgnore_def bindO_eq_Ok finalRemoved_def\<close>)

text \<open>
  C19: A call of \<open>plan\<close> that succeeds consumes at least one and at most all of the pending
  events, with one exception: in the state \<open>ReleaseSectorKeyFailed\<close> it reports that it
  consumed none, so that the event that led there is delivered again.
\<close>

theorem plan_progress:
  assumes "plan env ss es st = Ok r" "PlanError r = None" "es \<noteq> []"
  shows "ProcessedCount r \<le> length es \<and>
    (ProcessedCount r = 0 \<longleftrightarrow> State (NewSector r) = ReleaseSectorKeyFailed)"
  using assms(1)
proof (cases rule: plan_Ok_cases)
  case (planner p st1 ps n err)
  with assms(2) have err: "err = None" by simp
  with planner(2) have "n \<le> length es" "0 < n" using runPlanner_count assms(3) by auto
  moreover have "State (NewSector r) = ReleaseSectorKeyFailed \<longleftrightarrow> State st1 = ReleaseSectorKeyFailed"
    using planner(5) err by (simp add: nextStep_def)
  ultimately show ?thesis using planner(6) err by auto
qed (use assms(2) in simp)

text \<open>
  C30: A sector that is committing is blocked by an event its planner does not know: the call
  changes nothing but the log, starts no handler and reports no event as processed, so that the
  same event is first again at the next call. A late request to start packing is such an event,
  although every other planner ignores it.
\<close>

theorem Plan_committing_stuck:
  assumes "State st = Committing" "committingEvent m st = None"
  shows "\<exists>r L. Plan env ss (Mut m # es) st = Ok r \<and> NewSector r = st\<lparr>SectorLog := L\<rparr> \<and>
    ProcessedCount r = 0 \<and> NextHandler r = None \<and>
    committingEvent m (NewSector r) = None \<and> committingEvent (Seal SectorStartPacking) st = None"
proof -
  obtain L where L: "logEvents env (Mut m # es) st = st\<lparr>SectorLog := L\<rparr>" using logEvents_eq by blast
  have "fsmPlanners Committing = Some PlanCommitting" by (simp add: fsmPlanners_def table_defs)
  then have p: "findPlanner (Mut m # es) (State st) = Some PlanCommitting" using assms(1) by (simp add: findPlanner_def)
  have none: "committingEvent m (st\<lparr>SectorLog := L'\<rparr>) = None" for L'
    using assms(2) by (auto simp: committingEvent_def split: mutator.splits commitEvent.splits if_splits)
  then have "planCommitting (Mut m # es) (st\<lparr>SectorLog := L\<rparr>) =
      (st\<lparr>SectorLog := L\<rparr>, [], 0, Some (CommittingUnknown (typeName (Mut m))))"
    by (simp add: planCommitting_def)
  then obtain r where r: "plan env ss (Mut m # es) st = Ok r" "NewSector r = st\<lparr>SectorLog := L\<rparr>" "ProcessedCount r = 0"
    "NextHandler r = None"
    using p L by (auto simp: plan_def Let_def)
  from Plan_Ok [OF r(1)] obtain L' where "Plan env ss (Mut m # es) st = Ok (r\<lparr>NewSector := st\<lparr>SectorLog := L'\<rparr>\<rparr>)"
    using r(2) by auto
  moreover have "committingEvent (Seal SectorStartPacking) st = None" by (simp add: committingEvent_def)
  ultimately show ?thesis
    using r none by (intro exI [of _ "r\<lparr>NewSector := st\<lparr>SectorLog := L'\<rparr>\<rparr>"] exI [of _ L'] conjI) simp_all
qed

section \<open>Removal\<close>

lemma fsmPlanners_FinalRemoved: "fsmPlanners s = Some FinalRemoved \<longleftrightarrow> s = Removed"
  by (cases s) (simp_all add: fsmPlanners_def table_defs)

lemma runPlanner_remove:
  "p \<noteq> FinalRemoved \<Longrightarrow> runPlanner p now [Global SectorRemove] st =
     Ok (st\<lparr>State := Removing\<rparr>, maybeNotifyRemoteDone False ''Removing'' st, 1, None)"
  by (cases p) (simp_all add: planOne_def planOneOrIgnore_def planCommitting_def final_def)

lemma findPlanner_Removed: "findPlanner es Removed = Some FinalRemoved"
  using fsmPlanners_FinalRemoved [of Removed] by (simp add: findPlanner_def)

lemma findPlanner_Removing:
  "findPlanner es Removing = Some (PlanOneOrIgnore [on (ext isSectorRemoved) Removed, on (ext isSectorRemoveFailed) RemoveFailed])"
  by (simp add: findPlanner_def fsmPlanners_def table_defs)

text \<open>
  C17: A sector can be removed from every state, unknown ones included: a request moves it to
  \<open>Removing\<close>, whose handler runs next, notifies the remote sealing endpoint, and the report
  of that handler makes it \<open>Removed\<close>. There every further event is consumed without effect.
\<close>

theorem sector_removable:
  assumes "State st \<noteq> Removed" "minerID env \<noteq> None"
  shows "\<exists>r1 r2. Plan env ss [Global SectorRemove] st = Ok r1 \<and> PlanError r1 = None \<and>
    State (NewSector r1) = Removing \<and> NextHandler r1 = Some handleRemoving \<and>
    Posts r1 = maybeNotifyRemoteDone False ''Removing'' st \<and>
    Plan env ss' [Mut (Ext SectorRemoved)] (NewSector r1) = Ok r2 \<and> PlanError r2 = None \<and>
    State (NewSector r2) = Removed \<and>
    (\<forall>es ss3. \<exists>r3. Plan env ss3 es (NewSector r2) = Ok r3 \<and> PlanError r3 = None \<and>
      ProcessedCount r3 = length es \<and> State (NewSector r3) = Removed)"
proof -
  obtain p where p: "findPlanner [Global SectorRemove] (State st) = Some p" "p \<noteq> FinalRemoved"
    using assms(1) fsmPlanners_FinalRemoved [of "State st"] by (cases "fsmPlanners (State st)") (auto simp: findPlanner_def)
  obtain r1 where r1: "Plan env ss [Global SectorRemove] st = Ok r1" "PlanError r1 = None" "State (NewSector r1) = Removing"
    "NextHandler r1 = Some handleRemoving" "Posts r1 = maybeNotifyRemoteDone False ''Removing'' st"
    by (rule Plan_simple [where ss = ss, OF p(1) runPlanner_remove [OF p(2)] assms(2)])
      (auto simp: nextStep_def handlers_def maybeNotifyRemoteDone_def)
  let ?es = "[Mut (Ext SectorRemoved)]"
  have run: "runPlanner (PlanOneOrIgnore [on (ext isSectorRemoved) Removed, on (ext isSectorRemoveFailed) RemoveFailed]) now ?es st2 =
      Ok (st2\<lparr>State := Removed\<rparr>, [], 1, None)" for now st2
    by (simp add: planOneOrIgnore_def planOne_def row_defs applyOther_def)
  have "findPlanner ?es (State (NewSector r1)) =
      Some (PlanOneOrIgnore [on (ext isSectorRemoved) Removed, on (ext isSectorRemoveFailed) RemoveFailed])"
    using r1(3) findPlanner_Removing by simp
  then obtain r2 where r2: "Plan env ss' ?es (NewSector r1) = Ok r2" "PlanError r2 = None" "State (NewSector r2) = Removed"
    by (rule Plan_simple [where ss = ss', OF _ run assms(2)]) (auto simp: nextStep_def)
  have "\<exists>r3. Plan env ss3 es (NewSector r2) = Ok r3 \<and> PlanError r3 = None \<and>
      ProcessedCount r3 = length es \<and> State (NewSector r3) = Removed" for es ss3
  proof -
    have "findPlanner es (State (NewSector r2)) = Some FinalRemoved" using r2(3) findPlanner_Removed by simp
    moreover have "runPlanner FinalRemoved now es st3 = Ok (st3, [], length es, None)" for now st3
      by (simp add: finalRemoved_def)
    ultimately show ?thesis
      by (rule Plan_simple [where ss = ss3, OF _ _ assms(2)]) (use r2(3) in \<open>auto simp: nextStep_def\<close>)
  qed
  with r1 r2 show ?thesis by blast
qed

section \<open>The way to proving\<close>

text \<open>An event that takes a sector from one state to another, whatever the sector holds.\<close>

definition stepsTo :: "SectorState \<Rightarrow> mutator \<Rightarrow> SectorState \<Rightarrow> bool" where
  "stepsTo s m s' \<longleftrightarrow> (\<exists>p. fsmPlanners s = Some p \<and> (\<forall>now st. State st = s \<longrightarrow>
     (\<exists>st1 ps n. runPlanner p now [Mut m] st = Ok (st1, ps, n, None) \<and> State st1 = s')))"

lemma stepsTo_Plan:
  assumes "stepsTo s m s'" "minerID env \<noteq> None" "State st = s" "s' \<noteq> PackingFailed"
  shows "\<exists>r. Plan env ss [Mut m] st = Ok r \<and> PlanError r = None \<and> State (NewSector r) = s' \<and> NextHandler r = map_of handlers s'"
proof -
  obtain p where p: "fsmPlanners s = Some p" "\<And>now st. State st = s \<Longrightarrow>
      \<exists>st1 ps n. runPlanner p now [Mut m] st = Ok (st1, ps, n, None) \<and> State st1 = s'"
    using assms(1) unfolding stepsTo_def by blast
  obtain st1 ps n where run: "runPlanner p (int (unixNow env)) [Mut m] (logEvents env [Mut m] st) = Ok (st1, ps, n, None)"
    "State st1 = s'"
    using p(2) [of "logEvents env [Mut m] st" "int (unixNow env)"] assms(3) by auto
  have "findPlanner [Mut m] (State st) = Some p" using p(1) assms(3) by (simp add: findPlanner_def)
  then obtain r where "Plan env ss [Mut m] st = Ok r" "PlanError r = None" "State (NewSector r) = s'" "NextHandler r = map_of handlers s'"
    by (rule Plan_simple [where ss = ss, OF _ run(1) assms(2)]) (use run(2) assms(4) in \<open>auto simp: nextStep_def\<close>)
  then show ?thesis by blast
qed

text \<open>For every state of the sealing and upgrade paths an event that leads on, nearest to proving first.\<close>

definition way :: "(SectorState \<times> mutator \<times> SectorState) list" where
  "way = [
     (FinalizeSector, Commit SectorFinalized, Proving),
     (CommitWait, Commit SectorProving, FinalizeSector),
     (CommitAggregateWait, Commit SectorProving, FinalizeSector),
     (SubmitCommitAggregate, Commit (SectorCommitAggregateSent []), CommitAggregateWait),
     (SubmitCommit, Commit (SectorCommitSubmitted []), CommitWait),
     (CommitFinalize, Commit SectorFinalized, SubmitCommit),
     (Committing, Commit (SectorCommitted []), SubmitCommit),
     (WaitSeed, Commit (SectorSeedReady [] 0), Committing),
     (PreCommitWait, Seal (SectorPreCommitLanded []), WaitSeed),
     (PreCommitBatchWait, Seal (SectorPreCommitLanded []), WaitSeed),
     (SubmitPreCommitBatch, Seal (SectorPreCommitBatchSent []), PreCommitBatchWait),
     (PreCommitting, Seal (SectorPreCommitted [] 0 []), PreCommitWait),
     (PreCommit2, Seal (SectorPreCommit2 [] []), PreCommitting),
     (PreCommit1, Seal (SectorPreCommit1 []), PreCommit2),
     (GetTicket, Seal (SectorTicket [] 0), PreCommit1),
     (Packing, Seal (SectorPacked []), GetTicket),
     (WaitDeals, Seal SectorStartPacking, Packing),
     (Empty, Seal SectorStartPacking, Packing),
     (AddPiece, Seal (SectorPieceAdded []), WaitDeals),
     (UndefinedSectorState, Seal (SectorStart 0 0), WaitDeals),
     (AddPieceFailed, Seal SectorRetryWaitDeals, WaitDeals),
     (SealPreCommit1Failed, Retry SectorRetrySealPreCommit1, PreCommit1),
     (SealPreCommit2Failed, Retry SectorRetrySealPreCommit2, PreCommit2),
     (PreCommitFailed, Retry SectorRetryWaitSeed, WaitSeed),
     (ComputeProofFailed, Retry SectorRetryComputeProof, Committing),
     (RemoteCommitFailed, Retry SectorRetryComputeProof, Committing),
     (CommitFinalizeFailed, Commit SectorRetryFinalize, CommitFinalize),
     (CommitFailed, Retry SectorRetryCommitWait, CommitWait),
     (FinalizeFailed, Commit SectorRetryFinalize, FinalizeSector),
     (Available, SnapRetry (SectorAbortUpgrade []), Proving),
     (ReleaseSectorKey, Snap SectorKeyReleased, Proving),
     (UpdateActivating, Snap SectorUpdateActive, ReleaseSectorKey),
     (ReplicaUpdateWait, Snap SectorReplicaUpdateLanded, UpdateActivating),
     (SubmitReplicaUpdate, Snap (SectorReplicaUpdateSubmitted []), ReplicaUpdateWait),
     (FinalizeReplicaUpdate, Commit SectorFinalized, SubmitReplicaUpdate),
     (ProveReplicaUpdate, Snap (SectorProveReplicaUpdate []), FinalizeReplicaUpdate),
     (UpdateReplica, Snap (SectorReplicaUpdate [] []), ProveReplicaUpdate),
     (SnapDealsPacking, Seal (SectorPacked []), UpdateReplica),
     (SnapDealsWaitDeals, Seal SectorStartPacking, SnapDealsPacking),
     (SnapDealsAddPiece, Seal (SectorPieceAdded []), SnapDealsWaitDeals),
     (SnapDealsAddPieceFailed, Seal SectorRetryWaitDeals, SnapDealsWaitDeals),
     (AbortUpgrade, SnapRetry SectorRevertUpgradeToProving, Proving),
     (SnapDealsDealsExpired, SnapRetry (SectorAbortUpgrade []), AbortUpgrade),
     (SnapDealsRecoverDealIDs, Retry (SectorUpdateDealIDs []), SubmitReplicaUpdate),
     (ReplicaUpdateFailed, SnapRetry SectorRetrySubmitReplicaUpdateWait, ReplicaUpdateWait),
     (ReleaseSectorKeyFailed, Snap SectorUpdateActive, ReleaseSectorKey),
     (FinalizeReplicaUpdateFailed, Commit SectorRetryFinalize, FinalizeReplicaUpdate)]"

lemma way_steps: "list_all (\<lambda>(s, m, s'). stepsTo s m s') way"
  by (simp add: way_def stepsTo_def fsmPlanners_def table_defs planOne_def planOneOrIgnore_def planCommitting_def
      row_defs committingEvent_def applySeal_def applyCommit_def applySnap_def applySnapRetry_def applyRetry_def)

text \<open>Calls of \<open>Plan\<close> one after the other.\<close>

fun runAll :: "plan_env \<Rightarrow> SectorStats \<Rightarrow> user list list \<Rightarrow> SectorInfo \<Rightarrow> (unit, SectorInfo) outcome" where
  "runAll env ss [] st = Ok st"
| "runAll env ss (es # ess) st =
     bindO (Plan env ss es st) (\<lambda>r. runAll env (NewStats r) ess (NewSector r))"

definition canProve :: "SectorState \<Rightarrow> bool" where
  "canProve s \<longleftrightarrow> (\<forall>env ss st. minerID env \<noteq> None \<longrightarrow> State st = s \<longrightarrow>
     (\<exists>ms st'. runAll env ss (map (\<lambda>m. [Mut m]) ms) st = Ok st' \<and> State st' = Proving))"

lemma canProve_step:
  assumes "stepsTo s m s'" "canProve s'" "s' \<noteq> PackingFailed"
  shows "canProve s"
  unfolding canProve_def
proof (intro allI impI)
  fix env :: plan_env and ss and st :: SectorInfo assume env: "minerID env \<noteq> None" and "State st = s"
  from stepsTo_Plan [OF assms(1) this assms(3)] obtain r where r: "Plan env ss [Mut m] st = Ok r" "State (NewSector r) = s'" by blast
  with assms(2) env obtain ms st' where "runAll env (NewStats r) (map (\<lambda>m. [Mut m]) ms) (NewSector r) = Ok st'" "State st' = Proving"
    unfolding canProve_def by blast
  with r(1) have "runAll env ss (map (\<lambda>m. [Mut m]) (m # ms)) st = Ok st' \<and> State st' = Proving" by simp
  then show "\<exists>ms st'. runAll env ss (map (\<lambda>m. [Mut m]) ms) st = Ok st' \<and> State st' = Proving" by blast
qed

lemma canProve_Proving: "canProve Proving"
  unfolding canProve_def by (metis list.map(1) runAll.simps(1))

fun leadsOn :: "SectorState list \<Rightarrow> (SectorState \<times> mutator \<times> SectorState) list \<Rightarrow> bool" where
  "leadsOn seen [] = True"
| "leadsOn seen ((s, m, s') # w) \<longleftrightarrow> s' \<in> set seen \<and> s' \<noteq> PackingFailed \<and> leadsOn (s # seen) w"

lemma leadsOn_canProve:
  "leadsOn seen w \<Longrightarrow> \<forall>s\<in>set seen. canProve s \<Longrightarrow> list_all (\<lambda>(s, m, s'). stepsTo s m s') w \<Longrightarrow>
   \<forall>s\<in>set (map fst w). canProve s"
proof (induction seen w rule: leadsOn.induct)
  case (2 seen s m s' w)
  then have "canProve s" using canProve_step [of s m s'] by auto
  with 2 show ?case by auto
qed simp

lemma way_leadsOn: "leadsOn [Proving] way"
  by (simp add: way_def)


section \<open>Aborting an upgrade\<close>

definition snapStates :: "SectorState list" where
  "snapStates = [SnapDealsWaitDeals, SnapDealsAddPiece, SnapDealsPacking, UpdateReplica, ProveReplicaUpdate,
     FinalizeReplicaUpdate, SubmitReplicaUpdate, ReplicaUpdateWait, UpdateActivating, ReleaseSectorKey,
     SnapDealsAddPieceFailed, SnapDealsDealsExpired, SnapDealsRecoverDealIDs, AbortUpgrade, ReplicaUpdateFailed,
     ReleaseSectorKeyFailed, FinalizeReplicaUpdateFailed]"

text \<open>A run of calls of \<open>Plan\<close>, with errors or not, that stays in a set of states.\<close>

inductive runIn :: "SectorState set \<Rightarrow> SectorInfo \<Rightarrow> SectorInfo \<Rightarrow> bool" for S where
  start: "State st \<in> S \<Longrightarrow> runIn S st st"
| step: "runIn S st st1 \<Longrightarrow> Plan env ss es st1 = Ok r \<Longrightarrow> State (NewSector r) \<in> S \<Longrightarrow> runIn S st (NewSector r)"

text \<open>The events that change the pieces put aside for an upgrade.\<close>

definition movesPieces :: "mutator \<Rightarrow> bool" where
  "movesPieces m \<longleftrightarrow> m = Snap SectorStartCCUpdate \<or> m = SnapRetry SectorRevertUpgradeToProving \<or> ext isSectorReceive m"

lemma applyMut_CCPieces:
  assumes "applyMut now m st = Ok st'" "\<not> movesPieces m"
  shows "CCPieces st' = CCPieces st"
  using assms
  by (cases m) (auto simp: movesPieces_def applySeal_def applyCommit_def applySnap_def applySnapRetry_def applyOther_def
      applyRetry_fields split: sealEvent.splits commitEvent.splits snapEvent.splits snapRetryEvent.splits otherEvent.splits)

lemma applyGlobal_CCPieces: "CCPieces (fst (applyGlobal g st)) = CCPieces st"
  by (cases g) simp_all

text \<open>In a state of the upgrade only the revert touches those pieces, and it leads to proving.\<close>

definition snapRow :: "transition \<Rightarrow> bool" where
  "snapRow t \<longleftrightarrow> okRow t \<and> (\<forall>m st. fst t m \<longrightarrow> movesPieces m \<longrightarrow>
     State (fst (snd t st)) = Proving \<and> \<not> fst (snd (snd (snd t st))))"

lemma movesPieces_simps [simp]:
  "\<not> movesPieces (Seal e1)" "\<not> movesPieces (Commit e2)" "\<not> movesPieces (Retry e3)"
  "movesPieces (Snap e4) \<longleftrightarrow> e4 = SectorStartCCUpdate" "movesPieces (SnapRetry e5) \<longleftrightarrow> e5 = SectorRevertUpgradeToProving"
  by (simp_all add: movesPieces_def)

lemma group_cases:
  "seal d1 m \<Longrightarrow> \<exists>e. m = Seal e \<and> d1 e" "commit d2 m \<Longrightarrow> \<exists>e. m = Commit e \<and> d2 e" "snap d3 m \<Longrightarrow> \<exists>e. m = Snap e \<and> d3 e"
  "retry d4 m \<Longrightarrow> \<exists>e. m = Retry e \<and> d4 e" "snapRetry d5 m \<Longrightarrow> \<exists>e. m = SnapRetry e \<and> d5 e"
  by (cases m; simp)+

lemma row_selectors [simp]:
  "fst (on mut s) = mut" "snd (on mut s) st = (st\<lparr>State := s\<rparr>, [], False, None)"
  "fst (applyOnly mut) = mut" "snd (applyOnly mut) st = (st, [], True, None)"
  by (simp_all add: row_defs)

lemma snapRow_simps [simp]:
  "declared s \<Longrightarrow> snapRow (on (seal d1) s)" "declared s \<Longrightarrow> snapRow (on (commit d2) s)"
  "declared s \<Longrightarrow> \<not> d3 SectorStartCCUpdate \<Longrightarrow> snapRow (on (snap d3) s)" "declared s \<Longrightarrow> snapRow (on (retry d4) s)"
  "declared s \<Longrightarrow> \<not> d5 SectorRevertUpgradeToProving \<or> s = Proving \<Longrightarrow> snapRow (on (snapRetry d5) s)"
  "snapRow (applyOnly (seal d1))"
  unfolding snapRow_def by (auto dest!: group_cases)

lemma snapStates_rows:
  assumes "s \<in> set snapStates"
  obtains ts where "list_all snapRow ts" "fsmPlanners s = Some (PlanOne ts) \<or> fsmPlanners s = Some (PlanOneOrIgnore ts)"
proof -
  have "list_all (\<lambda>s. case fsmPlanners s of
      Some (PlanOne ts) \<Rightarrow> list_all snapRow ts | Some (PlanOneOrIgnore ts) \<Rightarrow> list_all snapRow ts | _ \<Rightarrow> False) snapStates"
    by (simp add: snapStates_def fsmPlanners_def table_defs)
  then have "case fsmPlanners s of
      Some (PlanOne ts) \<Rightarrow> list_all snapRow ts | Some (PlanOneOrIgnore ts) \<Rightarrow> list_all snapRow ts | _ \<Rightarrow> False"
    using assms unfolding list_all_iff by blast
  then show ?thesis using that by (auto split: option.splits planner.splits)
qed

lemma okRow_CCPieces: "okRow t \<Longrightarrow> CCPieces (fst (snd t st)) = CCPieces st"
proof -
  assume "okRow t"
  then have "fst (snd t st) = st \<or> (\<exists>s. fst (snd t st) = st\<lparr>State := s\<rparr>) \<or>
      fst (snd t st) = st\<lparr>State := Return st, Return := UndefinedSectorState\<rparr>"
    unfolding okRow_def by blast
  then show ?thesis by auto
qed

lemma planLoop_snap:
  assumes "planLoop now ts i es st ps = Ok (st', qs, n, err)" "list_all snapRow ts"
  shows "CCPieces st' = CCPieces st \<or> State st' = Proving"
  using assms
proof (induction now ts i es st ps rule: planLoop.induct)
  case (2 now ts i g es st ps)
  then show ?case using applyGlobal_CCPieces [of g st] by (cases "applyGlobal g st") auto
next
  case (3 now ts i m es st ps)
  show ?case
  proof (cases "find (\<lambda>t. fst t m) ts")
    case None
    with 3 show ?thesis by (cases "Ignorable m") auto
  next
    case (Some t)
    then have t: "snapRow t" "fst t m" using find_Some_set 3(4) by (fastforce simp: list_all_iff)+
    obtain st1 where st1: "applyMut now m st = Ok st1" using 3(3) Some by (auto simp: bindO_eq_Ok)
    obtain st2 qs2 cont err2 where s: "snd t st1 = (st2, qs2, cont, err2)" by (cases "snd t st1")
    have keep: "CCPieces st2 = CCPieces st1" using okRow_CCPieces [of t st1] t(1) s by (simp add: snapRow_def)
    show ?thesis
    proof (cases "movesPieces m")
      case True
      then have "State (fst (snd t st1)) = Proving" "\<not> fst (snd (snd (snd t st1)))" using t by (auto simp: snapRow_def)
      with 3(3) Some st1 s show ?thesis by auto
    next
      case False
      then have "CCPieces st2 = CCPieces st" using applyMut_CCPieces [OF st1] keep by simp
      then show ?thesis
      proof (cases "err2 \<noteq> None \<or> \<not> cont")
        case go: False
        have "CCPieces st' = CCPieces st2 \<or> State st' = Proving"
          by (rule 3(2) [OF Some st1 s [symmetric] refl refl go]) (use 3(3,4) Some st1 s go in simp_all)
        with \<open>CCPieces st2 = CCPieces st\<close> show ?thesis by simp
      qed (use 3(3) Some st1 s in auto)
    qed
  qed
qed auto

lemma runPlanner_snap:
  assumes "fsmPlanners s = Some p" "s \<in> set snapStates" "runPlanner p now es st = Ok (st', ps, n, err)"
  shows "CCPieces st' = CCPieces st \<or> State st' = Proving"
proof -
  from assms(1,2) obtain ts where "list_all snapRow ts" "p = PlanOne ts \<or> p = PlanOneOrIgnore ts"
    by (auto elim: snapStates_rows)
  then show ?thesis using assms(3) planLoop_snap
    by (fastforce simp: planOne_def planOneOrIgnore_def bindO_eq_Ok)
qed

lemma plan_snap:
  assumes "plan env ss es st = Ok r" "State st \<in> set snapStates"
  shows "CCPieces (NewSector r) = CCPieces st \<or> State (NewSector r) = Proving"
  using assms(1)
proof (cases rule: plan_Ok_cases)
  case (planner p st1 ps n err)
  obtain ts where "fsmPlanners (State st) = Some (PlanOne ts) \<or> fsmPlanners (State st) = Some (PlanOneOrIgnore ts)"
    using snapStates_rows [OF assms(2)] by blast
  with planner(1) have "fsmPlanners (State st) = Some p" by (auto simp: findPlanner_def)
  from runPlanner_snap [OF this assms(2) planner(2)] planner(5) show ?thesis
    by (auto simp: nextStep_def split: if_splits)
qed simp

lemma runIn_snap: "runIn (set snapStates) st st' \<Longrightarrow> CCPieces st' = CCPieces st \<and> State st' \<in> set snapStates"
proof (induction rule: runIn.induct)
  case (step st st1 env ss es r)
  obtain r0 L where r0: "plan env ss es st1 = Ok r0" "r = r0\<lparr>NewSector := (NewSector r0)\<lparr>SectorLog := L\<rparr>\<rparr>"
    using Plan_OkD [OF step.hyps(2)] .
  have "State (NewSector r) \<noteq> Proving" using step.hyps(3) by (auto simp: snapStates_def)
  with plan_snap [OF r0(1)] r0(2) step.IH step.hyps(3) show ?case by auto
qed simp

lemma findPlanner_Available:
  "findPlanner es Available = Some (PlanOne [on (snap isSectorStartCCUpdate) SnapDealsWaitDeals, on (snapRetry isSectorAbortUpgrade) Proving])"
  by (simp add: findPlanner_def fsmPlanners_def table_defs)

lemma findPlanner_AbortUpgrade:
  "findPlanner es AbortUpgrade = Some (PlanOneOrIgnore [on (snapRetry isSectorRevertUpgradeToProving) Proving])"
  by (simp add: findPlanner_def fsmPlanners_def table_defs)


section \<open>Witnesses\<close>

definition demoPlanEnv :: plan_env where
  "demoPlanEnv = \<lparr>marshalEvent = (\<lambda>_. None), formatTrace = (\<lambda>_. []), errorText = (\<lambda>_. []), errorKind = (\<lambda>_. []), unixNow = 7, getSealingConfig = None,
     hasSealProof = True, minerID = Some 1, hasNotifee = False\<rparr>"

definition demoStart :: "user list" where
  "demoStart = [Mut (Seal (SectorStart 3 0))]"

lemma demo_start: "\<exists>r. plan demoPlanEnv newStats demoStart emptyInfo = Ok r \<and> PlanError r = None \<and> ProcessedCount r = 1"
proof -
  have "findPlanner demoStart (State emptyInfo) = Some (PlanOne [on (seal isSectorStart) WaitDeals,
      on (seal isSectorStartCC) Packing, on (ext isSectorReceive) ReceiveSector])"
    by (simp add: demoStart_def emptyInfo_def findPlanner_def fsmPlanners_def table_defs)
  moreover have "runPlanner (PlanOne [on (seal isSectorStart) WaitDeals, on (seal isSectorStartCC) Packing,
      on (ext isSectorReceive) ReceiveSector]) now demoStart st =
      Ok ((applySeal now (SectorStart 3 0) st)\<lparr>State := WaitDeals\<rparr>, [], 1, None)" for now st
    by (simp add: demoStart_def planOne_def)
  ultimately show ?thesis by (rule plan_Ok [where ss = newStats]) (auto simp: demoPlanEnv_def)
qed

theorem Plan_declared_witness:
  "\<exists>r. Plan demoPlanEnv newStats demoStart emptyInfo = Ok r \<and> sectorDeclared (NewSector r)"
proof -
  obtain r where r: "Plan demoPlanEnv newStats demoStart emptyInfo = Ok r" using demo_start Plan_Ok by blast
  have "sectorDeclared (NewSector r) \<and> (\<forall>s. PlanError r \<noteq> Some (NoPlanner s))"
    by (rule Plan_declared [OF r]) (simp_all add: demoStart_def emptyInfo_def sectorDeclared_def declaredUser_def)
  with r show ?thesis by blast
qed

theorem plan_progress_witness:
  "\<exists>r. plan demoPlanEnv newStats demoStart emptyInfo = Ok r \<and> ProcessedCount r \<le> 1 \<and>
     State (NewSector r) \<noteq> ReleaseSectorKeyFailed"
proof -
  obtain r where r: "plan demoPlanEnv newStats demoStart emptyInfo = Ok r" "PlanError r = None" "ProcessedCount r = 1"
    using demo_start by blast
  with plan_progress [OF r(1,2)] show ?thesis by (auto simp: demoStart_def)
qed

theorem Plan_committing_stuck_witness:
  "\<exists>r. Plan demoPlanEnv newStats [Mut (Seal SectorStartPacking)] (emptyInfo\<lparr>State := Committing\<rparr>) = Ok r \<and> ProcessedCount r = 0"
  using Plan_committing_stuck [of "emptyInfo\<lparr>State := Committing\<rparr>" "Seal SectorStartPacking" demoPlanEnv newStats "[]"]
  by (auto simp: committingEvent_def)

theorem sector_removable_witness:
  "\<exists>r1. Plan demoPlanEnv newStats [Global SectorRemove] emptyInfo = Ok r1 \<and> State (NewSector r1) = Removing"
  using sector_removable [of emptyInfo demoPlanEnv newStats newStats] by (auto simp: emptyInfo_def demoPlanEnv_def)


definition demoPiece :: SectorPiece where
  "demoPiece = \<lparr>Piece = \<lparr>PieceInfoSize = 2048, PieceCID = ''zero''\<rparr>, DealInfo = None\<rparr>"

definition demoAvailable :: SectorInfo where
  "demoAvailable = emptyInfo\<lparr>State := Available, Pieces := [demoPiece]\<rparr>"

lemma demo_Plan:
  assumes "fsmPlanners (State st) = Some p" "runPlanner p 7 [Mut m] st = Ok (st1, ps, n, None)"
    and "map_of handlers (State st1) = Some h" "State st1 \<noteq> PackingFailed"
  obtains r where "Plan demoPlanEnv newStats [Mut m] st = Ok r" "NewSector r = st1"
proof -
  have log: "logEvents demoPlanEnv [Mut m] st = st" by (simp add: logEvents.simps demoPlanEnv_def)
  have env: "minerID demoPlanEnv \<noteq> None" "unixNow demoPlanEnv = 7" by (simp_all add: demoPlanEnv_def)
  have "findPlanner [Mut m] (State st) = Some p" using assms(1) by (simp add: findPlanner_def)
  moreover have "runPlanner p (int (unixNow demoPlanEnv)) [Mut m] (logEvents demoPlanEnv [Mut m] st) = Ok (st1, ps, n, None)"
    using assms(2) log env by simp
  ultimately obtain r where r: "plan demoPlanEnv newStats [Mut m] st = Ok r" "PlanError r = None"
    "NewSector r = fst (nextStep st1)" "NextHandler r = snd (nextStep st1)"
    by (rule plan_Ok [where ss = newStats, OF _ _ env(1)])
  then have "Plan demoPlanEnv newStats [Mut m] st = Ok r" using assms(3) by (simp add: Plan_def nextStep_def)
  with r(3) assms(4) that show ?thesis by (simp add: nextStep_def)
qed

text \<open>The sector after the start of an upgrade, and after its abort.\<close>

definition demoUpgrading :: SectorInfo where
  "demoUpgrading = (applySnap SectorStartCCUpdate demoAvailable)\<lparr>State := SnapDealsWaitDeals\<rparr>"

definition demoAborted :: SectorInfo where
  "demoAborted = (applySnapRetry (SectorAbortUpgrade []) demoUpgrading)\<lparr>State := AbortUpgrade\<rparr>"

lemma demo_states:
  "State demoAvailable = Available" "State demoUpgrading = SnapDealsWaitDeals" "State demoAborted = AbortUpgrade"
  by (simp_all add: demoAvailable_def demoUpgrading_def demoAborted_def)

lemma demo_handlers:
  "map_of handlers SnapDealsWaitDeals = Some handleWaitDeals" "map_of handlers AbortUpgrade = Some handleAbortUpgrade"
  by (simp_all add: handlers_def)


end
