(* ===== verification/SectorLog.thy ===== *)
theory SectorLog
  imports SectorRuns
begin

text \<open>
  The log a sector carries, whose size is bounded, and the counters of failed attempts that
  decide whether sealing starts over (\<open>src/storage/pipeline/fsm.go\<close>,
  \<open>fsm_events.go\<close>).
\<close>

section \<open>The log\<close>

text \<open>At most 8001 entries, and no truncation marker that was not there before.\<close>

definition logInv :: "Log set \<Rightarrow> SectorInfo \<Rightarrow> bool" where
  "logInv T st \<longleftrightarrow> length (SectorLog st) \<le> 8001 \<and> (\<forall>e\<in>set (SectorLog st). LogKind e = ''truncate'' \<longrightarrow> e \<in> T)"

definition noReceive :: "user \<Rightarrow> bool" where
  "noReceive u = (case u of Mut m \<Rightarrow> \<not> ext isSectorReceive m | _ \<Rightarrow> True)"

lemma SectorLog_apply [simp]:
  "SectorLog (applySeal now e1 st) = SectorLog st" "SectorLog (applyCommit e2 st) = SectorLog st"
  "SectorLog (applySnap e3 st) = SectorLog st" "SectorLog (applySnapRetry e4 st) = SectorLog st"
  by (simp_all add: applySeal_def applyCommit_def applySnap_def applySnapRetry_def
      split: sealEvent.split commitEvent.split snapEvent.split snapRetryEvent.split)

lemma applyMut_SectorLog:
  assumes "applyMut now m st = Ok st'" "noReceive (Mut m)"
  shows "SectorLog st' = SectorLog st"
  using assms by (cases m) (auto simp: noReceive_def applyOther_def applyRetry_fields split: otherEvent.splits)

interpretation log_inv: sector_invariant "logInv T" noReceive for T
proof
  fix g st assume "logInv T st"
  then show "logInv T (fst (applyGlobal g st))" by (cases g) (simp_all add: logInv_def)
next
  fix m st now st' assume "noReceive (Mut m)" "logInv T st" "applyMut now m st = Ok st'"
  then show "logInv T st'" using applyMut_SectorLog by (simp add: logInv_def)
qed (auto simp: logInv_def)

lemma logAppend_log:
  "SectorLog (logAppend now l st) =
     (if length (SectorLog st) > 8000 then take 2000 (SectorLog st) @ drop 6000 (SectorLog st) else SectorLog st) @ [l]"
  by (simp add: logAppend_def Let_def)

lemma logAppend_logInv:
  assumes "logInv T st" "LogKind l \<noteq> ''truncate''"
  shows "logInv T (logAppend now l st)"
  using assms unfolding logInv_def logAppend_log
  by (auto dest: in_set_takeD in_set_dropD split: if_splits)

lemma logEvents_logInv: "logInv T st \<Longrightarrow> logInv T (logEvents env es st)"
proof (induction es arbitrary: st)
  case (Cons e es)
  have "logInv T (logAppend now \<lparr>LogTimestamp = x, LogTrace = y, LogMessage = z, LogKind = ''event;'' @ k\<rparr> st)" for now x y z k
    by (rule logAppend_logInv [OF Cons.prems]) simp
  then show ?case using Cons by (auto simp: logEvents.simps split: option.split)
qed (simp add: logEvents.simps)


section \<open>Counters of failures\<close>

text \<open>The states whose planner handles a failed first sealing phase.\<close>

definition sealFailureStates :: "SectorState list" where
  "sealFailureStates = [PreCommit1, PreCommit2, PreCommitting, SubmitPreCommitBatch, PreCommitFailed, ComputeProofFailed, CommitFailed]"

lemma fsmPlanners_sealFailure:
  "s \<in> set sealFailureStates \<Longrightarrow> \<exists>ts. fsmPlanners s = Some (PlanOne ts) \<and>
     find (\<lambda>t. fst t (Seal (SectorSealPreCommit1Failed msg))) ts = Some (on (seal isSectorSealPreCommit1Failed) SealPreCommit1Failed)"
  by (auto simp: sealFailureStates_def fsmPlanners_def table_defs onWithCB_def)

text \<open>
  A failed first sealing phase sends the sector to \<open>SealPreCommit1Failed\<close>. From every
  state that handles it this resets the two counters of failed attempts, except from
  \<open>Committing\<close>, whose planner changes the state only and keeps the counters.
\<close>

theorem seal_failure_counters:
  assumes "plan env ss [Mut (Seal (SectorSealPreCommit1Failed msg))] st = Ok r"
  shows "(State st \<in> set sealFailureStates \<longrightarrow> State (NewSector r) = SealPreCommit1Failed \<and>
      InvalidProofs (NewSector r) = 0 \<and> PreCommit2Fails (NewSector r) = 0) \<and>
    (State st = Committing \<longrightarrow> State (NewSector r) = SealPreCommit1Failed \<and>
      InvalidProofs (NewSector r) = InvalidProofs st \<and> PreCommit2Fails (NewSector r) = PreCommit2Fails st)"
proof -
  let ?m = "Seal (SectorSealPreCommit1Failed msg)"
  obtain L where L: "logEvents env [Mut ?m] st = st\<lparr>SectorLog := L\<rparr>" using logEvents_eq by blast
  show ?thesis
  proof (cases rule: plan_Ok_cases [OF assms])
    case (1 p st1 ps n err)
    have "State st1 = SealPreCommit1Failed \<and> InvalidProofs st1 = 0 \<and> PreCommit2Fails st1 = 0 \<and> err = None"
      if "State st \<in> set sealFailureStates"
    proof -
      from fsmPlanners_sealFailure [OF that] obtain ts where "fsmPlanners (State st) = Some (PlanOne ts)"
        "find (\<lambda>t. fst t ?m) ts = Some (on (seal isSectorSealPreCommit1Failed) SealPreCommit1Failed)" by blast
      with 1(1,2) show ?thesis by (auto simp: findPlanner_def planOne_def applySeal_def)
    qed
    moreover have "State st1 = SealPreCommit1Failed \<and> InvalidProofs st1 = InvalidProofs st \<and>
        PreCommit2Fails st1 = PreCommit2Fails st \<and> err = None"
      if "State st = Committing"
    proof -
      have "fsmPlanners Committing = Some PlanCommitting" by (simp add: fsmPlanners_def table_defs)
      with 1(1,2) that L show ?thesis by (auto simp: findPlanner_def planCommitting_def committingEvent_def)
    qed
    ultimately show ?thesis using 1(5) by (auto simp: nextStep_def)
  next
    case 2
    have "declared s" if "s \<in> set sealFailureStates \<or> s = Committing" for s
      using that by (auto simp: sealFailureStates_def)
    with 2(1) show ?thesis using fsmPlanners_declared [of "State st"] by (auto simp: findPlanner_def split: option.splits)
  qed
qed

section \<open>Witnesses\<close>


definition demoCommitting :: SectorInfo where
  "demoCommitting = emptyInfo\<lparr>State := Committing, InvalidProofs := 1\<rparr>"

theorem seal_failure_counters_witness:
  "\<exists>r. plan demoPlanEnv newStats [Mut (Seal (SectorSealPreCommit1Failed ''bad''))] demoCommitting = Ok r \<and>
     InvalidProofs (NewSector r) = 1"
proof -
  have "\<exists>r. plan demoPlanEnv newStats [Mut (Seal (SectorSealPreCommit1Failed ''bad''))] demoCommitting = Ok r"
    by (simp add: demoCommitting_def plan_def findPlanner_def fsmPlanners_def table_defs planCommitting_def committingEvent_def
        onUpdateSector_def demoPlanEnv_def logEvents.simps Let_def split_def)
  then obtain r where r: "plan demoPlanEnv newStats [Mut (Seal (SectorSealPreCommit1Failed ''bad''))] demoCommitting = Ok r" by blast
  with seal_failure_counters [OF r] show ?thesis by (simp add: demoCommitting_def)
qed

end
