(* ===== verification/SectorPadding.thy ===== *)
theory SectorPadding
  imports Prelude "HOL-Library.Word"
begin

text \<open>
  The pieces of zeros between the pieces of a sector: \<open>GetRequiredPadding\<close>
  (\<open>src/storage/sealer/ffiwrapper/sealer_cgo.go\<close>) gives those in front of a new piece,
  \<open>fillersFromRem\<close> (\<open>src/storage/pipeline/utils.go\<close>) those that fill the rest of a
  sector. Both take the set bits of a 64-bit number from the lowest up. The conversions between
  the sizes of a piece with and without padding (\<open>Padded\<close> and \<open>Unpadded\<close> of the state
  types) are arguments; what is documented of them is \<open>piece_sizes\<close>: 127 bytes of data take
  128 bytes in the sector.
\<close>

unbundle bit_operations_syntax

section \<open>Bits\<close>

text \<open>\<open>bits.OnesCount64\<close> and \<open>bits.TrailingZeros64\<close>.\<close>

definition onesCount :: "64 word \<Rightarrow> nat" where
  "onesCount w = length (filter (bit w) [0..<64])"

definition trailingZeros :: "64 word \<Rightarrow> nat" where
  "trailingZeros w = length (takeWhile (\<lambda>i. \<not> bit w i) [0..<64])"

section \<open>Padding and fillers\<close>

fun fillLoop :: "(64 word \<Rightarrow> 64 word) \<Rightarrow> nat \<Rightarrow> 64 word \<Rightarrow> 64 word list" where
  "fillLoop unpadded 0 toFill = []"
| "fillLoop unpadded (Suc n) toFill =
     (let psize = push_bit (trailingZeros toFill) 1
      in unpadded psize # fillLoop unpadded n (toFill XOR psize))"

definition fillersFromRem :: "(64 word \<Rightarrow> 64 word) \<Rightarrow> 64 word \<Rightarrow> 64 word list" where
  "fillersFromRem unpadded rem = (let toFill = rem + rem div 127 in fillLoop unpadded (onesCount toFill) toFill)"

fun padLoop :: "nat \<Rightarrow> 64 word \<Rightarrow> 64 word list \<Rightarrow> 64 word \<Rightarrow> 64 word list \<times> 64 word" where
  "padLoop 0 toFill padPieces acc = (padPieces, acc)"
| "padLoop (Suc n) toFill padPieces acc =
     (let psize = push_bit (trailingZeros toFill) 1
      in padLoop n (toFill XOR psize) (padPieces @ [psize]) (acc + psize))"

text \<open>The remainder by a piece of size 0 panics.\<close>

definition GetRequiredPadding :: "64 word \<Rightarrow> 64 word \<Rightarrow> (string, 64 word list \<times> 64 word) outcome" where
  "GetRequiredPadding oldLength newPieceLength =
     (if newPieceLength = 0 then Panic
      else let toFill = (- oldLength) mod newPieceLength in Ok (padLoop (onesCount toFill) toFill [] 0))"

section \<open>The bits of a number\<close>

definition setBits :: "64 word \<Rightarrow> nat list" where
  "setBits w = filter (bit w) [0..<64]"

lemma setBits_Cons:
  assumes "setBits w = i # is"
  shows "trailingZeros w = i" "setBits (w XOR push_bit i 1) = is"
proof -
  obtain us vs where split: "[0..<64] = us @ i # vs" and us: "\<forall>u\<in>set us. \<not> bit w u" and i: "bit w i" and vs: "is = filter (bit w) vs"
    using assms by (auto simp: setBits_def filter_eq_Cons_iff)
  have "i = [0..<64] ! length us" by (simp add: split)
  moreover have "length us < 64" using arg_cong [OF split, of length] by simp
  ultimately have len: "length us = i" by simp
  have "takeWhile (\<lambda>j. \<not> bit w j) [0..<64] = us" using us i by (simp add: split)
  then show "trailingZeros w = i" by (simp add: trailingZeros_def len)
  have "distinct (us @ i # vs)" using split by (metis distinct_upt)
  then have other: "bit (w XOR push_bit i 1) j = bit w j" if "j \<in> set us \<union> set vs" for j
    using that by (auto simp: bit_xor_iff bit_exp_iff)
  have "\<not> bit (w XOR push_bit i 1) i" using i by (auto simp: bit_xor_iff bit_exp_iff dest: bit_imp_le_length)
  with other us show "setBits (w XOR push_bit i 1) = is"
    by (auto simp: setBits_def split vs filter_empty_conv intro!: filter_cong)
qed

lemma fillLoop_bits: "fillLoop unpadded (onesCount w) w = map (\<lambda>i. unpadded (push_bit i 1)) (setBits w)"
proof (induction "setBits w" arbitrary: w)
  case Nil
  then show ?case by (simp add: onesCount_def setBits_def [symmetric])
next
  case (Cons i "is")
  then have "setBits w = i # is" by simp
  note tail = setBits_Cons [OF this]
  have "onesCount w = Suc (onesCount (w XOR push_bit i 1))"
    using Cons(2) [symmetric] tail(2) by (simp add: onesCount_def setBits_def [symmetric])
  with Cons(1) [of "w XOR push_bit i 1"] Cons(2) [symmetric] tail show ?case by (simp add: Let_def)
qed

lemma padLoop_fill: "padLoop n w ps acc = (ps @ fillLoop id n w, acc + sum_list (fillLoop id n w))"
  by (induction n arbitrary: w ps acc) (simp_all add: Let_def add.assoc)

lemma sum_bits:
  "n \<le> 64 \<Longrightarrow> sum_list (map (\<lambda>i. 2 ^ i) (filter (bit w) [0..<n])) = (take_bit n (unat w) :: nat)" for w :: "64 word"
  by (induction n) (simp_all add: take_bit_Suc_from_most bit_unsigned_iff ac_simps)

section \<open>Layout\<close>

text \<open>Pieces one after the other from an offset on, each at a multiple of its own size.\<close>

fun laidOut :: "nat \<Rightarrow> nat list \<Rightarrow> bool" where
  "laidOut off [] \<longleftrightarrow> True"
| "laidOut off (p # ps) \<longleftrightarrow> p dvd off \<and> laidOut (off + p) ps"

lemma laidOut_append [simp]: "laidOut off (ps @ qs) \<longleftrightarrow> laidOut off ps \<and> laidOut (off + sum_list ps) qs"
  by (induction ps arbitrary: off) (simp_all add: add.assoc)

lemma laidOut_bits:
  fixes w :: "64 word"
  assumes "\<And>i. bit w i \<Longrightarrow> 2 ^ i dvd off + take_bit i (unat w)" "n \<le> 64"
  shows "laidOut off (map (\<lambda>i. 2 ^ i) (filter (bit w) [0..<n]))"
  using assms(2) by (induction n) (simp_all add: sum_bits assms(1))

lemma unat_exp [simp]: "i < 64 \<Longrightarrow> unat ((2 :: 64 word) ^ i) = 2 ^ i"
proof -
  assume "i < 64"
  then have "(2 :: nat) ^ i < 2 ^ 64" by (rule power_strict_increasing) simp
  then have "take_bit 64 ((2 :: nat) ^ i) = 2 ^ i" by (rule take_bit_nat_eq_self)
  moreover have "unat (of_nat (2 ^ i) :: 64 word) = take_bit 64 (2 ^ i)" by (simp only: unsigned_of_nat) simp
  ultimately show ?thesis by simp
qed

lemma map_unat_bits: "map unat (map (\<lambda>i. push_bit i (1 :: 64 word)) (setBits w)) = map (\<lambda>i. 2 ^ i) (setBits w)"
  by (simp add: setBits_def)

lemma unat_bits [simp]: "sum_list (map (\<lambda>i. 2 ^ i) (setBits w)) = unat w"
proof -
  have "unat w < 2 ^ 64" by (rule order_less_le_trans [OF unsigned_less]) simp
  then have "take_bit 64 (unat w) = unat w" by (rule take_bit_nat_eq_self)
  then show ?thesis using sum_bits [of 64 w] by (simp add: setBits_def)
qed

lemma sum_list_bits: "sum_list (map (\<lambda>i. push_bit i 1) (setBits w)) = w"
proof -
  have "of_nat (sum_list (map (\<lambda>i. 2 ^ i) xs)) = sum_list (map (\<lambda>i. push_bit i (1 :: 64 word)) xs)" for xs
    by (induction xs) simp_all
  from this [of "setBits w"] show ?thesis by simp
qed

text \<open>The remainder of the negated length is what is missing to the next multiple.\<close>

lemma uint_neg_mod: "k \<le> 64 \<Longrightarrow> uint (take_bit k (- old)) = (- uint old) mod 2 ^ k" for old :: "64 word"
proof -
  assume "k \<le> 64"
  then have "(2 :: int) ^ k dvd 2 ^ 64" by (rule le_imp_power_dvd)
  from mod_mod_cancel [OF this, of "- uint old"] have "uint (- old) mod 2 ^ k = (- uint old) mod 2 ^ k"
    by (simp add: uint_word_ariths)
  then have "take_bit k (uint (- old)) = (- uint old) mod 2 ^ k" by (simp only: take_bit_eq_mod)
  then show ?thesis by (simp only: unsigned_take_bit_eq)
qed

lemma pad_dvd:
  fixes old :: "64 word"
  assumes "k < 64" "bit (take_bit k (- old)) i"
  shows "2 ^ i dvd unat old + take_bit i (unat (take_bit k (- old)))"
proof -
  have "i < k" using assms(2) by (simp add: bit_take_bit_iff)
  have "uint (take_bit i (take_bit k (- old))) = (- uint old) mod 2 ^ i"
    using \<open>i < k\<close> assms(1) by (simp add: take_bit_take_bit min_def uint_neg_mod)
  then have "int (unat old + unat (take_bit i (take_bit k (- old)))) = uint old + (- uint old) mod 2 ^ i"
    by (simp only: of_nat_add uint_nat [symmetric])
  moreover have "2 ^ i dvd uint old + (- uint old) mod 2 ^ i"
    by (metis add.right_inverse dvd_0_right mod_add_right_eq mod_eq_0_iff_dvd mod_0)
  ultimately have "int (2 ^ i) dvd int (unat old + unat (take_bit i (take_bit k (- old))))" by simp
  then show ?thesis by (simp only: int_dvd_int_iff unsigned_take_bit_eq)
qed

lemma pad_dvd_all: "k < 64 \<Longrightarrow> 2 ^ k dvd unat old + unat (take_bit k (- old))" for old :: "64 word"
proof -
  assume "k < 64"
  then have "int (unat old + unat (take_bit k (- old))) = uint old + (- uint old) mod 2 ^ k"
    using uint_neg_mod [of k old] by (simp only: of_nat_add uint_nat [symmetric])
  moreover have "2 ^ k dvd uint old + (- uint old) mod 2 ^ k"
    by (metis add.right_inverse dvd_0_right mod_add_right_eq mod_eq_0_iff_dvd mod_0)
  ultimately have "int (2 ^ k) dvd int (unat old + unat (take_bit k (- old)))" by simp
  then show ?thesis by (simp only: int_dvd_int_iff)
qed

lemma GetRequiredPadding_bits:
  assumes "k < 64"
  shows "GetRequiredPadding old (2 ^ k) =
    Ok (map (\<lambda>i. 2 ^ i) (setBits (take_bit k (- old))), take_bit k (- old))"
proof -
  have "(2 :: 64 word) ^ k \<noteq> 0" using assms by (simp add: exp_eq_zero_iff)
  then show ?thesis
    using sum_list_bits [of "take_bit k (- old)"]
    by (simp add: GetRequiredPadding_def padLoop_fill fillLoop_bits take_bit_eq_mod [symmetric] Let_def)
qed

text \<open>What is documented of the conversions: 127 bytes of data take 128 bytes of the sector.\<close>

definition piece_sizes :: "(64 word \<Rightarrow> 64 word) \<Rightarrow> (64 word \<Rightarrow> 64 word) \<Rightarrow> bool" where
  "piece_sizes padded unpadded \<longleftrightarrow>
     (\<forall>n. n < 2 ^ 57 \<longrightarrow> padded (of_nat (127 * n)) = of_nat (128 * n) \<and> unpadded (of_nat (128 * n)) = of_nat (127 * n))"

lemma unat_units: "n < 2 ^ 57 \<Longrightarrow> c \<le> 128 \<Longrightarrow> unat (of_nat (c * n) :: 64 word) = c * n"
proof -
  assume "n < 2 ^ 57" "c \<le> 128"
  then have "c * n \<le> 128 * n" "128 * n < 2 ^ 64" by simp_all
  then have "c * n < 2 ^ 64" by (rule le_less_trans)
  then show ?thesis by (simp only: unsigned_of_nat) (simp add: take_bit_nat_eq_self)
qed

lemma piece_sizes_exp:
  assumes "piece_sizes padded unpadded" "7 \<le> i" "i < 64"
  shows "padded (unpadded (2 ^ i)) = 2 ^ i" "unat (unpadded (2 ^ i)) = 127 * 2 ^ (i - 7)"
proof -
  have lt: "(2 :: nat) ^ (i - 7) < 2 ^ 57" using assms(2,3) by (intro power_strict_increasing) auto
  have "(2 :: 64 word) ^ i = 2 ^ (7 + (i - 7))" using assms(2) by simp
  then have e: "(2 :: 64 word) ^ i = of_nat (128 * 2 ^ (i - 7))" by (simp only: power_add) simp
  from assms(1) lt have "unpadded (of_nat (128 * 2 ^ (i - 7))) = of_nat (127 * 2 ^ (i - 7))"
    "padded (of_nat (127 * 2 ^ (i - 7))) = of_nat (128 * 2 ^ (i - 7))" unfolding piece_sizes_def by blast+
  then show "padded (unpadded (2 ^ i)) = 2 ^ i" "unat (unpadded (2 ^ i)) = 127 * 2 ^ (i - 7)"
    unfolding e using unat_units [OF lt, of 127] by simp_all
qed

lemma toFill_units:
  assumes "n < 2 ^ 57"
  shows "of_nat (127 * n) + of_nat (127 * n) div 127 = (of_nat (128 * n) :: 64 word)" "unat (of_nat (128 * n) :: 64 word) = 128 * n"
proof -
  have u: "unat (of_nat (127 * n) :: 64 word) = 127 * n" using assms by (rule unat_units) simp
  have v: "unat (of_nat n :: 64 word) = n" using unat_units [OF assms, of 1] by simp
  have "unat (of_nat (127 * n) div 127 :: 64 word) = unat (of_nat (127 * n) :: 64 word) div unat (127 :: 64 word)" by (rule unat_div_distrib)
  also have "\<dots> = n" unfolding u by simp
  finally have "of_nat (127 * n) div 127 = (of_nat n :: 64 word)" using v by (simp only: word_unat_eq_iff)
  then show "of_nat (127 * n) + of_nat (127 * n) div 127 = (of_nat (128 * n) :: 64 word)" by simp
  show "unat (of_nat (128 * n) :: 64 word) = 128 * n" using assms by (rule unat_units) simp
qed

lemma setBits_units:
  assumes "128 dvd unat w" "i \<in> set (setBits w)"
  shows "7 \<le> i" "i < 64"
proof -
  from assms(2) have "bit w i" "i < 64" by (auto simp: setBits_def)
  then have "bit (unat w) i" by (simp only: bit_unsigned_iff) simp
  moreover obtain m where "unat w = 128 * m" using assms(1) by (rule dvdE)
  then have "unat w = push_bit 7 m" by (simp add: push_bit_eq_mult)
  ultimately show "7 \<le> i" by (simp add: bit_push_bit_iff)
  show "i < 64" by fact
qed

text \<open>The padding in front of a piece, as sizes in the sector.\<close>

lemma padding_spec:
  assumes "k < 64"
  obtains w where "GetRequiredPadding old (2 ^ k) = Ok (map (\<lambda>i. 2 ^ i) (setBits w), w)"
    "unat w < 2 ^ k" "2 ^ k dvd unat old + unat w" "laidOut (unat old) (map (\<lambda>i. 2 ^ i) (setBits w))"
proof -
  have "laidOut (unat old) (map (\<lambda>i. 2 ^ i) (setBits (take_bit k (- old))))"
    unfolding setBits_def by (rule laidOut_bits) (use pad_dvd [OF assms] in auto)
  moreover have "unat (take_bit k (- old)) < 2 ^ k" by (simp add: unsigned_take_bit_eq)
  ultimately show ?thesis using that GetRequiredPadding_bits [OF assms] pad_dvd_all [OF assms] by blast
qed

text \<open>The fillers of the space between an offset and the end of a sector.\<close>

lemma fillers_bits:
  assumes "n < 2 ^ 57"
  shows "fillersFromRem unpadded (of_nat (127 * n)) = map (\<lambda>i. unpadded (2 ^ i)) (setBits (of_nat (128 * n)))"
  by (simp only: fillersFromRem_def Let_def fillLoop_bits toFill_units(1) [OF assms]) simp

lemma fillers_laidOut:
  assumes "off + unat w = 2 ^ j"
  shows "laidOut off (map (\<lambda>i. 2 ^ i) (setBits w))"
  unfolding setBits_def
proof (rule laidOut_bits)
  fix i
  assume "bit w i"
  then have "bit (unat w) i" by (simp only: bit_unsigned_iff) (simp add: bit_imp_le_length)
  then have "odd (unat w div 2 ^ i)" unfolding bit_iff_odd .
  then have "0 < unat w div 2 ^ i" by (rule odd_pos)
  then have "2 ^ i \<le> unat w" by (simp add: div_greater_zero_iff)
  with assms have "(2 :: nat) ^ i \<le> 2 ^ j" by linarith
  then have "i \<le> j" by simp
  then have "2 ^ i dvd off + unat w" unfolding assms by (rule le_imp_power_dvd)
  moreover have "off + unat w = off + take_bit i (unat w) + 2 ^ i * (unat w div 2 ^ i)" by (simp add: take_bit_eq_mod)
  ultimately show "2 ^ i dvd off + take_bit i (unat w)" by (metis dvd_add_left_iff dvd_triv_left)
qed simp

section \<open>Properties\<close>

text \<open>
  C27: The padding in front of a piece whose size is a power of two brings the end of the data to a
  multiple of that size, is shorter than the piece, and consists of pieces that are powers of two
  and stand each at a multiple of their own size; the length returned with them is their sum.
\<close>

theorem GetRequiredPadding_aligns:
  assumes "k < 64"
  shows "\<exists>pads total. GetRequiredPadding old (2 ^ k) = Ok (pads, total) \<and>
    unat total = sum_list (map unat pads) \<and> unat total < 2 ^ k \<and> 2 ^ k dvd unat old + unat total \<and>
    laidOut (unat old) (map unat pads) \<and> (\<forall>p\<in>set pads. \<exists>i. p = 2 ^ i)"
proof -
  obtain w where w: "GetRequiredPadding old (2 ^ k) = Ok (map (\<lambda>i. 2 ^ i) (setBits w), w)"
    "unat w < 2 ^ k" "2 ^ k dvd unat old + unat w" "laidOut (unat old) (map (\<lambda>i. 2 ^ i) (setBits w))"
    by (rule padding_spec [OF assms])
  have m: "map unat (map (\<lambda>i. (2 :: 64 word) ^ i) (setBits w)) = map (\<lambda>i. 2 ^ i) (setBits w)" using map_unat_bits [of w] by simp
  show ?thesis
    using w by (intro exI [of _ "map (\<lambda>i. 2 ^ i) (setBits w)"] exI [of _ w]) (auto simp only: m unat_bits set_map)
qed

text \<open>
  The fillers of the remaining space of a sector, counted in units of 127 bytes, sum up to exactly that space,
  and each of them takes a power of two of at least 128 bytes in the sector.
\<close>

theorem fillersFromRem_fill:
  assumes "piece_sizes padded unpadded" "n < 2 ^ 57"
  shows "sum_list (map unat (fillersFromRem unpadded (of_nat (127 * n)))) = 127 * n \<and>
    (\<forall>f\<in>set (fillersFromRem unpadded (of_nat (127 * n))). \<exists>i. 7 \<le> i \<and> padded f = 2 ^ i)"
proof -
  define w where "w = (of_nat (128 * n) :: 64 word)"
  have unat_w: "unat w = 128 * n" using toFill_units(2) [OF assms(2)] by (simp only: w_def)
  have fillers: "fillersFromRem unpadded (of_nat (127 * n)) = map (\<lambda>i. unpadded (2 ^ i)) (setBits w)"
    unfolding w_def by (rule fillers_bits [OF assms(2)])
  have ex: "unat (unpadded (2 ^ i)) = 127 * 2 ^ (i - 7)" "padded (unpadded (2 ^ i)) = 2 ^ i" "7 \<le> i" if "i \<in> set (setBits w)" for i
    using piece_sizes_exp [OF assms(1)] setBits_units [of w] that unat_w by auto
  have "128 * sum_list (map unat (map (\<lambda>i. unpadded (2 ^ i)) is)) = 127 * sum_list (map (\<lambda>i. 2 ^ i) is)"
    if "set is \<subseteq> set (setBits w)" for "is"
    using that
  proof (induction "is")
    case (Cons i "is")
    then have "(2 :: nat) ^ i = 2 ^ (7 + (i - 7))" using ex(3) [of i] by simp
    then have "(2 :: nat) ^ i = 128 * 2 ^ (i - 7)" by (simp only: power_add) simp
    with Cons ex(1) [of i] show ?case by simp
  qed simp
  from this [of "setBits w"] have "sum_list (map unat (fillersFromRem unpadded (of_nat (127 * n)))) = 127 * n"
    unfolding fillers by (simp only: unat_bits unat_w) simp
  moreover have "\<forall>f\<in>set (fillersFromRem unpadded (of_nat (127 * n))). \<exists>i. 7 \<le> i \<and> padded f = 2 ^ i"
    unfolding fillers using ex by auto
  ultimately show ?thesis by blast
qed

section \<open>Witnesses\<close>

definition stdPadded :: "64 word \<Rightarrow> 64 word" where
  "stdPadded s = s + s div 127"

definition stdUnpadded :: "64 word \<Rightarrow> 64 word" where
  "stdUnpadded s = s - s div 128"

lemma std_piece_sizes: "piece_sizes stdPadded stdUnpadded"
proof -
  have "stdUnpadded (of_nat (128 * n)) = of_nat (127 * n)" if "n < 2 ^ 57" for n
  proof -
    have "unat (of_nat (128 * n) div 128 :: 64 word) = unat (of_nat (128 * n) :: 64 word) div unat (128 :: 64 word)" by (rule unat_div_distrib)
    also have "\<dots> = unat (of_nat n :: 64 word)" using unat_units [OF that, of 128] unat_units [OF that, of 1] by simp
    finally have "of_nat (128 * n) div 128 = (of_nat n :: 64 word)" by (simp only: word_unat_eq_iff)
    then show ?thesis by (simp add: stdUnpadded_def)
  qed
  moreover have "stdPadded (of_nat (127 * n)) = of_nat (128 * n)" if "n < 2 ^ 57" for n
    using toFill_units(1) [OF that] by (simp only: stdPadded_def)
  ultimately show ?thesis unfolding piece_sizes_def by blast
qed

theorem GetRequiredPadding_aligns_witness:
  "\<exists>pads total. GetRequiredPadding 128 (2 ^ 10) = Ok (pads, total) \<and> unat total = 896 \<and> laidOut 128 (map unat pads)"
proof -
  obtain pads total where g: "GetRequiredPadding 128 (2 ^ 10) = Ok (pads, total)" "unat total < 2 ^ 10" "2 ^ 10 dvd 128 + unat total"
    "laidOut 128 (map unat pads)"
    using GetRequiredPadding_aligns [of 10 128] by auto
  from g(3) obtain c where c: "128 + unat total = 1024 * c" by (auto elim: dvdE)
  moreover have "unat total < 1024" using g(2) by simp
  ultimately have "c = 1" by linarith
  with c have "unat total = 896" by simp
  with g show ?thesis by blast
qed

theorem fillersFromRem_fill_witness:
  "sum_list (map unat (fillersFromRem stdUnpadded (of_nat (127 * 15)))) = 1905"
  using fillersFromRem_fill [OF std_piece_sizes, of 15] by simp

end
