(* ===== verification/SectorNumbers.thy ===== *)
theory SectorNumbers
  imports Prelude "HOL-Library.Code_Target_Nat"
begin

text \<open>
  The numbers of new sectors and their reservation under names
  (\<open>src/storage/pipeline/numassign.go\<close>). The state is the datastore, a map from keys to
  bytes; which of its operations fail is an argument, and so are the bitfield library, the
  functions that make keys, the query of the datastore and the numbers allocated on chain, all
  fields of the record \<open>numEnv\<close>. What the proofs rely on is documented of them:
  \<open>bitfield_laws\<close> (a bitfield is a set of numbers) and \<open>keys_apart\<close> (different names give
  different keys). An operation returns the datastore it leaves, also when it fails.
\<close>

section \<open>What the code is given\<close>

datatype dsOp = GetOp string | PutOp string | DeleteOp string

type_synonym ds = "string \<rightharpoonup> string"

record 'b numEnv =
  bfNew :: 'b
  bfSet :: "nat \<Rightarrow> 'b \<Rightarrow> 'b"
  bfMerge :: "'b \<Rightarrow> 'b \<Rightarrow> (string, 'b) outcome"
  bfSubtract :: "'b \<Rightarrow> 'b \<Rightarrow> (string, 'b) outcome"
  bfIntersect :: "'b \<Rightarrow> 'b \<Rightarrow> (string, 'b) outcome"
  bfIsEmpty :: "'b \<Rightarrow> (string, bool) outcome"
  bfCount :: "'b \<Rightarrow> (string, nat) outcome"
  bfSlice :: "'b \<Rightarrow> nat \<Rightarrow> nat \<Rightarrow> (string, 'b) outcome"
  bfFromRuns :: "(bool \<times> nat) list \<Rightarrow> (string, 'b) outcome"
  bfRuns :: "'b \<Rightarrow> (string, (string, bool \<times> nat) outcome list) outcome"
  bfMarshal :: "'b \<Rightarrow> (string, string) outcome"
  bfUnmarshal :: "string \<Rightarrow> (string, 'b) outcome"
  newKey :: "string \<Rightarrow> string"
  keyWithNamespaces :: "string list \<Rightarrow> string"
  baseNamespace :: "string \<Rightarrow> string"
  dsFault :: "dsOp \<Rightarrow> string option"
  dsQuery :: "ds \<Rightarrow> string \<Rightarrow> (string, (string, string \<times> string) outcome list) outcome"
  chainAllocated :: "(string, 'b option) outcome"

text \<open>A key that is not found is \<open>None\<close>.\<close>

definition dsGet :: "'b numEnv \<Rightarrow> string \<Rightarrow> ds \<Rightarrow> (string, string option) outcome" where
  "dsGet env k ds = (case dsFault env (GetOp k) of Some e \<Rightarrow> Err e | None \<Rightarrow> Ok (ds k))"

definition dsPut :: "'b numEnv \<Rightarrow> string \<Rightarrow> string \<Rightarrow> ds \<Rightarrow> ds \<times> (string, unit) outcome" where
  "dsPut env k v ds = (case dsFault env (PutOp k) of Some e \<Rightarrow> (ds, Err e) | None \<Rightarrow> (ds(k \<mapsto> v), Ok ()))"

definition dsDelete :: "'b numEnv \<Rightarrow> string \<Rightarrow> ds \<Rightarrow> ds \<times> (string, unit) outcome" where
  "dsDelete env k ds = (case dsFault env (DeleteOp k) of Some e \<Rightarrow> (ds, Err e) | None \<Rightarrow> (ds(k := None), Ok ()))"

text \<open>\<open>xerrors.Errorf("...: %w", err)\<close>, and a write followed by the rest of the function.\<close>

definition wrapE :: "string \<Rightarrow> (string, 'a) outcome \<Rightarrow> (string, 'a) outcome" where
  "wrapE msg r = (case r of Err e \<Rightarrow> Err (msg @ '': '' @ e) | _ \<Rightarrow> r)"

definition wrapD :: "string \<Rightarrow> ds \<times> (string, 'a) outcome \<Rightarrow> ds \<times> (string, 'a) outcome" where
  "wrapD msg r = (fst r, wrapE msg (snd r))"

definition thenO :: "ds \<times> (string, 'a) outcome \<Rightarrow> (ds \<Rightarrow> 'a \<Rightarrow> ds \<times> (string, 'c) outcome) \<Rightarrow> ds \<times> (string, 'c) outcome" where
  "thenO r f = (case r of (ds, Ok a) \<Rightarrow> f ds a | (ds, Err e) \<Rightarrow> (ds, Err e) | (ds, Panic) \<Rightarrow> (ds, Panic))"

section \<open>Variable-length integers\<close>

text \<open>\<open>binary.PutUvarint\<close> and the value \<open>binary.Uvarint\<close> decodes, 0 when it cannot.\<close>

function putUvarint :: "nat \<Rightarrow> string" where
  "putUvarint x = (if x \<ge> 128 then char_of (x mod 128 + 128) # putUvarint (x div 128) else [char_of x])"
  by pat_completeness auto
termination by (relation "measure id") auto

declare putUvarint.simps [simp del]

fun uvarintLoop :: "nat \<Rightarrow> nat \<Rightarrow> nat \<Rightarrow> string \<Rightarrow> nat" where
  "uvarintLoop i x s [] = 0"
| "uvarintLoop i x s (c # cs) =
     (let b = of_char c :: nat in
      if i = 10 then 0
      else if b < 128 then (if i = 9 \<and> b > 1 then 0 else x + b * 2 ^ s)
      else uvarintLoop (i + 1) (x + (b mod 128) * 2 ^ s) (s + 7) cs)"

definition Uvarint :: "string \<Rightarrow> nat" where
  "Uvarint buf = uvarintLoop 0 0 0 buf"

section \<open>Keys and stored bitfields\<close>

definition StorageCounterDSPrefix :: string where "StorageCounterDSPrefix = ''/storage/nextid''"
definition SectorBitfieldsDSPrefix :: string where "SectorBitfieldsDSPrefix = ''/storage/sectorsids/''"
definition SectorReservationsDSPrefix :: string where "SectorReservationsDSPrefix = ''/storage/sectorsids/reserved/''"

definition allocatedSectorsKey :: "'b numEnv \<Rightarrow> string" where
  "allocatedSectorsKey env = newKey env (SectorBitfieldsDSPrefix @ ''allocated'')"

definition reservedSectorsKey :: "'b numEnv \<Rightarrow> string" where
  "reservedSectorsKey env = newKey env (SectorBitfieldsDSPrefix @ ''reserved'')"

definition counterKey :: "'b numEnv \<Rightarrow> string" where
  "counterKey env = newKey env StorageCounterDSPrefix"

definition loadBitField :: "'b numEnv \<Rightarrow> string \<Rightarrow> ds \<Rightarrow> (string, 'b option) outcome" where
  "loadBitField env name ds =
     bindO (dsGet env name ds) (\<lambda>raw. case raw of None \<Rightarrow> Ok None | Some s \<Rightarrow> bindO (bfUnmarshal env s) (\<lambda>b. Ok (Some b)))"

definition saveBitField :: "'b numEnv \<Rightarrow> string \<Rightarrow> 'b \<Rightarrow> ds \<Rightarrow> ds \<times> (string, unit) outcome" where
  "saveBitField env name bf ds = thenO (ds, bfMarshal env bf) (\<lambda>ds s. dsPut env name s ds)"

section \<open>The next number\<close>

record 'b NumAssignerMeta =
  Reserved :: 'b
  Allocated :: 'b
  InUse :: 'b
  Next :: nat

text \<open>The allocated numbers when only the counter of earlier versions is stored.\<close>

definition legacyAllocated :: "'b numEnv \<Rightarrow> ds \<Rightarrow> (string, 'b) outcome" where
  "legacyAllocated env ds =
     bindO (dsGet env (counterKey env) ds) (\<lambda>cur.
       let i = (case cur of None \<Rightarrow> 0 | Some bs \<Rightarrow> (Uvarint bs + 1) mod 2 ^ 64)
       in wrapE ''bitfield from iter'' (bfFromRuns env [(True, i)]))"

fun firstFreeLoop :: "(string, bool \<times> nat) outcome list \<Rightarrow> nat \<Rightarrow> (string, nat) outcome" where
  "firstFreeLoop [] firstFree = Ok firstFree"
| "firstFreeLoop (r # rs) firstFree =
     bindO (wrapE ''next run'' r) (\<lambda>(val, len).
       if \<not> val then Ok firstFree else firstFreeLoop rs ((firstFree + len) mod 2 ^ 64))"

definition numAssignerMetaLocked :: "'b numEnv \<Rightarrow> ds \<Rightarrow> (string, 'b NumAssignerMeta) outcome" where
  "numAssignerMetaLocked env ds =
     bindO (wrapE ''loading reserved sectors bitfield'' (loadBitField env (reservedSectorsKey env) ds)) (\<lambda>reserved0.
     bindO (wrapE ''loading allocated sectors bitfield'' (loadBitField env (allocatedSectorsKey env) ds)) (\<lambda>allocated0.
     bindO (case allocated0 of None \<Rightarrow> legacyAllocated env ds | Some b \<Rightarrow> Ok b) (\<lambda>allocated.
     let reserved = (case reserved0 of None \<Rightarrow> bfNew env | Some b \<Rightarrow> b) in
     bindO (wrapE ''merge reserved/allocated'' (bfMerge env reserved allocated)) (\<lambda>inuse0.
     bindO (wrapE ''getting state-allocated sector numbers'' (chainAllocated env)) (\<lambda>state.
     case state of
       None \<Rightarrow> Err ''getting state-allocated sector numbers: %!w(<nil>)''
     | Some stateAllocated \<Rightarrow>
         bindO (wrapE ''merge inuse/stateAllocated'' (bfMerge env inuse0 stateAllocated)) (\<lambda>inuse.
         bindO (wrapE ''inuse run iter'' (bfRuns env inuse)) (\<lambda>runs.
         bindO (firstFreeLoop runs 0) (\<lambda>firstFree.
           Ok \<lparr>Reserved = reserved, Allocated = allocated, InUse = inuse, Next = firstFree\<rparr>))))))))"

definition NextSectorNumber :: "'b numEnv \<Rightarrow> ds \<Rightarrow> ds \<times> (string, nat) outcome" where
  "NextSectorNumber env ds =
     thenO (ds, numAssignerMetaLocked env ds) (\<lambda>ds am.
     thenO (saveBitField env (allocatedSectorsKey env) (bfSet env (Next am) (Allocated am)) ds) (\<lambda>ds _.
     thenO (dsPut env (counterKey env) (putUvarint (Next am)) ds) (\<lambda>ds _.
       (ds, Ok (Next am)))))"

section \<open>Reservations\<close>

text \<open>A nonempty name of letters, digits, underscores and hyphens.\<close>

definition nameChar :: "char \<Rightarrow> bool" where
  "nameChar c \<longleftrightarrow> (let n = of_char c :: nat in
     97 \<le> n \<and> n \<le> 122 \<or> 65 \<le> n \<and> n \<le> 90 \<or> 48 \<le> n \<and> n \<le> 57 \<or> n = 95 \<or> n = 45)"

definition validName :: "string \<Rightarrow> bool" where
  "validName name \<longleftrightarrow> name \<noteq> [] \<and> list_all nameChar name"

definition reservationKey :: "'b numEnv \<Rightarrow> string \<Rightarrow> (string, string) outcome" where
  "reservationKey env name =
     (if validName name then Ok (keyWithNamespaces env [SectorReservationsDSPrefix, name])
      else Err ''reservation name contained disallowed characters (allowed: a-z, A-Z, 0-9, '-', '_')'')"

fun reservationsLoop :: "'b numEnv \<Rightarrow> (string, string \<times> string) outcome list \<Rightarrow> (string \<rightharpoonup> 'b) \<Rightarrow> (string, string \<rightharpoonup> 'b) outcome" where
  "reservationsLoop env [] out = Ok out"
| "reservationsLoop env (r # rs) out =
     (case r of
        Err e \<Rightarrow> Err ''res error: %!w(<nil>)''
      | Panic \<Rightarrow> Panic
      | Ok (k, v) \<Rightarrow>
          bindO (bfUnmarshal env v) (\<lambda>b. reservationsLoop env rs (out(baseNamespace env (newKey env k) \<mapsto> b))))"

definition NumReservations :: "'b numEnv \<Rightarrow> ds \<Rightarrow> (string, string \<rightharpoonup> 'b) outcome" where
  "NumReservations env ds =
     bindO (wrapE ''query reservations'' (dsQuery env ds SectorReservationsDSPrefix)) (\<lambda>res. reservationsLoop env res Map.empty)"

text \<open>The check of one collision, which \<open>force\<close> overrides.\<close>

definition checkCollision :: "'b numEnv \<Rightarrow> bool \<Rightarrow> string \<Rightarrow> 'b \<Rightarrow> 'b \<Rightarrow> (string, unit) outcome" where
  "checkCollision env force msg a b =
     bindO (wrapE ''intersect all / reserving'' (bfIntersect env a b)) (\<lambda>colliding.
     bindO (wrapE ''colliding.empty'' (bfIsEmpty env colliding)) (\<lambda>emp.
       if \<not> emp \<and> \<not> force then Err msg else Ok ()))"

definition currentReservation :: "'b numEnv \<Rightarrow> string \<Rightarrow> bool \<Rightarrow> ds \<Rightarrow> (string, 'b) outcome" where
  "currentReservation env rk force ds =
     bindO (wrapE ''checking if reservation exists'' (dsGet env rk ds)) (\<lambda>curRes.
       case curRes of
         None \<Rightarrow> Ok (bfNew env)
       | Some s \<Rightarrow>
           if \<not> force then Err ''reservation with this name already exists''
           else wrapE ''unmarshaling existing reservation'' (bfUnmarshal env s))"

definition numReserveLocked :: "'b numEnv \<Rightarrow> string \<Rightarrow> 'b \<Rightarrow> bool \<Rightarrow> ds \<Rightarrow> ds \<times> (string, unit) outcome" where
  "numReserveLocked env name reserving force ds =
     thenO (ds, reservationKey env name) (\<lambda>ds rk.
     thenO (ds, currentReservation env rk force ds) (\<lambda>ds cur.
     thenO (ds, numAssignerMetaLocked env ds) (\<lambda>ds nm.
     thenO (ds, wrapE ''allReserved - cur'' (bfSubtract env (Reserved nm) cur)) (\<lambda>ds allReserved.
     thenO (ds, checkCollision env force ''new reservation is colliding with another existing reservation'' allReserved reserving) (\<lambda>ds _.
     thenO (ds, checkCollision env force ''new reservation is colliding with allocated sector numbers'' (Allocated nm) reserving) (\<lambda>ds _.
     thenO (ds, wrapE ''merge allReserved+reserving'' (bfMerge env allReserved reserving)) (\<lambda>ds newReserved.
     thenO (wrapD ''saving reservation'' (saveBitField env rk reserving ds)) (\<lambda>ds _.
     wrapD ''save reserved nums'' (saveBitField env (reservedSectorsKey env) newReserved ds)))))))))"

definition NumReserve :: "'b numEnv \<Rightarrow> string \<Rightarrow> 'b \<Rightarrow> bool \<Rightarrow> ds \<Rightarrow> ds \<times> (string, unit) outcome" where
  "NumReserve env name reserving force ds = numReserveLocked env name reserving force ds"

definition NumReserveCount :: "'b numEnv \<Rightarrow> string \<Rightarrow> nat \<Rightarrow> ds \<Rightarrow> ds \<times> (string, 'b) outcome" where
  "NumReserveCount env name cnt ds =
     thenO (ds, numAssignerMetaLocked env ds) (\<lambda>ds nm.
     thenO (ds, bfCount env (InUse nm)) (\<lambda>ds usedCount.
     thenO (ds, bfFromRuns env [(True, (cnt + usedCount) mod 2 ^ 64)]) (\<lambda>ds mask.
     thenO (ds, bfSubtract env mask (InUse nm)) (\<lambda>ds free0.
     thenO (ds, bfSlice env free0 0 cnt) (\<lambda>ds free.
     thenO (numReserveLocked env name free False ds) (\<lambda>ds _. (ds, Ok free)))))))"

definition NumFree :: "'b numEnv \<Rightarrow> string \<Rightarrow> ds \<Rightarrow> ds \<times> (string, unit) outcome" where
  "NumFree env name ds =
     thenO (ds, reservationKey env name) (\<lambda>ds rk.
     thenO (ds, wrapE ''loading reservation'' (loadBitField env rk ds)) (\<lambda>ds res0.
     case res0 of
       None \<Rightarrow> (ds, Err ''reservation with this name doesn't exist'')
     | Some res \<Rightarrow>
         thenO (ds, wrapE ''leading all reservations'' (loadBitField env (reservedSectorsKey env) ds)) (\<lambda>ds all0.
         case all0 of
           None \<Rightarrow> (ds, Err ''all reservations bitfield not found'')
         | Some allRes \<Rightarrow>
             thenO (ds, wrapE ''allRes-res'' (bfSubtract env allRes res)) (\<lambda>ds newAll.
             thenO (wrapD ''saving reservations bitfield'' (saveBitField env (reservedSectorsKey env) newAll ds)) (\<lambda>ds _.
             wrapD ''deleting reservation'' (dsDelete env rk ds))))))"

section \<open>What is documented of the libraries\<close>

fun runsBits :: "nat \<Rightarrow> (bool \<times> nat) list \<Rightarrow> nat set" where
  "runsBits off [] = {}"
| "runsBits off ((val, n) # rs) = (if val then {off..<off + n} else {}) \<union> runsBits (off + n) rs"

text \<open>
  A bitfield stands for the set \<open>bits\<close> of its numbers. Its runs, none of them empty and all
  below \<open>2 ^ 64\<close>, describe that set; taking the next run may fail.
\<close>

definition runs_law :: "'b numEnv \<Rightarrow> ('b \<Rightarrow> nat set) \<Rightarrow> bool" where
  "runs_law env bits \<longleftrightarrow>
     (\<forall>a rs. bfRuns env a = Ok rs \<longrightarrow>
       (\<exists>xs. list_all2 (\<lambda>r x. \<forall>y. r = Ok y \<longrightarrow> y = x) rs xs \<and> bits a = runsBits 0 xs \<and>
         (\<forall>x\<in>set xs. 0 < snd x) \<and> sum_list (map snd xs) < 2 ^ 64))"

definition bitfield_laws :: "'b numEnv \<Rightarrow> ('b \<Rightarrow> nat set) \<Rightarrow> bool" where
  "bitfield_laws env bits \<longleftrightarrow>
     bits (bfNew env) = {} \<and> (\<forall>i b. bits (bfSet env i b) = insert i (bits b)) \<and>
     (\<forall>a b c. bfMerge env a b = Ok c \<longrightarrow> bits c = bits a \<union> bits b) \<and>
     (\<forall>a b c. bfSubtract env a b = Ok c \<longrightarrow> bits c = bits a - bits b) \<and>
     (\<forall>a b c. bfIntersect env a b = Ok c \<longrightarrow> bits c = bits a \<inter> bits b) \<and>
     (\<forall>a e. bfIsEmpty env a = Ok e \<longrightarrow> (e \<longleftrightarrow> bits a = {})) \<and>
     (\<forall>a n c. bfSlice env a 0 n = Ok c \<longrightarrow>
        finite (bits a) \<and> n \<le> card (bits a) \<and> bits c = set (take n (sorted_list_of_set (bits a)))) \<and>
     (\<forall>n c. bfFromRuns env [(True, n)] = Ok c \<longrightarrow> bits c = {0..<n}) \<and>
     (\<forall>b s. bfMarshal env b = Ok s \<longrightarrow> (\<exists>c. bfUnmarshal env s = Ok c \<and> bits c = bits b)) \<and>
     runs_law env bits"

definition rkOf :: "'b numEnv \<Rightarrow> string \<Rightarrow> string" where
  "rkOf env name = keyWithNamespaces env [SectorReservationsDSPrefix, name]"

definition keys_apart :: "'b numEnv \<Rightarrow> bool" where
  "keys_apart env \<longleftrightarrow>
     distinct [allocatedSectorsKey env, reservedSectorsKey env, counterKey env] \<and>
     inj_on (rkOf env) {name. validName name} \<and>
     (\<forall>name. validName name \<longrightarrow> rkOf env name \<notin> {allocatedSectorsKey env, reservedSectorsKey env, counterKey env})"

section \<open>The sets of numbers in the datastore\<close>

definition stored :: "'b numEnv \<Rightarrow> ('b \<Rightarrow> nat set) \<Rightarrow> ds \<Rightarrow> string \<Rightarrow> nat set" where
  "stored env bits ds k =
     (case ds k of None \<Rightarrow> {} | Some s \<Rightarrow> (case bfUnmarshal env s of Ok b \<Rightarrow> bits b | _ \<Rightarrow> {}))"

definition reservedNums :: "'b numEnv \<Rightarrow> ('b \<Rightarrow> nat set) \<Rightarrow> ds \<Rightarrow> nat set" where
  "reservedNums env bits ds = stored env bits ds (reservedSectorsKey env)"

definition allocatedNums :: "'b numEnv \<Rightarrow> ('b \<Rightarrow> nat set) \<Rightarrow> ds \<Rightarrow> nat set" where
  "allocatedNums env bits ds =
     (if ds (allocatedSectorsKey env) \<noteq> None then stored env bits ds (allocatedSectorsKey env)
      else case ds (counterKey env) of None \<Rightarrow> {} | Some s \<Rightarrow> {0..<(Uvarint s + 1) mod 2 ^ 64})"

definition chainNums :: "'b numEnv \<Rightarrow> ('b \<Rightarrow> nat set) \<Rightarrow> nat set" where
  "chainNums env bits = (case chainAllocated env of Ok (Some b) \<Rightarrow> bits b | _ \<Rightarrow> {})"

definition inUseNums :: "'b numEnv \<Rightarrow> ('b \<Rightarrow> nat set) \<Rightarrow> ds \<Rightarrow> nat set" where
  "inUseNums env bits ds = reservedNums env bits ds \<union> allocatedNums env bits ds \<union> chainNums env bits"

section \<open>Lemmas\<close>

lemma bitfield_lawsD:
  assumes "bitfield_laws env bits"
  shows "bits (bfNew env) = {}" "bits (bfSet env i b) = insert i (bits b)"
    "bfMerge env a b = Ok c \<Longrightarrow> bits c = bits a \<union> bits b"
    "bfSubtract env a b = Ok c \<Longrightarrow> bits c = bits a - bits b"
    "bfIntersect env a b = Ok c \<Longrightarrow> bits c = bits a \<inter> bits b"
    "bfIsEmpty env a = Ok e \<Longrightarrow> e \<longleftrightarrow> bits a = {}"
    "bfSlice env a 0 n = Ok c \<Longrightarrow> finite (bits a) \<and> n \<le> card (bits a) \<and> bits c = set (take n (sorted_list_of_set (bits a)))"
    "bfFromRuns env [(True, n)] = Ok c \<Longrightarrow> bits c = {0..<n}"
    "bfMarshal env b = Ok s \<Longrightarrow> \<exists>c. bfUnmarshal env s = Ok c \<and> bits c = bits b"
    "runs_law env bits"
proof -
  note l = assms [unfolded bitfield_laws_def]
  have "\<forall>a e. bfIsEmpty env a = Ok e \<longrightarrow> (e \<longleftrightarrow> bits a = {})" using l by (elim conjE) assumption
  then show "bfIsEmpty env a = Ok e \<Longrightarrow> e \<longleftrightarrow> bits a = {}" by iprover
  show "bits (bfNew env) = {}" "bits (bfSet env i b) = insert i (bits b)" "runs_law env bits" using l by iprover+
  show "bfMerge env a b = Ok c \<Longrightarrow> bits c = bits a \<union> bits b" using l by iprover
  show "bfSubtract env a b = Ok c \<Longrightarrow> bits c = bits a - bits b" using l by iprover
  show "bfIntersect env a b = Ok c \<Longrightarrow> bits c = bits a \<inter> bits b" using l by iprover
  show "bfSlice env a 0 n = Ok c \<Longrightarrow> finite (bits a) \<and> n \<le> card (bits a) \<and> bits c = set (take n (sorted_list_of_set (bits a)))"
    using l by iprover
  show "bfFromRuns env [(True, n)] = Ok c \<Longrightarrow> bits c = {0..<n}" using l by iprover
  show "bfMarshal env b = Ok s \<Longrightarrow> \<exists>c. bfUnmarshal env s = Ok c \<and> bits c = bits b" using l by iprover
qed

lemma wrapE_Ok [simp]: "wrapE msg r = Ok a \<longleftrightarrow> r = Ok a"
  by (cases r) (simp_all add: wrapE_def)

lemma wrapD_Ok [simp]: "wrapD msg r = (ds', Ok a) \<longleftrightarrow> r = (ds', Ok a)"
  by (cases r) (simp add: wrapD_def)

lemma thenO_Ok [simp]: "thenO r f = (ds', Ok c) \<longleftrightarrow> (\<exists>ds a. r = (ds, Ok a) \<and> f ds a = (ds', Ok c))"
  by (auto simp: thenO_def split: prod.splits outcome.splits)

lemma dsGet_Ok: "dsGet env k ds = Ok r \<Longrightarrow> r = ds k"
  by (auto simp: dsGet_def split: option.splits)

lemma dsPut_Ok: "dsPut env k v ds = (ds', Ok u) \<Longrightarrow> ds' = ds(k \<mapsto> v)"
  by (auto simp: dsPut_def split: option.splits)

lemma dsDelete_Ok: "dsDelete env k ds = (ds', Ok u) \<Longrightarrow> ds' = ds(k := None)"
  by (auto simp: dsDelete_def split: option.splits)

lemma saveBitField_Ok:
  assumes "saveBitField env k b ds = (ds', Ok u)"
  obtains s where "bfMarshal env b = Ok s" "ds' = ds(k \<mapsto> s)"
  using assms by (auto simp: saveBitField_def dest: dsPut_Ok)

lemma loadBitField_Ok:
  "loadBitField env k ds = Ok r \<Longrightarrow> (case r of None \<Rightarrow> ds k = None | Some b \<Rightarrow> \<exists>s. ds k = Some s \<and> bfUnmarshal env s = Ok b)"
  by (auto simp: loadBitField_def dsGet_def bindO_eq_Ok split: option.splits)

lemma loadBitField_stored:
  "loadBitField env k ds = Ok r \<Longrightarrow> stored env bits ds k = (case r of None \<Rightarrow> {} | Some b \<Rightarrow> bits b)"
  by (cases r) (auto dest!: loadBitField_Ok simp: stored_def)

lemma stored_upd_other [simp]: "k \<noteq> k' \<Longrightarrow> stored env bits (ds(k := v)) k' = stored env bits ds k'"
  by (simp add: stored_def)

lemma stored_delete [simp]: "stored env bits (ds(k := None)) k = {}"
  by (simp add: stored_def)

lemma stored_save:
  "bitfield_laws env bits \<Longrightarrow> bfMarshal env b = Ok s \<Longrightarrow> stored env bits (ds(k \<mapsto> s)) k = bits b"
proof -
  assume laws: "bitfield_laws env bits" and "bfMarshal env b = Ok s"
  from bitfield_lawsD(9) [OF this] obtain c where "bfUnmarshal env s = Ok c" "bits c = bits b" by blast
  then show ?thesis by (simp add: stored_def)
qed

lemma uvarintLoop_put:
  "i \<le> 9 \<Longrightarrow> x < 2 ^ (64 - 7 * i) \<Longrightarrow> uvarintLoop i acc s (putUvarint x) = acc + x * 2 ^ s"
proof (induction x arbitrary: i acc s rule: less_induct)
  case (less x)
  show ?case
  proof (cases "x \<ge> 128")
    case True
    have "i \<noteq> 9" using less.prems(2) True by auto
    with less.prems(1) have i: "i \<le> 8" by simp
    then have "64 - 7 * i = 7 + (64 - 7 * Suc i)" by simp
    with less.prems(2) have "x < 128 * 2 ^ (64 - 7 * Suc i)" by (simp only: power_add) simp
    then have "x div 128 < 2 ^ (64 - 7 * Suc i)" by (simp add: less_mult_imp_div_less mult.commute)
    then have "uvarintLoop (Suc i) (acc + (x mod 128) * 2 ^ s) (s + 7) (putUvarint (x div 128))
        = acc + (x mod 128) * 2 ^ s + (x div 128) * 2 ^ (s + 7)"
      using less.IH [of "x div 128" "Suc i"] i True by simp
    also have "\<dots> = acc + (x mod 128 + 128 * (x div 128)) * 2 ^ s" by (simp only: power_add add_mult_distrib) simp
    also have "\<dots> = acc + x * 2 ^ s" by (simp only: mod_mult_div_eq)
    finally show ?thesis using True i by (subst putUvarint.simps) (simp add: Let_def)
  next
    case False
    have "x < 2" if "i = 9" using less.prems(2) that by simp
    with False less.prems(1) show ?thesis by (subst putUvarint.simps) (auto simp: Let_def)
  qed
qed

lemma Uvarint_putUvarint: "n < 2 ^ 64 \<Longrightarrow> Uvarint (putUvarint n) = n"
  by (simp add: Uvarint_def uvarintLoop_put)

lemma runsBits_ge: "m \<in> runsBits off xs \<Longrightarrow> off \<le> m"
  by (induction off xs rule: runsBits.induct) (auto split: if_splits)

lemma firstFreeLoop_least:
  assumes "list_all2 (\<lambda>r x. \<forall>y. r = Ok y \<longrightarrow> y = x) rs xs" "\<forall>x\<in>set xs. 0 < snd x" "off + sum_list (map snd xs) < 2 ^ 64"
    "firstFreeLoop rs off = Ok n"
  shows "off \<le> n \<and> n \<notin> runsBits off xs \<and> {off..<n} \<subseteq> runsBits off xs"
  using assms
proof (induction rs xs arbitrary: off rule: list_all2_induct)
  case (Cons r rs x xs)
  obtain val len where x: "x = (val, len)" by (cases x)
  with Cons.prems(3) Cons.hyps(1) have r: "r = Ok (val, len)" by (auto simp: bindO_eq_Ok)
  show ?case
  proof (cases val)
    case True
    with Cons.prems r x have "firstFreeLoop rs (off + len) = Ok n" by (simp add: bindO_eq_Ok)
    with Cons.IH [of "off + len"] Cons.prems x have "off + len \<le> n" "n \<notin> runsBits (off + len) xs" "{off + len..<n} \<subseteq> runsBits (off + len) xs"
      by auto
    moreover have "{off..<n} \<subseteq> {off..<off + len} \<union> {off + len..<n}" by auto
    ultimately show ?thesis using True x by auto
  next
    case False
    with Cons.prems r x have "n = off" "0 < len" by (simp_all add: bindO_eq_Ok)
    then show ?thesis using False x runsBits_ge [of off "off + len" xs] by auto
  qed
qed simp

lemma runsBits_finite: "finite (runsBits off xs)"
  by (induction off xs rule: runsBits.induct) auto

text \<open>What the metadata says: the sets of numbers, and the least number that is in none of them.\<close>

lemma legacyAllocated_bits:
  assumes "bitfield_laws env bits" "legacyAllocated env ds = Ok b" "ds (allocatedSectorsKey env) = None"
  shows "bits b = allocatedNums env bits ds"
proof -
  from assms(2) obtain cur where "cur = ds (counterKey env)"
    "bfFromRuns env [(True, case cur of None \<Rightarrow> 0 | Some bs \<Rightarrow> (Uvarint bs + 1) mod 2 ^ 64)] = Ok b"
    by (auto simp: legacyAllocated_def bindO_eq_Ok Let_def dest: dsGet_Ok)
  with bitfield_lawsD(8) [OF assms(1) this(2)] assms(3) show ?thesis
    by (cases "ds (counterKey env)") (simp_all add: allocatedNums_def)
qed

lemma next_free:
  assumes "bitfield_laws env bits" "bfRuns env b = Ok runs" "firstFreeLoop runs 0 = Ok n"
  shows "n \<notin> bits b \<and> {0..<n} \<subseteq> bits b \<and> finite (bits b)"
proof -
  from bitfield_lawsD(10) [OF assms(1)] assms(2) obtain xs where
    "list_all2 (\<lambda>r x. \<forall>y. r = Ok y \<longrightarrow> y = x) runs xs" "bits b = runsBits 0 xs" "\<forall>x\<in>set xs. 0 < snd x" "sum_list (map snd xs) < 2 ^ 64"
    unfolding runs_law_def by blast
  with firstFreeLoop_least [OF this(1,3), of 0 n] assms(3) show ?thesis by (simp add: runsBits_finite)
qed

lemma meta_spec:
  assumes laws: "bitfield_laws env bits" and meta: "numAssignerMetaLocked env ds = Ok am"
  shows "bits (Reserved am) = reservedNums env bits ds" "bits (Allocated am) = allocatedNums env bits ds"
    "bits (InUse am) = inUseNums env bits ds" "finite (inUseNums env bits ds)"
    "Next am \<notin> inUseNums env bits ds" "{0..<Next am} \<subseteq> inUseNums env bits ds"
proof -
  from meta obtain reserved0 allocated0 allocated inuse0 state0 where
    res: "loadBitField env (reservedSectorsKey env) ds = Ok reserved0" and
    al: "loadBitField env (allocatedSectorsKey env) ds = Ok allocated0"
      "(case allocated0 of None \<Rightarrow> legacyAllocated env ds | Some b \<Rightarrow> Ok b) = Ok allocated" and
    use1: "bfMerge env (case reserved0 of None \<Rightarrow> bfNew env | Some b \<Rightarrow> b) allocated = Ok inuse0" and
    chain: "chainAllocated env = Ok state0" and
    state: "(case state0 of
       None \<Rightarrow> Err ''getting state-allocated sector numbers: %!w(<nil>)''
     | Some stateAllocated \<Rightarrow>
         bindO (wrapE ''merge inuse/stateAllocated'' (bfMerge env inuse0 stateAllocated)) (\<lambda>inuse.
         bindO (wrapE ''inuse run iter'' (bfRuns env inuse)) (\<lambda>runs.
         bindO (firstFreeLoop runs 0) (\<lambda>firstFree.
           Ok \<lparr>Reserved = case reserved0 of None \<Rightarrow> bfNew env | Some b \<Rightarrow> b, Allocated = allocated, InUse = inuse, Next = firstFree\<rparr>)))) = Ok am"
    by (simp only: numAssignerMetaLocked_def bindO_eq_Ok Let_def wrapE_Ok) (elim exE conjE, rule that; assumption)
  from state obtain st runs where st: "state0 = Some st" and use2: "bfMerge env inuse0 st = Ok (InUse am)" and
    nxt: "bfRuns env (InUse am) = Ok runs" "firstFreeLoop runs 0 = Ok (Next am)" and
    parts: "Reserved am = (case reserved0 of None \<Rightarrow> bfNew env | Some b \<Rightarrow> b)" "Allocated am = allocated"
    by (cases state0) (auto simp: bindO_eq_Ok)
  show r: "bits (Reserved am) = reservedNums env bits ds"
    unfolding reservedNums_def loadBitField_stored [OF res] parts(1) by (cases reserved0) (simp_all add: bitfield_lawsD(1) [OF laws])
  show a: "bits (Allocated am) = allocatedNums env bits ds"
  proof (cases allocated0)
    case None
    then have "legacyAllocated env ds = Ok allocated" "ds (allocatedSectorsKey env) = None" using loadBitField_Ok [OF al(1)] al(2) by simp_all
    from legacyAllocated_bits [OF laws this] show ?thesis by (simp only: parts(2))
  next
    case (Some b)
    then have "ds (allocatedSectorsKey env) \<noteq> None" "allocated = b" using loadBitField_Ok [OF al(1)] al(2) by auto
    moreover have "stored env bits ds (allocatedSectorsKey env) = bits b" using loadBitField_stored [OF al(1), of bits] Some by simp
    ultimately show ?thesis by (simp add: allocatedNums_def parts(2))
  qed
  show u: "bits (InUse am) = inUseNums env bits ds"
    using bitfield_lawsD(3) [OF laws use1] bitfield_lawsD(3) [OF laws use2]
    by (simp add: inUseNums_def chainNums_def chain st flip: r a parts)
  from next_free [OF laws nxt] show "finite (inUseNums env bits ds)" "Next am \<notin> inUseNums env bits ds" "{0..<Next am} \<subseteq> inUseNums env bits ds"
    unfolding u by auto
qed

text \<open>What each operation leaves in the datastore when it succeeds.\<close>

lemma NextSectorNumber_Ok:
  assumes "NextSectorNumber env ds = (ds', Ok n)"
  obtains am s where "numAssignerMetaLocked env ds = Ok am" "n = Next am" "bfMarshal env (bfSet env n (Allocated am)) = Ok s"
    "ds' = ds(allocatedSectorsKey env \<mapsto> s, counterKey env \<mapsto> putUvarint n)"
  using assms by (auto simp: NextSectorNumber_def elim!: saveBitField_Ok dest!: dsPut_Ok)

lemma checkCollision_Ok:
  assumes "bitfield_laws env bits" "checkCollision env False msg a b = Ok u"
  shows "bits a \<inter> bits b = {}"
proof -
  from assms(2) obtain c where "bfIntersect env a b = Ok c" "bfIsEmpty env c = Ok True"
    by (auto simp: checkCollision_def bindO_eq_Ok split: if_splits)
  with bitfield_lawsD(5) [OF assms(1) this(1)] bitfield_lawsD(6) [OF assms(1) this(2)] show ?thesis by simp
qed

lemma numReserveLocked_Ok:
  assumes laws: "bitfield_laws env bits" and ok: "numReserveLocked env name reserving False ds = (ds', Ok u)"
  obtains s s' where "validName name" "ds (rkOf env name) = None"
    "bits reserving \<inter> reservedNums env bits ds = {}" "bits reserving \<inter> allocatedNums env bits ds = {}"
    "ds' = ds(rkOf env name \<mapsto> s, reservedSectorsKey env \<mapsto> s')"
    "bfMarshal env reserving = Ok s" "\<exists>b. bfMarshal env b = Ok s' \<and> bits b = reservedNums env bits ds \<union> bits reserving"
proof -
  from ok obtain nm rest s s' new where
    v: "validName name" "ds (rkOf env name) = None" and nm: "numAssignerMetaLocked env ds = Ok nm" and
    sub: "bfSubtract env (Reserved nm) (bfNew env) = Ok rest" and
    c: "checkCollision env False ''new reservation is colliding with another existing reservation'' rest reserving = Ok ()"
      "checkCollision env False ''new reservation is colliding with allocated sector numbers'' (Allocated nm) reserving = Ok ()" and
    m: "bfMerge env rest reserving = Ok new" and
    s: "bfMarshal env reserving = Ok s" "bfMarshal env new = Ok s'" "ds' = ds(rkOf env name \<mapsto> s, reservedSectorsKey env \<mapsto> s')"
    by (auto simp: numReserveLocked_def reservationKey_def currentReservation_def rkOf_def bindO_eq_Ok
        elim!: saveBitField_Ok dest!: dsGet_Ok split: if_splits option.splits prod.splits)
  have rest: "bits rest = reservedNums env bits ds"
    using bitfield_lawsD(4) [OF laws sub] bitfield_lawsD(1) [OF laws] meta_spec(1) [OF laws nm] by simp
  have "bits new = reservedNums env bits ds \<union> bits reserving" using bitfield_lawsD(3) [OF laws m] rest by simp
  with that v s checkCollision_Ok [OF laws c(1)] checkCollision_Ok [OF laws c(2)] rest meta_spec(2) [OF laws nm] show ?thesis
    by (metis Int_commute)
qed

lemma NumFree_Ok:
  assumes laws: "bitfield_laws env bits" and ok: "NumFree env name ds = (ds', Ok u)"
  obtains s' where "validName name" "ds' = ds(reservedSectorsKey env \<mapsto> s', rkOf env name := None)"
    "\<exists>b. bfMarshal env b = Ok s' \<and> bits b = reservedNums env bits ds - stored env bits ds (rkOf env name)"
proof -
  from ok obtain res allRes newAll s' where
    v: "validName name" and r: "loadBitField env (rkOf env name) ds = Ok (Some res)" and
    a: "loadBitField env (reservedSectorsKey env) ds = Ok (Some allRes)" and
    sub: "bfSubtract env allRes res = Ok newAll" and
    s: "bfMarshal env newAll = Ok s'" "ds' = ds(reservedSectorsKey env \<mapsto> s', rkOf env name := None)"
    by (auto simp: NumFree_def reservationKey_def rkOf_def
        elim!: saveBitField_Ok dest!: dsDelete_Ok split: if_splits option.splits prod.splits)
  have "bits newAll = reservedNums env bits ds - stored env bits ds (rkOf env name)"
    using bitfield_lawsD(4) [OF laws sub] loadBitField_stored [OF r, of bits] loadBitField_stored [OF a, of bits]
    by (simp add: reservedNums_def)
  with that v s show ?thesis by blast
qed

section \<open>The invariant of the reservations\<close>

text \<open>
  The reserved numbers are those of the named reservations, no number is reserved under two
  names, and no reserved number is allocated.
\<close>

definition resInv :: "'b numEnv \<Rightarrow> ('b \<Rightarrow> nat set) \<Rightarrow> ds \<Rightarrow> bool" where
  "resInv env bits ds \<longleftrightarrow>
     reservedNums env bits ds = (\<Union>name\<in>{name. validName name}. stored env bits ds (rkOf env name)) \<and>
     (\<forall>n1 n2. validName n1 \<longrightarrow> validName n2 \<longrightarrow> n1 \<noteq> n2 \<longrightarrow>
        stored env bits ds (rkOf env n1) \<inter> stored env bits ds (rkOf env n2) = {}) \<and>
     reservedNums env bits ds \<inter> allocatedNums env bits ds = {}"

inductive numStep :: "'b numEnv \<Rightarrow> ds \<Rightarrow> ds \<Rightarrow> bool" for env where
  next_number: "NextSectorNumber env ds = (ds', Ok n) \<Longrightarrow> numStep env ds ds'"
| reserve: "NumReserve env name reserving False ds = (ds', Ok ()) \<Longrightarrow> numStep env ds ds'"
| reserve_count: "NumReserveCount env name cnt ds = (ds', Ok free) \<Longrightarrow> numStep env ds ds'"
| release: "NumFree env name ds = (ds', Ok ()) \<Longrightarrow> numStep env ds ds'"

lemma keys_apartD:
  assumes "keys_apart env"
  shows "allocatedSectorsKey env \<noteq> reservedSectorsKey env" "allocatedSectorsKey env \<noteq> counterKey env" "reservedSectorsKey env \<noteq> counterKey env"
    "validName name \<Longrightarrow> rkOf env name \<noteq> allocatedSectorsKey env" "validName name \<Longrightarrow> rkOf env name \<noteq> reservedSectorsKey env"
    "validName name \<Longrightarrow> rkOf env name \<noteq> counterKey env"
    "validName name \<Longrightarrow> validName name' \<Longrightarrow> rkOf env name = rkOf env name' \<longleftrightarrow> name = name'"
  using assms by (auto simp: keys_apart_def inj_on_def)

lemma allocated_next:
  assumes "bitfield_laws env bits" "keys_apart env" "numAssignerMetaLocked env ds = Ok am"
    "bfMarshal env (bfSet env n (Allocated am)) = Ok s"
  shows "allocatedNums env bits (ds(allocatedSectorsKey env \<mapsto> s, counterKey env \<mapsto> c)) = insert n (allocatedNums env bits ds)"
proof -
  have "stored env bits (ds(allocatedSectorsKey env \<mapsto> s, counterKey env \<mapsto> c)) (allocatedSectorsKey env) = bits (bfSet env n (Allocated am))"
    using stored_save [OF assms(1,4)] keys_apartD(2) [OF assms(2)] by simp
  then show ?thesis
    using bitfield_lawsD(2) [OF assms(1)] meta_spec(2) [OF assms(1,3)] keys_apartD(2) [OF assms(2)] by (simp add: allocatedNums_def)
qed

lemma next_keeps:
  assumes laws: "bitfield_laws env bits" and keys: "keys_apart env" and inv: "resInv env bits ds"
    and ok: "NextSectorNumber env ds = (ds', Ok n)"
  shows "resInv env bits ds'"
proof -
  obtain am s where am: "numAssignerMetaLocked env ds = Ok am" "n = Next am" "bfMarshal env (bfSet env n (Allocated am)) = Ok s"
    and ds': "ds' = ds(allocatedSectorsKey env \<mapsto> s, counterKey env \<mapsto> putUvarint n)"
    using NextSectorNumber_Ok [OF ok] .
  have "reservedNums env bits ds' = reservedNums env bits ds"
    using keys_apartD(1,3) [OF keys] by (simp add: ds' reservedNums_def)
  moreover have "stored env bits ds' (rkOf env name) = stored env bits ds (rkOf env name)" if "validName name" for name
    using keys_apartD(4,6) [OF keys that] by (simp add: ds')
  moreover have "allocatedNums env bits ds' = insert n (allocatedNums env bits ds)"
    unfolding ds' by (rule allocated_next [OF laws keys am(1,3)])
  moreover have "n \<notin> reservedNums env bits ds" using meta_spec(5) [OF laws am(1)] am(2) by (simp add: inUseNums_def)
  ultimately show ?thesis using inv unfolding resInv_def by (elim conjE) simp
qed

lemma reserve_keeps:
  assumes laws: "bitfield_laws env bits" and keys: "keys_apart env" and inv: "resInv env bits ds"
    and ok: "numReserveLocked env name reserving False ds = (ds', Ok u)"
  shows "resInv env bits ds'"
    "reservedNums env bits ds' = reservedNums env bits ds \<union> bits reserving"
    "stored env bits ds' (rkOf env name) = bits reserving"
proof -
  obtain s s' where v: "validName name" "ds (rkOf env name) = None"
    and apart: "bits reserving \<inter> reservedNums env bits ds = {}" "bits reserving \<inter> allocatedNums env bits ds = {}"
    and ds': "ds' = ds(rkOf env name \<mapsto> s, reservedSectorsKey env \<mapsto> s')"
    and m: "bfMarshal env reserving = Ok s" "\<exists>b. bfMarshal env b = Ok s' \<and> bits b = reservedNums env bits ds \<union> bits reserving"
    using numReserveLocked_Ok [OF laws ok] .
  note k = keys_apartD [OF keys]
  show res: "reservedNums env bits ds' = reservedNums env bits ds \<union> bits reserving"
    using m(2) stored_save [OF laws] by (auto simp: ds' reservedNums_def)
  show own: "stored env bits ds' (rkOf env name) = bits reserving"
    using stored_save [OF laws m(1)] k(5) [OF v(1)] by (simp add: ds')
  have other: "stored env bits ds' (rkOf env n2) = stored env bits ds (rkOf env n2)" if "validName n2" "n2 \<noteq> name" for n2
    using k(5) [OF that(1)] k(7) [OF v(1) that(1)] that(2) by (simp add: ds')
  have none: "stored env bits ds (rkOf env name) = {}" using v(2) by (simp add: stored_def)
  have al: "allocatedNums env bits ds' = allocatedNums env bits ds"
    using k(1,3) k(4,6) [OF v(1)] by (simp add: ds' allocatedNums_def)
  have st: "stored env bits ds' (rkOf env n2) = (if n2 = name then bits reserving else stored env bits ds (rkOf env n2))"
    if "validName n2" for n2 using own other that by auto
  have sub: "stored env bits ds (rkOf env n2) \<subseteq> reservedNums env bits ds" if "validName n2" for n2
    using inv that unfolding resInv_def by blast
  show "resInv env bits ds'"
    unfolding resInv_def
  proof (intro conjI allI impI)
    show "reservedNums env bits ds' = (\<Union>name\<in>{name. validName name}. stored env bits ds' (rkOf env name))"
      using inv v(1) none by (auto simp: res resInv_def st split: if_splits)
    show "stored env bits ds' (rkOf env n1) \<inter> stored env bits ds' (rkOf env n2) = {}" if "validName n1" "validName n2" "n1 \<noteq> n2" for n1 n2
    proof -
      have "stored env bits ds (rkOf env n1) \<inter> stored env bits ds (rkOf env n2) = {}" using inv that unfolding resInv_def by blast
      with st [OF that(1)] st [OF that(2)] sub [OF that(1)] sub [OF that(2)] apart(1) that(3) show ?thesis by auto
    qed
    have "reservedNums env bits ds \<inter> allocatedNums env bits ds = {}" using inv unfolding resInv_def by blast
    then show "reservedNums env bits ds' \<inter> allocatedNums env bits ds' = {}" using apart(2) by (auto simp: res al)
  qed
qed

lemma free_keeps:
  assumes laws: "bitfield_laws env bits" and keys: "keys_apart env" and inv: "resInv env bits ds"
    and ok: "NumFree env name ds = (ds', Ok u)"
  shows "resInv env bits ds'"
proof -
  obtain s' where v: "validName name" and ds': "ds' = ds(reservedSectorsKey env \<mapsto> s', rkOf env name := None)"
    and m: "\<exists>b. bfMarshal env b = Ok s' \<and> bits b = reservedNums env bits ds - stored env bits ds (rkOf env name)"
    using NumFree_Ok [OF laws ok] .
  note k = keys_apartD [OF keys]
  have res: "reservedNums env bits ds' = reservedNums env bits ds - stored env bits ds (rkOf env name)"
    using m stored_save [OF laws] k(5) [OF v] by (auto simp: ds' reservedNums_def)
  have st: "stored env bits ds' (rkOf env n2) = (if n2 = name then {} else stored env bits ds (rkOf env n2))" if "validName n2" for n2
    using k(5) [OF that] k(7) [OF v that] by (simp add: ds')
  have al: "allocatedNums env bits ds' = allocatedNums env bits ds"
    using k(1,3) k(4,6) [OF v] by (simp add: ds' allocatedNums_def)
  have apart: "stored env bits ds (rkOf env n1) \<inter> stored env bits ds (rkOf env n2) = {}" if "validName n1" "validName n2" "n1 \<noteq> n2" for n1 n2
    using inv that unfolding resInv_def by blast
  show ?thesis
    unfolding resInv_def
  proof (intro conjI allI impI)
    show "reservedNums env bits ds' = (\<Union>name\<in>{name. validName name}. stored env bits ds' (rkOf env name))"
      using inv v apart [OF v] unfolding res by (auto simp: resInv_def st split: if_splits)
    show "stored env bits ds' (rkOf env n1) \<inter> stored env bits ds' (rkOf env n2) = {}" if "validName n1" "validName n2" "n1 \<noteq> n2" for n1 n2
      using apart [OF that] st [OF that(1)] st [OF that(2)] by simp
    have "reservedNums env bits ds \<inter> allocatedNums env bits ds = {}" using inv unfolding resInv_def by blast
    then show "reservedNums env bits ds' \<inter> allocatedNums env bits ds' = {}" by (auto simp: res al)
  qed
qed

lemma reserve_count_Ok:
  assumes "NumReserveCount env name cnt ds = (ds', Ok free)"
  obtains nm used mask free0 where "numAssignerMetaLocked env ds = Ok nm" "bfFromRuns env [(True, (cnt + used) mod 2 ^ 64)] = Ok mask"
    "bfSubtract env mask (InUse nm) = Ok free0" "bfSlice env free0 0 cnt = Ok free" "numReserveLocked env name free False ds = (ds', Ok ())"
  using assms by (auto simp: NumReserveCount_def)

lemma numStep_keeps:
  assumes "bitfield_laws env bits" "keys_apart env" "numStep env ds ds'" "resInv env bits ds"
  shows "resInv env bits ds'"
  using assms(3)
proof cases
  case (next_number n)
  then show ?thesis by (rule next_keeps [OF assms(1,2,4)])
next
  case (reserve name reserving)
  then show ?thesis unfolding NumReserve_def by (rule reserve_keeps(1) [OF assms(1,2,4)])
next
  case (reserve_count name cnt free)
  then show ?thesis by (rule reserve_count_Ok) (rule reserve_keeps(1) [OF assms(1,2,4)])
next
  case (release name)
  then show ?thesis by (rule free_keeps [OF assms(1,2,4)])
qed

text \<open>The first numbers of an initial segment without \<open>U\<close> are the least outside \<open>U\<close>.\<close>

lemma take_lowest:
  fixes U :: "nat set"
  assumes "S = {0..<M} - U" "cnt \<le> card S" "T = set (take cnt (sorted_list_of_set S))"
  shows "card T = cnt \<and> T \<inter> U = {} \<and> (\<forall>m\<in>T. \<forall>n. n \<notin> U \<longrightarrow> n \<notin> T \<longrightarrow> m < n)"
proof -
  define xs where "xs = sorted_list_of_set S"
  have xs: "set xs = S" "sorted xs" "distinct xs" "length xs = card S" using assms(1) by (simp_all add: xs_def)
  have T: "T = set (take cnt xs)" by (simp add: assms(3) xs_def)
  have "card T = cnt" unfolding T using xs(3,4) assms(2) by (simp add: distinct_card)
  moreover have "T \<subseteq> S" unfolding T using set_take_subset [of cnt xs] xs(1) by simp
  moreover have "m < n" if "m \<in> T" "n \<notin> U" "n \<notin> T" for m n
  proof (cases "n \<in> S")
    case True
    then have "n \<in> set (drop cnt xs)" using that(3) xs(1) set_append [of "take cnt xs" "drop cnt xs"] by (auto simp: T)
    moreover have "sorted (take cnt xs @ drop cnt xs)" using xs(2) by simp
    ultimately have "m \<le> n" using that(1) unfolding sorted_append T by blast
    with that(1,3) show ?thesis by (cases "m = n") auto
  next
    case False
    with that(2) assms(1) have "M \<le> n" by auto
    moreover have "m < M" using that(1) \<open>T \<subseteq> S\<close> assms(1) by auto
    ultimately show ?thesis by simp
  qed
  ultimately show ?thesis using assms(1) by blast
qed

section \<open>Properties\<close>

text \<open>
  C21: The next sector number is the least number that is neither reserved nor allocated nor in use
  on chain. It is stored as allocated, in the counter of earlier versions too, so that the next
  call gives another number.
\<close>

theorem NextSectorNumber_least:
  assumes "bitfield_laws env bits" "keys_apart env" "NextSectorNumber env ds = (ds', Ok n)"
  shows "n = (LEAST m. m \<notin> inUseNums env bits ds) \<and> allocatedNums env bits ds' = insert n (allocatedNums env bits ds) \<and>
    (\<exists>s. ds' (counterKey env) = Some s \<and> (n < 2 ^ 64 \<longrightarrow> Uvarint s = n)) \<and>
    (\<forall>ds'' n'. NextSectorNumber env ds' = (ds'', Ok n') \<longrightarrow> n' \<noteq> n)"
proof -
  obtain am s where am: "numAssignerMetaLocked env ds = Ok am" "n = Next am" "bfMarshal env (bfSet env n (Allocated am)) = Ok s"
    and ds': "ds' = ds(allocatedSectorsKey env \<mapsto> s, counterKey env \<mapsto> putUvarint n)"
    using NextSectorNumber_Ok [OF assms(3)] .
  note sp = meta_spec(5,6) [OF assms(1) am(1)]
  have "n = (LEAST m. m \<notin> inUseNums env bits ds)"
  proof (rule Least_equality [symmetric])
    show "n \<notin> inUseNums env bits ds" using sp(1) am(2) by simp
    show "n \<le> m" if "m \<notin> inUseNums env bits ds" for m using sp(2) that am(2) by (meson atLeastLessThan_iff not_le subsetD zero_le)
  qed
  moreover have al: "allocatedNums env bits ds' = insert n (allocatedNums env bits ds)"
    unfolding ds' by (rule allocated_next [OF assms(1,2) am(1,3)])
  moreover have "n' \<noteq> n" if next': "NextSectorNumber env ds' = (ds'', Ok n')" for ds'' n'
  proof -
    obtain am' where "numAssignerMetaLocked env ds' = Ok am'" "n' = Next am'" using NextSectorNumber_Ok [OF next'] by metis
    with meta_spec(5) [OF assms(1) this(1)] al show ?thesis by (auto simp: inUseNums_def)
  qed
  ultimately show ?thesis using Uvarint_putUvarint by (auto simp: ds')
qed

text \<open>
  C22: Whatever successful operations follow each other (new numbers, reservations that are not
  forced, reservations of a count, releases), the reserved numbers stay those of the named
  reservations, no number is reserved under two names, and none of them is allocated.
\<close>

theorem reservations_invariant:
  assumes "(numStep env)\<^sup>*\<^sup>* ds ds'" "bitfield_laws env bits" "keys_apart env" "resInv env bits ds"
  shows "resInv env bits ds'"
  using assms(1)
proof (induction rule: rtranclp_induct)
  case base
  show ?case by (rule assms(4))
next
  case (step ds1 ds2)
  show ?case by (rule numStep_keeps [OF assms(2,3) step.hyps(2) step.IH])
qed

text \<open>
  Reserving a count of numbers reserves exactly that many: the lowest numbers that are neither
  reserved nor allocated nor in use on chain.
\<close>

theorem NumReserveCount_lowest:
  assumes "bitfield_laws env bits" "keys_apart env" "resInv env bits ds" "NumReserveCount env name cnt ds = (ds', Ok free)"
  shows "card (bits free) = cnt \<and> bits free \<inter> inUseNums env bits ds = {} \<and>
    (\<forall>m\<in>bits free. \<forall>n. n \<notin> inUseNums env bits ds \<longrightarrow> n \<notin> bits free \<longrightarrow> m < n) \<and>
    stored env bits ds' (rkOf env name) = bits free \<and> reservedNums env bits ds' = reservedNums env bits ds \<union> bits free"
proof -
  obtain nm used mask free0 where nm: "numAssignerMetaLocked env ds = Ok nm" and mask: "bfFromRuns env [(True, (cnt + used) mod 2 ^ 64)] = Ok mask"
    and sub: "bfSubtract env mask (InUse nm) = Ok free0" and sl: "bfSlice env free0 0 cnt = Ok free"
    and ok: "numReserveLocked env name free False ds = (ds', Ok ())"
    using reserve_count_Ok [OF assms(4)] .
  have "bits free0 = {0..<(cnt + used) mod 2 ^ 64} - inUseNums env bits ds"
    unfolding bitfield_lawsD(4) [OF assms(1) sub] bitfield_lawsD(8) [OF assms(1) mask] meta_spec(3) [OF assms(1) nm] ..
  moreover from bitfield_lawsD(7) [OF assms(1) sl] have "cnt \<le> card (bits free0)" "bits free = set (take cnt (sorted_list_of_set (bits free0)))" by simp_all
  ultimately have "card (bits free) = cnt \<and> bits free \<inter> inUseNums env bits ds = {} \<and>
      (\<forall>m\<in>bits free. \<forall>n. n \<notin> inUseNums env bits ds \<longrightarrow> n \<notin> bits free \<longrightarrow> m < n)"
    by (rule take_lowest)
  with reserve_keeps(2,3) [OF assms(1,2,3) ok] show ?thesis by (elim conjE) (intro conjI; assumption)
qed

text \<open>
  A forced reservation can share numbers with another one. Releasing either then releases the
  shared numbers for new sectors although the other reservation still holds them.
\<close>

theorem forced_release:
  assumes "bitfield_laws env bits" "keys_apart env" "NumFree env name ds = (ds', Ok ())"
    "validName other" "other \<noteq> name" "x \<in> stored env bits ds (rkOf env name)" "x \<in> stored env bits ds (rkOf env other)"
  shows "x \<in> stored env bits ds' (rkOf env other) \<and> x \<notin> reservedNums env bits ds'"
proof -
  obtain s' where v: "validName name" and ds': "ds' = ds(reservedSectorsKey env \<mapsto> s', rkOf env name := None)"
    and m: "\<exists>b. bfMarshal env b = Ok s' \<and> bits b = reservedNums env bits ds - stored env bits ds (rkOf env name)"
    using NumFree_Ok [OF assms(1,3)] .
  note k = keys_apartD [OF assms(2)]
  have "reservedNums env bits ds' = reservedNums env bits ds - stored env bits ds (rkOf env name)"
    using m stored_save [OF assms(1)] k(5) [OF v] by (auto simp: ds' reservedNums_def)
  moreover have "stored env bits ds' (rkOf env other) = stored env bits ds (rkOf env other)"
    using k(5) [OF assms(4)] k(7) [OF v assms(4)] assms(5) by (simp add: ds')
  ultimately show ?thesis using assms(6,7) by simp
qed

section \<open>Witnesses\<close>

text \<open>Bitfields as lists of booleans, in a datastore that never fails.\<close>

definition toNums :: "bool list \<Rightarrow> nat list" where
  "toNums b = filter (\<lambda>i. b ! i) [0..<length b]"

definition ofNums :: "nat list \<Rightarrow> bool list" where
  "ofNums xs = map (\<lambda>i. i \<in> set xs) [0..<Suc (fold max xs 0)]"

definition bitmapBits :: "bool list \<Rightarrow> nat set" where
  "bitmapBits b = set (toNums b)"

definition bitmapRuns :: "bool list \<Rightarrow> (string, (string, bool \<times> nat) outcome list) outcome" where
  "bitmapRuns b = (if length b < 2 ^ 64 then Ok (map (\<lambda>v. Ok (v, 1)) b) else Err ''too long'')"

definition bitmapEnv :: "bool list numEnv" where
  "bitmapEnv = \<lparr>bfNew = [], bfSet = (\<lambda>i b. ofNums (i # toNums b)),
     bfMerge = (\<lambda>a b. Ok (ofNums (toNums a @ toNums b))),
     bfSubtract = (\<lambda>a b. Ok (ofNums (filter (\<lambda>i. i \<notin> set (toNums b)) (toNums a)))),
     bfIntersect = (\<lambda>a b. Ok (ofNums (filter (\<lambda>i. i \<in> set (toNums b)) (toNums a)))),
     bfIsEmpty = (\<lambda>a. Ok (toNums a = [])), bfCount = (\<lambda>a. Ok (length (toNums a))),
     bfSlice = (\<lambda>a s n. if s + n \<le> length (toNums a) then Ok (ofNums (take n (drop s (toNums a)))) else Err ''not enough bits''),
     bfFromRuns = (\<lambda>rs. Ok (concat (map (\<lambda>(v, n). replicate n v) rs))), bfRuns = bitmapRuns,
     bfMarshal = (\<lambda>b. Ok (map (\<lambda>v. if v then CHR ''1'' else CHR ''0'') b)), bfUnmarshal = (\<lambda>s. Ok (map (\<lambda>c. c = CHR ''1'') s)),
     newKey = (\<lambda>k. k), keyWithNamespaces = concat, baseNamespace = (\<lambda>k. k), dsFault = (\<lambda>_. None),
     dsQuery = (\<lambda>_ _. Ok []), chainAllocated = Ok (Some [])\<rparr>"

lemma set_toNums: "i \<in> set (toNums b) \<longleftrightarrow> i < length b \<and> b ! i"
  by (auto simp: toNums_def)

lemma toNums_sorted: "toNums b = sorted_list_of_set (bitmapBits b)"
proof -
  have "sorted (toNums b)" "distinct (toNums b)" unfolding toNums_def by (simp_all add: sorted_wrt_filter)
  then show ?thesis by (simp add: bitmapBits_def sorted_list_of_set.idem_if_sorted_distinct)
qed

lemma max_fold: "a \<le> fold max xs a \<and> (\<forall>x\<in>set xs. x \<le> fold max xs a)" for a :: nat
  by (induction xs arbitrary: a) (auto, (meson max.bounded_iff order.trans)+)

lemma bits_ofNums: "bitmapBits (ofNums xs) = set xs"
  using max_fold [of 0 xs] by (auto simp: bitmapBits_def set_toNums ofNums_def less_Suc_eq_le simp del: upt_Suc)

lemma bitmap_runsBits: "runsBits off (map (\<lambda>v. (v, 1)) b) = (\<lambda>i. off + i) ` {i. i < length b \<and> b ! i}"
proof (induction b arbitrary: off)
  case (Cons v b)
  have "{i. i < length (v # b) \<and> (v # b) ! i} = (if v then {0} else {}) \<union> Suc ` {i. i < length b \<and> b ! i}"
    by (auto simp: less_Suc_eq_0_disj)
  with Cons show ?case by (auto simp: image_image)
qed simp

lemma bitmap_runs_law: "runs_law bitmapEnv bitmapBits"
proof -
  have "\<exists>xs. list_all2 (\<lambda>r x. \<forall>y. r = Ok y \<longrightarrow> y = x) rs xs \<and> bitmapBits a = runsBits 0 xs \<and>
      (\<forall>x\<in>set xs. 0 < snd x) \<and> sum_list (map snd xs) < 2 ^ 64" if "bitmapRuns a = Ok rs" for a rs
  proof -
    from that have rs: "rs = map (\<lambda>v. Ok (v, 1)) a" "length a < 2 ^ 64" by (auto simp: bitmapRuns_def split: if_splits)
    have "bitmapBits a = {i. i < length a \<and> a ! i}" by (auto simp: bitmapBits_def set_toNums)
    then have "bitmapBits a = runsBits 0 (map (\<lambda>v. (v, 1)) a)" by (simp only: bitmap_runsBits add_0 image_ident)
    moreover have "sum_list (map snd (map (\<lambda>v. (v, 1 :: nat)) a)) = length a" by (induction a) simp_all
    ultimately show ?thesis using rs
      by (intro exI [of _ "map (\<lambda>v. (v, 1)) a"]) (auto simp: list_all2_map1 list_all2_map2 list_all2_same)
  qed
  then show ?thesis unfolding runs_law_def by (simp add: bitmapEnv_def)
qed

lemma bitmap_simps:
  "bitmapBits [] = {}" "bitmapBits (replicate n True) = {0..<n}" "toNums b = [] \<longleftrightarrow> bitmapBits b = {}"
  "length (toNums b) = card (bitmapBits b)" "finite (bitmapBits b)" "set (toNums b) = bitmapBits b"
  "map (\<lambda>c. c = CHR ''1'') (map (\<lambda>v. if v then CHR ''1'' else CHR ''0'') b) = b"
proof -
  show "length (toNums b) = card (bitmapBits b)" by (simp add: toNums_sorted)
  show "map (\<lambda>c. c = CHR ''1'') (map (\<lambda>v. if v then CHR ''1'' else CHR ''0'') b) = b" by (induction b) auto
qed (auto simp: bitmapBits_def set_toNums, auto simp: toNums_def)

lemma bitmap_laws: "bitfield_laws bitmapEnv bitmapBits"
  unfolding bitfield_laws_def
proof (intro conjI)
  show "runs_law bitmapEnv bitmapBits" by (rule bitmap_runs_law)
  show "\<forall>a n c. bfSlice bitmapEnv a 0 n = Ok c \<longrightarrow>
      finite (bitmapBits a) \<and> n \<le> card (bitmapBits a) \<and> bitmapBits c = set (take n (sorted_list_of_set (bitmapBits a)))"
    by (auto simp: bitmapEnv_def bits_ofNums bitmap_simps toNums_sorted [symmetric] split: if_splits)
qed (auto simp: bitmapEnv_def bits_ofNums bitmap_simps simp del: map_map)

lemma bitmap_keys: "keys_apart bitmapEnv"
  by (auto simp: keys_apart_def bitmapEnv_def allocatedSectorsKey_def reservedSectorsKey_def counterKey_def rkOf_def validName_def
      SectorBitfieldsDSPrefix_def SectorReservationsDSPrefix_def StorageCounterDSPrefix_def inj_on_def)

lemma empty_resInv: "resInv bitmapEnv bitmapBits Map.empty"
  by (simp add: resInv_def reservedNums_def stored_def allocatedNums_def)

definition demoReserved :: ds where
  "demoReserved = fst (NumReserveCount bitmapEnv ''b'' 2 Map.empty)"

definition demoNext :: ds where
  "demoNext = fst (NextSectorNumber bitmapEnv demoReserved)"

lemma demo_reserve: "NumReserveCount bitmapEnv ''b'' 2 Map.empty = (demoReserved, Ok [True, True])"
proof -
  have "snd (NumReserveCount bitmapEnv ''b'' 2 Map.empty) = Ok [True, True]" by code_simp
  then show ?thesis by (simp add: demoReserved_def prod_eq_iff)
qed

lemma demo_next: "NextSectorNumber bitmapEnv demoReserved = (demoNext, Ok 2)"
proof -
  have "snd (NextSectorNumber bitmapEnv demoReserved) = Ok 2" by code_simp
  then show ?thesis by (simp add: demoNext_def prod_eq_iff)
qed

theorem NextSectorNumber_least_witness:
  "snd (NextSectorNumber bitmapEnv demoReserved) = Ok 2 \<and> (LEAST m. m \<notin> inUseNums bitmapEnv bitmapBits demoReserved) = 2"
  using NextSectorNumber_least [OF bitmap_laws bitmap_keys demo_next] demo_next by simp

theorem reservations_invariant_witness: "resInv bitmapEnv bitmapBits demoNext"
proof (rule reservations_invariant [OF _ bitmap_laws bitmap_keys empty_resInv])
  have "numStep bitmapEnv Map.empty demoReserved" using demo_reserve by (rule numStep.reserve_count)
  moreover have "numStep bitmapEnv demoReserved demoNext" using demo_next by (rule numStep.next_number)
  ultimately show "(numStep bitmapEnv)\<^sup>*\<^sup>* Map.empty demoNext" by simp
qed

theorem NumReserveCount_lowest_witness:
  "card (bitmapBits [True, True]) = 2 \<and> reservedNums bitmapEnv bitmapBits demoReserved = {0, 1}"
proof -
  have "bitmapBits [True, True] = {0, 1}" by (auto simp: bitmapBits_def toNums_def)
  moreover have "reservedNums bitmapEnv bitmapBits Map.empty = {}" by (simp add: reservedNums_def stored_def)
  ultimately show ?thesis
    using NumReserveCount_lowest [OF bitmap_laws bitmap_keys empty_resInv demo_reserve] by simp
qed

definition demoShared :: ds where
  "demoShared = fst (NumReserve bitmapEnv ''c'' [True] True demoReserved)"

theorem forced_release_witness:
  "snd (NumReserve bitmapEnv ''c'' [True] True demoReserved) = Ok () \<and>
   0 \<in> stored bitmapEnv bitmapBits (fst (NumFree bitmapEnv ''c'' demoShared)) (rkOf bitmapEnv ''b'') \<and>
   0 \<notin> reservedNums bitmapEnv bitmapBits (fst (NumFree bitmapEnv ''c'' demoShared))"
proof -
  have "snd (NumFree bitmapEnv ''c'' demoShared) = Ok ()" by code_simp
  then have "NumFree bitmapEnv ''c'' demoShared = (fst (NumFree bitmapEnv ''c'' demoShared), Ok ())" by (simp add: prod_eq_iff)
  moreover have "validName ''b''" by code_simp
  moreover have "0 \<in> stored bitmapEnv bitmapBits demoShared (rkOf bitmapEnv ''c'')" by code_simp
  moreover have "0 \<in> stored bitmapEnv bitmapBits demoShared (rkOf bitmapEnv ''b'')" by code_simp
  moreover have "snd (NumReserve bitmapEnv ''c'' [True] True demoReserved) = Ok ()" by code_simp
  ultimately show ?thesis using forced_release [OF bitmap_laws bitmap_keys, of "''c''" demoShared _ "''b''" 0] by simp
qed

end
