(* ===== verification/SectorPieces.thy ===== *)
theory SectorPieces
  imports SectorEvents SectorStats SectorPadding SectorNumbers
begin

text \<open>
  How the data of deals gets into a sector: the state that the sealing pipeline keeps for it
  (\<open>src/storage/pipeline/sealing.go\<close>), the handlers that write the pieces assigned to a sector
  (\<open>handleAddPiece\<close> of \<open>input.go\<close>) and fill the rest of it (\<open>handlePacking\<close> and
  \<open>padSector\<close> of \<open>states_sealing.go\<close>). A handler returns the state it leaves and its
  error; the events it sends are appended to \<open>sent\<close>, unless the state machine refuses them,
  which is an argument. The sealer, the commitments of zeros, the sizes of sectors and the
  conversions of sizes are arguments too. Sectors are keyed by their number, the miner being
  fixed. The texts of errors leave out what the source formats into them.
\<close>

section \<open>State\<close>

record openSector =
  used :: "64 word"
  number :: nat
  ccUpdate :: bool

record pieceAcceptResp =
  sn :: nat
  offset :: "64 word"
  err :: "string option"

text \<open>\<open>doneCh\<close> is closed as soon as there is a response.\<close>

record pendingPiece =
  resp :: "pieceAcceptResp option"
  ppSize :: "64 word"
  deal :: PieceDealInfo
  ppData :: string
  assigned :: bool

text \<open>
  The maps that the code ranges over are association lists in the order of the run. \<open>answers\<close>
  are the responses given so far, \<open>timers\<close> the time a timer fires and whether it was stopped.
\<close>

record Sealing =
  openSectors :: "(nat \<times> openSector) list"
  timers :: "nat \<rightharpoonup> int \<times> bool"
  pendingPieces :: "(string \<times> pendingPiece) list"
  assignedPieces :: "nat \<rightharpoonup> string list"
  nextDealSector :: "nat option"
  available :: "nat list"
  stats :: SectorStats
  store :: ds
  sent :: "(nat \<times> user) list"
  answers :: "(string \<times> pieceAcceptResp) list"

record pieceEnv =
  padded :: "64 word \<Rightarrow> 64 word"
  unpadded :: "64 word \<Rightarrow> 64 word"
  SectorSize :: "int \<Rightarrow> (string, 64 word) outcome"
  AddPiece :: "int \<Rightarrow> nat \<Rightarrow> 64 word list \<Rightarrow> 64 word \<Rightarrow> string option \<Rightarrow> (string, PieceInfo) outcome"
  ZeroPieceCommitment :: "64 word \<Rightarrow> string"
  sendFault :: "nat \<Rightarrow> user \<Rightarrow> string option"

definition sendEvent :: "pieceEnv \<Rightarrow> nat \<Rightarrow> user \<Rightarrow> Sealing \<Rightarrow> Sealing \<times> (string, unit) outcome" where
  "sendEvent env n evt m =
     (case sendFault env n evt of Some e \<Rightarrow> (m, Err e) | None \<Rightarrow> (m\<lparr>sent := sent m @ [(n, evt)]\<rparr>, Ok ()))"

definition updPiece :: "string \<Rightarrow> (pendingPiece \<Rightarrow> pendingPiece) \<Rightarrow> (string \<times> pendingPiece) list \<Rightarrow> (string \<times> pendingPiece) list" where
  "updPiece c f ps = map (\<lambda>(k, p). if k = c then (k, f p) else (k, p)) ps"

text \<open>
  The response to whoever waits for a piece. Closing its channel a second time panics.
\<close>

definition respond :: "string \<Rightarrow> pieceAcceptResp \<Rightarrow> pendingPiece \<Rightarrow> Sealing \<Rightarrow> (string, Sealing) outcome" where
  "respond c r pp m = (if resp pp \<noteq> None then Panic else Ok (m\<lparr>answers := answers m @ [(c, r)]\<rparr>))"

definition accepted :: "string \<Rightarrow> pieceAcceptResp \<Rightarrow> Sealing \<Rightarrow> (string, Sealing) outcome" where
  "accepted c r m =
     (case map_of (pendingPieces m) c of
        None \<Rightarrow> Panic
      | Some pp \<Rightarrow>
          bindO (respond c r pp m) (\<lambda>m'.
            Ok (m'\<lparr>pendingPieces := updPiece c (\<lambda>p. p\<lparr>resp := Some r\<rparr>) (pendingPieces m')\<rparr>)))"

definition getDealPerSectorLimit :: "64 word \<Rightarrow> nat" where
  "getDealPerSectorLimit ssize = (if ssize < 64 * 2 ^ 30 then 256 else 512)"

section \<open>Adding the pieces of deals\<close>

text \<open>The pieces of zeros in front of a deal: the sizes and the pieces written so far with them.\<close>

fun padsLoop :: "pieceEnv \<Rightarrow> SectorInfo \<Rightarrow> 64 word list \<Rightarrow> 64 word list \<Rightarrow> SectorPiece list \<Rightarrow> (string, 64 word list \<times> SectorPiece list) outcome" where
  "padsLoop env sector [] sizes new = Ok (sizes, new)"
| "padsLoop env sector (p # ps) sizes new =
     (case AddPiece env (SectorType sector) (SectorNumber sector) sizes (unpadded env p) None of
        Err e \<Rightarrow> Err (''writing padding piece: '' @ e)
      | Panic \<Rightarrow> Panic
      | Ok ppi \<Rightarrow>
          if PieceCID ppi \<noteq> ZeroPieceCommitment env (unpadded env p) then Err ''got unexpected padding piece CID''
          else padsLoop env sector ps (sizes @ [unpadded env p]) (new @ [\<lparr>Piece = ppi, DealInfo = None\<rparr>]))"

text \<open>A failure to write: the deal is answered with the error and the sector gets it as an event.\<close>

definition addPieceFailed :: "pieceEnv \<Rightarrow> SectorInfo \<Rightarrow> string \<Rightarrow> 64 word \<Rightarrow> string \<Rightarrow> Sealing \<Rightarrow> Sealing \<times> (string, unit) outcome" where
  "addPieceFailed env sector c off e m =
     (case accepted c \<lparr>sn = SectorNumber sector, offset = off, err = Some e\<rparr> m of
        Ok m' \<Rightarrow> sendEvent env (SectorNumber sector) (Mut (Seal (SectorAddPieceFailed e))) m'
      | Err e' \<Rightarrow> (m, Err e')
      | Panic \<Rightarrow> (m, Panic))"

text \<open>The padding and the piece of one deal, which fits; its piece is the last of those returned.\<close>

definition writeDeal :: "pieceEnv \<Rightarrow> SectorInfo \<Rightarrow> pendingPiece \<Rightarrow> 64 word list \<Rightarrow> 64 word list \<Rightarrow> SectorPiece list \<Rightarrow>
    (string, 64 word list \<times> SectorPiece list) outcome" where
  "writeDeal env sector pp pads sizes new =
     bindO (padsLoop env sector pads sizes new) (\<lambda>(sizes', new').
       case AddPiece env (SectorType sector) (SectorNumber sector) sizes' (ppSize pp) (Some (ppData pp)) of
         Err e \<Rightarrow> Err (''writing piece: '' @ e)
       | Panic \<Rightarrow> Panic
       | Ok ppi \<Rightarrow>
           if PieceCID ppi \<noteq> ProposalPieceCID (Proposal (deal pp)) then Err ''got unexpected piece CID''
           else Ok (sizes' @ [ppSize pp], new' @ [\<lparr>Piece = ppi, DealInfo = Some (deal pp)\<rparr>]))"

fun addPiecesLoop :: "pieceEnv \<Rightarrow> SectorInfo \<Rightarrow> 64 word \<Rightarrow> nat \<Rightarrow> string list \<Rightarrow> 64 word \<Rightarrow> 64 word list \<Rightarrow> SectorPiece list \<Rightarrow> Sealing \<Rightarrow>
    Sealing \<times> (string, unit) outcome" where
  "addPiecesLoop env sector ssize i [] off sizes new m =
     sendEvent env (SectorNumber sector) (Mut (Seal (SectorPieceAdded new))) m"
| "addPiecesLoop env sector ssize i (c # cs) off sizes new m =
     (case map_of (pendingPieces m) c of
        None \<Rightarrow> (m, Err ''piece assigned to sector not found'')
      | Some pp \<Rightarrow>
          if length (dealIDs sector) + (i + 1) > getDealPerSectorLimit ssize then
            (case accepted c \<lparr>sn = SectorNumber sector, offset = off, err = Some ''too many deals assigned to sector, dropping deal''\<rparr> m of
               Ok m' \<Rightarrow> addPiecesLoop env sector ssize (Suc i) cs off sizes new m'
             | Err e \<Rightarrow> (m, Err e)
             | Panic \<Rightarrow> (m, Panic))
          else
            (case GetRequiredPadding (padded env off) (padded env (ppSize pp)) of
               Err e \<Rightarrow> (m, Err e)
             | Panic \<Rightarrow> (m, Panic)
             | Ok (pads, padLength) \<Rightarrow>
                 if padded env off + padLength + padded env (ppSize pp) > ssize then
                   (case accepted c \<lparr>sn = SectorNumber sector, offset = off, err = Some ''piece assigned to sector with not enough space''\<rparr> m of
                      Ok m' \<Rightarrow> addPiecesLoop env sector ssize (Suc i) cs off sizes new m'
                    | Err e \<Rightarrow> (m, Err e)
                    | Panic \<Rightarrow> (m, Panic))
                 else
                   let off' = off + unpadded env padLength in
                   (case writeDeal env sector pp pads sizes new of
                      Err e \<Rightarrow> addPieceFailed env sector c off' e m
                    | Panic \<Rightarrow> (m, Panic)
                    | Ok (sizes', new') \<Rightarrow>
                        (case accepted c \<lparr>sn = SectorNumber sector, offset = off', err = None\<rparr> m of
                           Ok m' \<Rightarrow> addPiecesLoop env sector ssize (Suc i) cs (off' + ppSize pp) sizes' new' m'
                         | Err e \<Rightarrow> (m, Err e)
                         | Panic \<Rightarrow> (m, Panic)))))"

definition handleAddPiece :: "pieceEnv \<Rightarrow> SectorInfo \<Rightarrow> Sealing \<Rightarrow> Sealing \<times> (string, unit) outcome" where
  "handleAddPiece env sector m =
     (case SectorSize env (SectorType sector) of
        Err e \<Rightarrow> (m, Err e)
      | Panic \<Rightarrow> (m, Panic)
      | Ok ssize \<Rightarrow>
          (case assignedPieces m (SectorNumber sector) of
             None \<Rightarrow> sendEvent env (SectorNumber sector) (Mut (Seal (SectorPieceAdded []))) m
           | Some pending \<Rightarrow>
               let sizes = existingPieceSizes (unpadded env) sector in
               addPiecesLoop env sector ssize 0 pending (sum_list sizes) sizes []
                 (m\<lparr>assignedPieces := (assignedPieces m)(SectorNumber sector := None)\<rparr>)))"

definition handleAddPieceFailed :: "pieceEnv \<Rightarrow> SectorInfo \<Rightarrow> Sealing \<Rightarrow> Sealing \<times> (string, unit) outcome" where
  "handleAddPieceFailed env sector m = sendEvent env (SectorNumber sector) (Mut (Seal SectorRetryWaitDeals)) m"

section \<open>Filling the rest\<close>

text \<open>The pieces still assigned to a sector that is packed are refused and forgotten.\<close>

fun refuseLoop :: "nat \<Rightarrow> string list \<Rightarrow> Sealing \<Rightarrow> (string, Sealing) outcome" where
  "refuseLoop n [] m = Ok m"
| "refuseLoop n (c # cs) m =
     (let m' = m\<lparr>pendingPieces := filter (\<lambda>(k, _). k \<noteq> c) (pendingPieces m)\<rparr> in
      case map_of (pendingPieces m) c of
        None \<Rightarrow> refuseLoop n cs m'
      | Some pp \<Rightarrow>
          bindO (respond c \<lparr>sn = n, offset = 0, err = Some ''sector entered packing state early''\<rparr> pp m') (refuseLoop n cs))"

fun padSectorLoop :: "pieceEnv \<Rightarrow> SectorInfo \<Rightarrow> 64 word list \<Rightarrow> 64 word list \<Rightarrow> PieceInfo list \<Rightarrow> (string, PieceInfo list) outcome" where
  "padSectorLoop env sector existing [] out = Ok out"
| "padSectorLoop env sector existing (s # ss) out =
     (case AddPiece env (SectorType sector) (SectorNumber sector) existing s None of
        Err e \<Rightarrow> Err (''add piece: '' @ e)
      | Panic \<Rightarrow> Panic
      | Ok ppi \<Rightarrow>
          if PieceCID ppi \<noteq> ZeroPieceCommitment env s then Err ''got unexpected padding piece CID''
          else padSectorLoop env sector (existing @ [s]) ss (out @ [ppi]))"

definition padSector :: "pieceEnv \<Rightarrow> SectorInfo \<Rightarrow> 64 word list \<Rightarrow> 64 word list \<Rightarrow> (string, PieceInfo list) outcome" where
  "padSector env sector existing sizes = padSectorLoop env sector existing sizes []"

definition handlePacking :: "pieceEnv \<Rightarrow> SectorInfo \<Rightarrow> Sealing \<Rightarrow> Sealing \<times> (string, unit) outcome" where
  "handlePacking env sector m =
     (let n = SectorNumber sector in
      case refuseLoop n (case assignedPieces m n of None \<Rightarrow> [] | Some cs \<Rightarrow> cs) m of
        Err e \<Rightarrow> (m, Err e)
      | Panic \<Rightarrow> (m, Panic)
      | Ok m1 \<Rightarrow>
          let m2 = m1\<lparr>openSectors := filter (\<lambda>(k, _). k \<noteq> n) (openSectors m1), assignedPieces := (assignedPieces m1)(n := None)\<rparr> in
          if State sector = SnapDealsPacking \<and> \<not> hasDeals sector then
            sendEvent env n (Mut (SnapRetry (SectorAbortUpgrade ''sector had no deals''))) m2
          else
            (case SectorSize env (SectorType sector) of
               Err e \<Rightarrow> (m2, Err e)
             | Panic \<Rightarrow> (m2, Panic)
             | Ok ssize \<Rightarrow>
                 let existing = existingPieceSizes (unpadded env) sector; allocated = sum_list existing; ubytes = unpadded env ssize in
                 if allocated > ubytes then (m2, Err ''too much data in sector'')
                 else
                   (case padSector env sector existing (fillersFromRem (unpadded env) (ubytes - allocated)) of
                      Err e \<Rightarrow> (m2, Err (''filling up the sector: '' @ e))
                    | Panic \<Rightarrow> (m2, Panic)
                    | Ok fillers \<Rightarrow> sendEvent env n (Mut (Seal (SectorPacked fillers))) m2)))"

section \<open>Layout of a sector\<close>

definition sizesOf :: "SectorPiece list \<Rightarrow> nat list" where
  "sizesOf ps = map (\<lambda>p. unat (PieceInfoSize (Piece p))) ps"

text \<open>
  The pieces of a sector of \<open>2 ^ j\<close> bytes: powers of two of at least 128 bytes, each at a
  multiple of its size, no more than the sector holds.
\<close>

definition wellLaid :: "nat \<Rightarrow> SectorPiece list \<Rightarrow> bool" where
  "wellLaid j ps \<longleftrightarrow> (\<forall>s\<in>set (sizesOf ps). \<exists>i. 7 \<le> i \<and> s = 2 ^ i) \<and> laidOut 0 (sizesOf ps) \<and> sum_list (sizesOf ps) \<le> 2 ^ j"

text \<open>
  What is documented of the arguments: the conversion of sizes, the size of the sector, and that
  the sealer returns a piece of the size it was given.
\<close>

definition sealer_law :: "pieceEnv \<Rightarrow> int \<Rightarrow> nat \<Rightarrow> bool" where
  "sealer_law env spt j \<longleftrightarrow>
     piece_sizes (padded env) (unpadded env) \<and> SectorSize env spt = Ok (2 ^ j) \<and> 7 \<le> j \<and> j \<le> 62 \<and>
     (\<forall>n sizes s d ppi. AddPiece env spt n sizes s d = Ok ppi \<longrightarrow> PieceInfoSize ppi = padded env s)"

text \<open>The sizes of pending pieces are those of a power of two in the sector.\<close>

definition pendingOk :: "(string \<times> pendingPiece) list \<Rightarrow> bool" where
  "pendingOk ps \<longleftrightarrow> (\<forall>c pp. map_of ps c = Some pp \<longrightarrow> (\<exists>k. 7 \<le> k \<and> k \<le> 62 \<and> ppSize pp = of_nat (127 * 2 ^ (k - 7))))"

lemma sizesOf_simps [simp]: "sizesOf [] = []" "sizesOf (p # ps) = unat (PieceInfoSize (Piece p)) # sizesOf ps"
  "sizesOf (ps @ qs) = sizesOf ps @ sizesOf qs"
  by (simp_all add: sizesOf_def)

lemma exp_units: "7 \<le> k \<Longrightarrow> (2 :: nat) ^ k = 128 * 2 ^ (k - 7)"
proof -
  assume "7 \<le> k"
  then have "(2 :: nat) ^ k = 2 ^ (7 + (k - 7))" by simp
  then show ?thesis by (simp only: power_add) simp
qed

lemma sum_units:
  "\<forall>s\<in>set ss. \<exists>i. 7 \<le> i \<and> s = 2 ^ i \<Longrightarrow> \<exists>N. sum_list ss = 128 * (N :: nat)"
proof (induction ss)
  case (Cons s ss)
  then obtain i N where "7 \<le> i" "s = 2 ^ i" "sum_list ss = 128 * N" by auto
  then have "sum_list (s # ss) = 128 * (2 ^ (i - 7) + N)" using exp_units [of i] by simp
  then show ?case by blast
qed simp

lemma piece_sizesD:
  assumes "piece_sizes pa un" "n < 2 ^ 57"
  shows "pa (of_nat (127 * n)) = of_nat (128 * n)" "un (of_nat (128 * n)) = of_nat (127 * n)" "unat (of_nat (128 * n) :: 64 word) = 128 * n"
  using assms unat_units [OF assms(2), of 128] unfolding piece_sizes_def by simp_all

lemma padded_exp:
  assumes "piece_sizes pa un" "7 \<le> k" "k \<le> 62"
  shows "pa (of_nat (127 * 2 ^ (k - 7))) = 2 ^ k"
proof -
  have "k - 7 < 57" using assms(3) by simp
  then have lt: "(2 :: nat) ^ (k - 7) < 2 ^ 57" by (rule power_strict_increasing) simp
  show ?thesis unfolding piece_sizesD(1) [OF assms(1) lt] exp_units [OF assms(2), symmetric] by simp
qed

text \<open>The offset of the next piece, without padding, from the sizes with padding.\<close>

lemma offset_units:
  assumes "piece_sizes pa un" "\<forall>s\<in>set (sizesOf ps). \<exists>i. 7 \<le> i \<and> s = 2 ^ i" "sum_list (sizesOf ps) = 128 * N" "N < 2 ^ 57"
  shows "sum_list (map (\<lambda>p. un (PieceInfoSize (Piece p))) ps) = of_nat (127 * N)"
  using assms(2-4)
proof (induction ps arbitrary: N)
  case (Cons p ps)
  from Cons.prems(1) obtain i where i: "7 \<le> i" "unat (PieceInfoSize (Piece p)) = 2 ^ i" by auto
  from Cons.prems(1) sum_units [of "sizesOf ps"] obtain M where M: "sum_list (sizesOf ps) = 128 * M" by auto
  have N: "N = 2 ^ (i - 7) + M" using Cons.prems(2) M i exp_units [OF i(1)] by simp
  then have lt: "2 ^ (i - 7) < (2 :: nat) ^ 57" "M < 2 ^ 57" using Cons.prems(3) by linarith+
  have "PieceInfoSize (Piece p) = of_nat (unat (PieceInfoSize (Piece p)))" by simp
  also have "\<dots> = of_nat (128 * 2 ^ (i - 7))" unfolding i(2) exp_units [OF i(1)] ..
  finally have "un (PieceInfoSize (Piece p)) = of_nat (127 * 2 ^ (i - 7))" using piece_sizesD(2) [OF assms(1) lt(1)] by (simp only:)
  moreover have "sum_list (map (\<lambda>p. un (PieceInfoSize (Piece p))) ps) = of_nat (127 * M)"
    using Cons.IH [of M] Cons.prems(1) M lt(2) by simp
  ultimately show ?case unfolding N by (simp add: algebra_simps)
qed simp

section \<open>Lemmas on the loops\<close>

lemma accepted_Ok:
  assumes "accepted c r m = Ok m'"
  shows "answers m' = answers m @ [(c, r)]" "sent m' = sent m" "pendingPieces m' = updPiece c (\<lambda>p. p\<lparr>resp := Some r\<rparr>) (pendingPieces m)"
  using assms by (auto simp: accepted_def respond_def split: option.splits if_splits)

lemma map_of_updPiece: "map_of (updPiece c f ps) k = (if k = c then map_option f (map_of ps k) else map_of ps k)"
  by (induction ps) (auto simp: updPiece_def)

lemma pendingOk_upd: "pendingOk ps \<Longrightarrow> pendingOk (updPiece c (\<lambda>p. p\<lparr>resp := r\<rparr>) ps)"
  unfolding pendingOk_def by (fastforce simp: map_of_updPiece split: if_splits)

lemma deal_upd: "map_option deal (map_of (updPiece c (\<lambda>p. p\<lparr>resp := r\<rparr>) ps) k) = map_option deal (map_of ps k)"
  by (cases "map_of ps k") (auto simp: map_of_updPiece)

lemma padsLoop_Ok:
  assumes "padsLoop env sector pads sizes new = Ok (sizes', new')"
    "\<And>n sizes s d ppi. AddPiece env (SectorType sector) n sizes s d = Ok ppi \<Longrightarrow> PieceInfoSize ppi = padded env s"
  shows "\<exists>qs. new' = new @ qs \<and> map (\<lambda>q. PieceInfoSize (Piece q)) qs = map (\<lambda>p. padded env (unpadded env p)) pads"
  using assms(1)
proof (induction pads arbitrary: sizes new)
  case (Cons p pads)
  from Cons.prems obtain ppi sizes1 where a: "AddPiece env (SectorType sector) (SectorNumber sector) sizes (unpadded env p) None = Ok ppi"
    "padsLoop env sector pads sizes1 (new @ [\<lparr>Piece = ppi, DealInfo = None\<rparr>]) = Ok (sizes', new')"
    by (auto split: outcome.splits if_splits)
  from Cons.IH [OF a(2)] obtain qs where "new' = (new @ [\<lparr>Piece = ppi, DealInfo = None\<rparr>]) @ qs"
    "map (\<lambda>q. PieceInfoSize (Piece q)) qs = map (\<lambda>p. padded env (unpadded env p)) pads" by blast
  then show ?case using assms(2) [OF a(1)] by (intro exI [of _ "\<lparr>Piece = ppi, DealInfo = None\<rparr> # qs"]) simp
qed simp

lemma writeDeal_Ok:
  assumes "writeDeal env sector pp pads sizes new = Ok (sizes', new')"
    "\<And>n sizes s d ppi. AddPiece env (SectorType sector) n sizes s d = Ok ppi \<Longrightarrow> PieceInfoSize ppi = padded env s"
  obtains qs q where "new' = new @ qs @ [q]" "map (\<lambda>q. PieceInfoSize (Piece q)) qs = map (\<lambda>p. padded env (unpadded env p)) pads"
    "PieceInfoSize (Piece q) = padded env (ppSize pp)" "DealInfo q = Some (deal pp)"
proof -
  from assms(1) obtain sizes1 new1 where p: "padsLoop env sector pads sizes new = Ok (sizes1, new1)"
    by (auto simp: writeDeal_def bindO_eq_Ok)
  with assms(1) obtain ppi where a: "padsLoop env sector pads sizes new = Ok (sizes1, new1)"
    "AddPiece env (SectorType sector) (SectorNumber sector) sizes1 (ppSize pp) (Some (ppData pp)) = Ok ppi"
    "new' = new1 @ [\<lparr>Piece = ppi, DealInfo = Some (deal pp)\<rparr>]"
    by (cases "AddPiece env (SectorType sector) (SectorNumber sector) sizes1 (ppSize pp) (Some (ppData pp))")
      (auto simp: writeDeal_def split: if_splits)
  have "\<exists>qs. new1 = new @ qs \<and> map (\<lambda>q. PieceInfoSize (Piece q)) qs = map (\<lambda>p. padded env (unpadded env p)) pads"
    by (rule padsLoop_Ok [OF a(1)]) (rule assms(2))
  then obtain qs where "new1 = new @ qs" "map (\<lambda>q. PieceInfoSize (Piece q)) qs = map (\<lambda>p. padded env (unpadded env p)) pads" by blast
  with that [of qs "\<lparr>Piece = ppi, DealInfo = Some (deal pp)\<rparr>"] a(3) assms(2) [OF a(2)] show ?thesis by simp
qed

text \<open>One deal: from a sector whose data ends after \<open>128 * N\<close> bytes to one that holds it too.\<close>

lemma place_deal:
  assumes laws: "sealer_law env (SectorType sector) j" and laid: "wellLaid j ps" "sum_list (sizesOf ps) = 128 * N"
    and k: "7 \<le> k" "k \<le> 62" "ppSize pp = of_nat (127 * 2 ^ (k - 7))"
    and pad: "GetRequiredPadding (padded env (of_nat (127 * N))) (padded env (ppSize pp)) = Ok (pads, padLength)"
    and fits: "\<not> padded env (of_nat (127 * N)) + padLength + padded env (ppSize pp) > 2 ^ j"
    and new: "map (\<lambda>q. PieceInfoSize (Piece q)) qs = map (\<lambda>p. padded env (unpadded env p)) pads" "PieceInfoSize (Piece q) = padded env (ppSize pp)"
  obtains M where "of_nat (127 * N) + unpadded env padLength = of_nat (127 * M)" "of_nat (127 * M) + ppSize pp = of_nat (127 * (M + 2 ^ (k - 7)))"
    "sum_list (sizesOf (ps @ qs)) = 128 * M" "unat (padded env (of_nat (127 * M))) = 128 * M"
    "wellLaid j (ps @ qs @ [q])" "sum_list (sizesOf (ps @ qs @ [q])) = 128 * (M + 2 ^ (k - 7))"
proof -
  have sz: "piece_sizes (padded env) (unpadded env)" and j: "j \<le> 62" using laws by (auto simp: sealer_law_def)
  have small: "(2 :: nat) ^ j \<le> 2 ^ 62" "(2 :: nat) ^ k \<le> 2 ^ 62"
  proof -
    show "(2 :: nat) ^ j \<le> 2 ^ 62" using j by (rule power_increasing) simp
    show "(2 :: nat) ^ k \<le> 2 ^ 62" using k(2) by (rule power_increasing) simp
  qed
  have "128 * N \<le> 2 ^ j" using laid by (simp add: wellLaid_def)
  with small(1) have N: "N < 2 ^ 57" "128 * N \<le> 2 ^ 62" by simp_all
  have pp: "padded env (ppSize pp) = 2 ^ k" unfolding k(3) by (rule padded_exp [OF sz k(1,2)])
  note po = piece_sizesD(1,3) [OF sz N(1)]
  obtain w where w: "GetRequiredPadding (of_nat (128 * N)) (2 ^ k) = Ok (map (\<lambda>i. 2 ^ i) (setBits w), w)"
    "unat w < 2 ^ k" "2 ^ k dvd unat (of_nat (128 * N) :: 64 word) + unat w"
    "laidOut (unat (of_nat (128 * N) :: 64 word)) (map (\<lambda>i. 2 ^ i) (setBits w))"
    using padding_spec [of k] k(2) by auto
  have pads: "pads = map (\<lambda>i. 2 ^ i) (setBits w)" "padLength = w" using pad w(1) unfolding pp po(1) by simp_all
  have dv: "2 ^ k dvd 128 * N + unat w" using w(3) unfolding po(2) .
  then have "128 dvd 128 * N + unat w" using exp_units [OF k(1)] by (metis dvd_mult_left)
  then have d128: "128 dvd unat w" by (simp add: dvd_add_right_iff)
  then obtain W where W: "unat w = 128 * W" by (rule dvdE)
  have Wlt: "W < 2 ^ 57" "N + W < 2 ^ 57" using w(2) small(2) N(2) W by simp_all
  have "unat (of_nat (128 * N) + w + 2 ^ k) = 128 * N + unat w + 2 ^ k"
    using w(2) small(2) N(2) k(2) by (simp only: unat_word_ariths po(2) unat_exp) simp
  then have room: "128 * N + unat w + 2 ^ k \<le> 2 ^ j"
    using fits j unfolding pads(2) pp po(1) not_less word_le_nat_alt by simp
  have "w = of_nat (unat w)" by simp
  then have "w = of_nat (128 * W)" unfolding W .
  then have un: "unpadded env w = of_nat (127 * W)" using piece_sizesD(2) [OF sz Wlt(1)] by simp
  have qs: "sizesOf qs = map (\<lambda>i. 2 ^ i) (setBits w)"
  proof -
    have "map (\<lambda>q. PieceInfoSize (Piece q)) qs = map (\<lambda>i. 2 ^ i) (setBits w)"
      using new(1) piece_sizes_exp(1) [OF sz] setBits_units [OF d128] unfolding pads(1) by simp
    then have "map unat (map (\<lambda>q. PieceInfoSize (Piece q)) qs) = map unat (map (\<lambda>i. push_bit i (1 :: 64 word)) (setBits w))" by simp
    then show ?thesis unfolding map_unat_bits by (simp add: sizesOf_def comp_def)
  qed
  have q: "unat (PieceInfoSize (Piece q)) = 2 ^ k" using new(2) k(2) unfolding pp by simp
  show ?thesis
  proof (rule that [of "N + W"])
    show "of_nat (127 * N) + unpadded env padLength = of_nat (127 * (N + W))" unfolding pads(2) un by (simp add: algebra_simps)
    show "of_nat (127 * (N + W)) + ppSize pp = of_nat (127 * (N + W + 2 ^ (k - 7)))" unfolding k(3) by (simp add: algebra_simps)
    show "sum_list (sizesOf (ps @ qs)) = 128 * (N + W)" using laid(2) qs W by simp
    show "unat (padded env (of_nat (127 * (N + W)))) = 128 * (N + W)" using piece_sizesD(1,3) [OF sz Wlt(2)] by (simp only:)
    show "sum_list (sizesOf (ps @ qs @ [q])) = 128 * (N + W + 2 ^ (k - 7))" using laid(2) qs W q exp_units [OF k(1)] by simp
    have "\<forall>s\<in>set (sizesOf (qs @ [q])). \<exists>i. 7 \<le> i \<and> s = 2 ^ i" using setBits_units(1) [OF d128] k(1) by (auto simp: qs q)
    moreover have "laidOut (128 * N) (sizesOf (qs @ [q]))" using w(4) dv unfolding po(2) by (simp add: qs q)
    ultimately show "wellLaid j (ps @ qs @ [q])" using laid qs q room by (auto simp: wellLaid_def)
  qed
qed

text \<open>A response without error names the place of the piece of the deal in the sector.\<close>

definition placedAt :: "pieceEnv \<Rightarrow> (string \<times> pendingPiece) list \<Rightarrow> SectorPiece list \<Rightarrow> string \<times> pieceAcceptResp \<Rightarrow> bool" where
  "placedAt env pend ps a \<longleftrightarrow>
     (\<exists>pre q post. ps = pre @ q # post \<and> DealInfo q \<noteq> None \<and> DealInfo q = map_option deal (map_of pend (fst a)) \<and>
        unat (padded env (offset (snd a))) = sum_list (sizesOf pre))"

definition added :: "pieceEnv \<Rightarrow> nat \<Rightarrow> SectorInfo \<Rightarrow> SectorPiece list \<Rightarrow> SectorPiece list \<Rightarrow> Sealing \<Rightarrow> Sealing \<Rightarrow> bool" where
  "added env j sector new new' m m' \<longleftrightarrow>
     wellLaid j (Pieces sector @ new') \<and> (\<exists>qs. new' = new @ qs) \<and>
     (\<exists>as. answers m' = answers m @ as \<and>
        (\<forall>a\<in>set as. err (snd a) = None \<longrightarrow> placedAt env (pendingPieces m) (Pieces sector @ new') a))"

lemma added_step:
  assumes "accepted c r m = Ok m1" "added env j sector (new @ xs) new' m1 m'"
    "\<And>ys. err r = None \<Longrightarrow> placedAt env (pendingPieces m) (Pieces sector @ new @ xs @ ys) (c, r)"
  shows "added env j sector new new' m m'"
proof -
  from assms(2) obtain qs as where new': "new' = new @ xs @ qs" and laid: "wellLaid j (Pieces sector @ new')"
    and as: "answers m' = answers m1 @ as" "\<forall>a\<in>set as. err (snd a) = None \<longrightarrow> placedAt env (pendingPieces m1) (Pieces sector @ new') a"
    by (auto simp: added_def)
  have "placedAt env (pendingPieces m1) ps a \<longleftrightarrow> placedAt env (pendingPieces m) ps a" for ps a
    using accepted_Ok [OF assms(1)] deal_upd by (simp add: placedAt_def)
  with as(2) assms(3) [of qs] have "\<forall>a\<in>set ((c, r) # as). err (snd a) = None \<longrightarrow> placedAt env (pendingPieces m) (Pieces sector @ new') a"
    by (simp add: new')
  moreover have "answers m' = answers m @ (c, r) # as" using as(1) accepted_Ok [OF assms(1)] by simp
  ultimately show ?thesis using laid new' unfolding added_def by blast
qed

lemma addPieceFailed_sent:
  "addPieceFailed env sector c off e m = (m', r) \<Longrightarrow> sent m' \<noteq> sent m @ [(n, Mut (Seal (SectorPieceAdded new)))]"
  by (auto simp: addPieceFailed_def sendEvent_def dest: accepted_Ok(2) split: outcome.splits option.splits)

text \<open>The next deal is refused, or written and accepted, when the loop ends with the pieces added.\<close>

lemma addPiecesLoop_next:
  assumes loop: "addPiecesLoop env sector ssize i (c # cs) off sizes new m = (m', r)"
    and sent: "sent m' = sent m @ [(n, Mut (Seal (SectorPieceAdded new')))]"
    and pp: "map_of (pendingPieces m) c = Some pp" "padded env (ppSize pp) \<noteq> 0"
  obtains (refused) rr m1 where "accepted c rr m = Ok m1" "err rr \<noteq> None"
      "addPiecesLoop env sector ssize (Suc i) cs off sizes new m1 = (m', r)"
    | (written) pads padLength sizes1 new1 m1 where
      "GetRequiredPadding (padded env off) (padded env (ppSize pp)) = Ok (pads, padLength)"
      "\<not> padded env off + padLength + padded env (ppSize pp) > ssize"
      "writeDeal env sector pp pads sizes new = Ok (sizes1, new1)"
      "accepted c \<lparr>sn = SectorNumber sector, offset = off + unpadded env padLength, err = None\<rparr> m = Ok m1"
      "addPiecesLoop env sector ssize (Suc i) cs (off + unpadded env padLength + ppSize pp) sizes1 new1 m1 = (m', r)"
proof -
  let ?rr = "\<lambda>off e. \<lparr>sn = SectorNumber sector, offset = off, err = e\<rparr>"
  let ?many = "?rr off (Some ''too many deals assigned to sector, dropping deal'')"
  let ?full = "?rr off (Some ''piece assigned to sector with not enough space'')"
  obtain pads padLength where pad: "GetRequiredPadding (padded env off) (padded env (ppSize pp)) = Ok (pads, padLength)"
    using pp(2) by (auto simp: GetRequiredPadding_def Let_def padLoop_fill)
  show ?thesis
  proof (cases "length (dealIDs sector) + (i + 1) > getDealPerSectorLimit ssize")
    case True
    with loop sent pp(1) obtain m1 where m1: "accepted c ?many m = Ok m1" "addPiecesLoop env sector ssize (Suc i) cs off sizes new m1 = (m', r)"
      by (cases "accepted c ?many m") auto
    show ?thesis by (rule refused [OF m1(1) _ m1(2)]) simp
  next
    case few: False
    show ?thesis
    proof (cases "padded env off + padLength + padded env (ppSize pp) > ssize")
      case True
      with few loop sent pp(1) pad obtain m1 where m1: "accepted c ?full m = Ok m1" "addPiecesLoop env sector ssize (Suc i) cs off sizes new m1 = (m', r)"
        by (cases "accepted c ?full m") auto
      show ?thesis by (rule refused [OF m1(1) _ m1(2)]) simp
    next
      case fits: False
      let ?off = "off + unpadded env padLength"
      from few loop pp(1) pad fits have step: "(case writeDeal env sector pp pads sizes new of
          Err e \<Rightarrow> addPieceFailed env sector c ?off e m
        | Panic \<Rightarrow> (m, Panic)
        | Ok (sizes', new') \<Rightarrow>
            (case accepted c (?rr ?off None) m of
               Ok m' \<Rightarrow> addPiecesLoop env sector ssize (Suc i) cs (?off + ppSize pp) sizes' new' m'
             | Err e \<Rightarrow> (m, Err e)
             | Panic \<Rightarrow> (m, Panic))) = (m', r)" by (simp add: Let_def)
      show ?thesis
      proof (cases "writeDeal env sector pp pads sizes new")
        case (Ok x)
        obtain sizes1 new1 where x: "x = (sizes1, new1)" by (cases x)
        from step sent obtain m1 where "accepted c (?rr ?off None) m = Ok m1"
          "addPiecesLoop env sector ssize (Suc i) cs (?off + ppSize pp) sizes1 new1 m1 = (m', r)"
          by (cases "accepted c (?rr ?off None) m") (simp_all add: Ok x)
        with Ok x show ?thesis by (intro written [OF pad fits]) simp_all
      next
        case (Err e)
        with step have "addPieceFailed env sector c ?off e m = (m', r)" by simp
        with addPieceFailed_sent sent show ?thesis by blast
      next
        case Panic
        with step sent show ?thesis by simp
      qed
    qed
  qed
qed

lemma addPiecesLoop_laid:
  assumes laws: "sealer_law env (SectorType sector) j"
    and "addPiecesLoop env sector (2 ^ j) i cs (of_nat (127 * N)) sizes new m = (m', r)"
    "wellLaid j (Pieces sector @ new)" "sum_list (sizesOf (Pieces sector @ new)) = 128 * N" "pendingOk (pendingPieces m)"
    "sent m' = sent m @ [(SectorNumber sector, Mut (Seal (SectorPieceAdded new')))]"
  shows "added env j sector new new' m m'"
  using assms(2-)
proof (induction cs arbitrary: i N sizes new m)
  case Nil
  then have "new' = new" "answers m' = answers m" by (auto simp: sendEvent_def split: option.splits)
  with Nil.prems(2) show ?case by (simp add: added_def)
next
  case (Cons c cs)
  have IH: "added env j sector new1 new' m1 m'"
    if "accepted c rr m = Ok m1" "addPiecesLoop env sector (2 ^ j) (Suc i) cs (of_nat (127 * M)) sizes1 new1 m1 = (m', r)"
      "wellLaid j (Pieces sector @ new1)" "sum_list (sizesOf (Pieces sector @ new1)) = 128 * M" for rr m1 M sizes1 new1
    using that(2-4) Cons.prems(4,5) accepted_Ok [OF that(1)] pendingOk_upd by (intro Cons.IH) auto
  from Cons.prems(1,5) obtain pp where pp: "map_of (pendingPieces m) c = Some pp" by (cases "map_of (pendingPieces m) c") auto
  with Cons.prems(4) obtain k where k: "7 \<le> k" "k \<le> 62" "ppSize pp = of_nat (127 * 2 ^ (k - 7))" unfolding pendingOk_def by blast
  have "piece_sizes (padded env) (unpadded env)" using laws by (simp add: sealer_law_def)
  from padded_exp [OF this k(1,2)] have "padded env (ppSize pp) = 2 ^ k" unfolding k(3) .
  moreover have "unat ((2 :: 64 word) ^ k) = 2 ^ k" using k(2) by simp
  ultimately have nz: "padded env (ppSize pp) \<noteq> 0" by (metis power_not_zero unsigned_0 zero_neq_numeral)
  from Cons.prems(1,5) pp nz show ?case
  proof (cases rule: addPiecesLoop_next)
    case (refused rr m1)
    from added_step [OF refused(1), where xs = "[]"] IH [OF refused(1,3) Cons.prems(2,3)] refused(2) show ?thesis by simp
  next
    case (written pads padLength sizes1 new1 m1)
    obtain qs q where new1: "new1 = new @ qs @ [q]" and qs: "map (\<lambda>q. PieceInfoSize (Piece q)) qs = map (\<lambda>p. padded env (unpadded env p)) pads"
      "PieceInfoSize (Piece q) = padded env (ppSize pp)" and d: "DealInfo q = Some (deal pp)"
      using writeDeal_Ok [OF written(3)] laws unfolding sealer_law_def by blast
    obtain M where M: "of_nat (127 * N) + unpadded env padLength = of_nat (127 * M)"
      "of_nat (127 * M) + ppSize pp = of_nat (127 * (M + 2 ^ (k - 7)))"
      "sum_list (sizesOf ((Pieces sector @ new) @ qs)) = 128 * M" "unat (padded env (of_nat (127 * M))) = 128 * M"
      "wellLaid j ((Pieces sector @ new) @ qs @ [q])" "sum_list (sizesOf ((Pieces sector @ new) @ qs @ [q])) = 128 * (M + 2 ^ (k - 7))"
      by (rule place_deal [OF laws Cons.prems(2,3) k written(1,2) qs])
    show ?thesis
    proof (rule added_step [OF written(4)])
      show "added env j sector (new @ qs @ [q]) new' m1 m'"
      proof (rule IH [OF written(4)])
        show "addPiecesLoop env sector (2 ^ j) (Suc i) cs (of_nat (127 * (M + 2 ^ (k - 7)))) sizes1 (new @ qs @ [q]) m1 = (m', r)"
          using written(5) unfolding M(1,2) new1 .
      qed (use M(5,6) in simp_all)
      show "placedAt env (pendingPieces m) (Pieces sector @ new @ (qs @ [q]) @ ys)
          (c, \<lparr>sn = SectorNumber sector, offset = of_nat (127 * N) + unpadded env padLength, err = None\<rparr>)" for ys
        unfolding placedAt_def M(1) using M(3,4) d pp
        by (intro exI [of _ "(Pieces sector @ new) @ qs"] exI [of _ q] exI [of _ ys]) simp
    qed
  qed
qed

lemma refuseLoop_sent: "refuseLoop n cs m = Ok m' \<Longrightarrow> sent m' = sent m"
proof (induction cs arbitrary: m)
  case (Cons c cs)
  then show ?case
    by (cases "map_of (pendingPieces m) c") (auto simp: Let_def bindO_eq_Ok respond_def split: if_splits)
qed simp

lemma padSectorLoop_Ok:
  assumes "padSectorLoop env sector existing ss out = Ok ps"
    "\<And>n sizes s d ppi. AddPiece env (SectorType sector) n sizes s d = Ok ppi \<Longrightarrow> PieceInfoSize ppi = padded env s"
  shows "\<exists>qs. ps = out @ qs \<and> map PieceInfoSize qs = map (padded env) ss"
  using assms(1)
proof (induction ss arbitrary: existing out)
  case (Cons s ss)
  from Cons.prems obtain ppi ex1 where a: "AddPiece env (SectorType sector) (SectorNumber sector) existing s None = Ok ppi"
    "padSectorLoop env sector ex1 ss (out @ [ppi]) = Ok ps"
    by (cases "AddPiece env (SectorType sector) (SectorNumber sector) existing s None") (auto split: if_splits)
  from Cons.IH [OF a(2)] obtain qs where "ps = (out @ [ppi]) @ qs" "map PieceInfoSize qs = map (padded env) ss" by blast
  then show ?case using assms(2) [OF a(1)] by (intro exI [of _ "ppi # qs"]) simp
qed simp

text \<open>The fillers written after data that ends at \<open>128 * N\<close> bytes.\<close>

lemma fill_sector:
  assumes laws: "sealer_law env (SectorType sector) j" and laid: "wellLaid j ps" "sum_list (sizesOf ps) = 128 * N"
    and pad: "padSector env sector existing (fillersFromRem (unpadded env) (unpadded env (2 ^ j) - of_nat (127 * N))) = Ok fillers"
  shows "wellLaid j (ps @ map (\<lambda>p. \<lparr>Piece = p, DealInfo = None\<rparr>) fillers)"
    "sum_list (sizesOf (ps @ map (\<lambda>p. \<lparr>Piece = p, DealInfo = None\<rparr>) fillers)) = 2 ^ j"
proof -
  have sz: "piece_sizes (padded env) (unpadded env)" and j: "7 \<le> j" "j \<le> 62" using laws by (auto simp: sealer_law_def)
  define n where "n = 2 ^ (j - 7) - N"
  have "j - 7 < 57" using j(2) by simp
  then have lt: "(2 :: nat) ^ (j - 7) < 2 ^ 57" by (rule power_strict_increasing) simp
  have "128 * N \<le> 2 ^ j" using laid by (simp add: wellLaid_def)
  then have n: "2 ^ (j - 7) = N + n" "n < 2 ^ 57" using lt unfolding exp_units [OF j(1)] by (simp_all add: n_def)
  have "(2 :: 64 word) ^ j = of_nat (2 ^ j)" by simp
  also have "\<dots> = of_nat (128 * (N + n))" unfolding exp_units [OF j(1)] n(1) ..
  finally have e: "(2 :: 64 word) ^ j = of_nat (128 * (N + n))" .
  have "unpadded env (2 ^ j) = of_nat (127 * (N + n))" unfolding e using lt unfolding n(1) by (rule piece_sizesD(2) [OF sz])
  then have rem: "unpadded env (2 ^ j) - of_nat (127 * N) = of_nat (127 * n)" by (simp add: algebra_simps)
  define w where "w = (of_nat (128 * n) :: 64 word)"
  have uw: "unat w = 128 * n" unfolding w_def by (rule piece_sizesD(3) [OF sz n(2)])
  have "\<exists>qs. fillers = [] @ qs \<and> map PieceInfoSize qs = map (padded env) (map (\<lambda>i. unpadded env (2 ^ i)) (setBits w))"
  proof (rule padSectorLoop_Ok)
    show "padSectorLoop env sector existing (map (\<lambda>i. unpadded env (2 ^ i)) (setBits w)) [] = Ok fillers"
      using pad unfolding padSector_def rem fillers_bits [OF n(2)] w_def .
  qed (use laws in \<open>auto simp: sealer_law_def\<close>)
  then have "map PieceInfoSize fillers = map (\<lambda>i. 2 ^ i) (setBits w)"
    using piece_sizes_exp(1) [OF sz] setBits_units [of w] uw by simp
  then have "map unat (map PieceInfoSize fillers) = map unat (map (\<lambda>i. push_bit i (1 :: 64 word)) (setBits w))" by simp
  then have f: "sizesOf (map (\<lambda>p. \<lparr>Piece = p, DealInfo = None\<rparr>) fillers) = map (\<lambda>i. 2 ^ i) (setBits w)"
    unfolding map_unat_bits by (simp add: sizesOf_def comp_def)
  have whole: "128 * N + unat w = 2 ^ j" unfolding uw exp_units [OF j(1)] n(1) by simp
  then show "sum_list (sizesOf (ps @ map (\<lambda>p. \<lparr>Piece = p, DealInfo = None\<rparr>) fillers)) = 2 ^ j" using laid(2) by (simp add: f)
  then show "wellLaid j (ps @ map (\<lambda>p. \<lparr>Piece = p, DealInfo = None\<rparr>) fillers)"
    using laid fillers_laidOut [OF whole] setBits_units [of w] uw by (auto simp: wellLaid_def f)
qed

section \<open>Properties\<close>

text \<open>
  C13: When the pieces of deals were added to a sector, every piece of it, padding included, is a
  power of two and stands at a multiple of its own size, and together they do not exceed the
  sector. The offset that a deal was accepted with is the place of its piece.
\<close>

theorem handleAddPiece_laid:
  assumes "sealer_law env (SectorType sector) j" "wellLaid j (Pieces sector)" "pendingOk (pendingPieces m)"
    "handleAddPiece env sector m = (m', r)"
    "sent m' = sent m @ [(SectorNumber sector, Mut (Seal (SectorPieceAdded new)))]"
  shows "wellLaid j (Pieces (applySeal now (SectorPieceAdded new) sector)) \<and>
    (\<exists>as. answers m' = answers m @ as \<and>
      (\<forall>a\<in>set as. err (snd a) = None \<longrightarrow> placedAt env (pendingPieces m) (Pieces (applySeal now (SectorPieceAdded new) sector)) a))"
proof (cases "assignedPieces m (SectorNumber sector)")
  case None
  then have "new = []" "answers m' = answers m" using assms(1,4,5)
    by (auto simp: handleAddPiece_def sealer_law_def sendEvent_def split: option.splits)
  with assms(2) show ?thesis by (simp add: applySeal_def)
next
  case (Some cs)
  have sz: "piece_sizes (padded env) (unpadded env)" "SectorSize env (SectorType sector) = Ok (2 ^ j)" "j \<le> 62"
    using assms(1) by (auto simp: sealer_law_def)
  obtain N where N: "sum_list (sizesOf (Pieces sector)) = 128 * N" using sum_units assms(2) unfolding wellLaid_def by blast
  have "(2 :: nat) ^ j \<le> 2 ^ 62" using sz(3) by (rule power_increasing) simp
  with assms(2) N have "N < 2 ^ 57" by (simp add: wellLaid_def)
  then have off: "sum_list (existingPieceSizes (unpadded env) sector) = of_nat (127 * N)"
    using offset_units [OF sz(1) _ N] assms(2) by (simp add: existingPieceSizes_def wellLaid_def)
  have "added env j sector [] new (m\<lparr>assignedPieces := (assignedPieces m)(SectorNumber sector := None)\<rparr>) m'"
    by (rule addPiecesLoop_laid [OF assms(1), where N = N])
      (use assms(2-5) Some sz(2) N off in \<open>auto simp: handleAddPiece_def Let_def\<close>)
  then show ?thesis by (simp add: added_def applySeal_def)
qed

text \<open>
  C14: Packing fills a sector exactly: with the fillers its pieces sum up to the size of the
  sector, and each of them stands at a multiple of its own size.
\<close>

theorem handlePacking_full:
  assumes "sealer_law env (SectorType sector) j" "wellLaid j (Pieces sector)" "handlePacking env sector m = (m', r)"
    "sent m' = sent m @ [(SectorNumber sector, Mut (Seal (SectorPacked fillers)))]"
  shows "wellLaid j (Pieces (applySeal now (SectorPacked fillers) sector)) \<and>
    sum_list (sizesOf (Pieces (applySeal now (SectorPacked fillers) sector))) = 2 ^ j"
proof -
  have sz: "piece_sizes (padded env) (unpadded env)" "SectorSize env (SectorType sector) = Ok (2 ^ j)" "j \<le> 62"
    using assms(1) by (auto simp: sealer_law_def)
  obtain N where N: "sum_list (sizesOf (Pieces sector)) = 128 * N" using sum_units assms(2) unfolding wellLaid_def by blast
  have "(2 :: nat) ^ j \<le> 2 ^ 62" using sz(3) by (rule power_increasing) simp
  with assms(2) N have "N < 2 ^ 57" by (simp add: wellLaid_def)
  then have off: "sum_list (existingPieceSizes (unpadded env) sector) = of_nat (127 * N)"
    using offset_units [OF sz(1) _ N] assms(2) by (simp add: existingPieceSizes_def wellLaid_def)
  have "padSector env sector (existingPieceSizes (unpadded env) sector)
      (fillersFromRem (unpadded env) (unpadded env (2 ^ j) - of_nat (127 * N))) = Ok fillers"
    using assms(3,4) sz(2) unfolding off [symmetric]
    by (auto simp: handlePacking_def Let_def sendEvent_def dest: refuseLoop_sent split: outcome.splits option.splits if_splits)
  from fill_sector [OF assms(1,2) N this] show ?thesis by (simp add: applySeal_def)
qed

section \<open>Witnesses\<close>

definition demoEnv :: pieceEnv where
  "demoEnv = \<lparr>padded = stdPadded, unpadded = stdUnpadded, SectorSize = (\<lambda>_. Ok 2048),
     AddPiece = (\<lambda>_ _ _ s d. Ok \<lparr>PieceInfoSize = stdPadded s, PieceCID = (case d of None \<Rightarrow> ''zeros'' | Some c \<Rightarrow> c)\<rparr>),
     ZeroPieceCommitment = (\<lambda>_. ''zeros''), sendFault = (\<lambda>_ _. None)\<rparr>"

definition demoDeal :: PieceDealInfo where
  "demoDeal = \<lparr>PublishCid = None, DealID = 7, Proposal = \<lparr>ProposalPieceCID = ''data'', StartEpoch = 10, EndEpoch = 20\<rparr>,
     ScheduleStart = 10, ScheduleEnd = 20, KeepUnsealed = False\<rparr>"

definition demoPending :: pendingPiece where
  "demoPending = \<lparr>resp = None, ppSize = 254, deal = demoDeal, ppData = ''data'', assigned = True\<rparr>"

definition demoSealing :: Sealing where
  "demoSealing = \<lparr>openSectors = [], timers = Map.empty, pendingPieces = [(''c'', demoPending)], assignedPieces = [1 \<mapsto> [''c'']],
     nextDealSector = None, available = [], stats = newStats, store = Map.empty, sent = [], answers = []\<rparr>"

definition demoPiece :: SectorPiece where
  "demoPiece = \<lparr>Piece = \<lparr>PieceInfoSize = 128, PieceCID = ''zeros''\<rparr>, DealInfo = None\<rparr>"

definition demoSector :: SectorInfo where
  "demoSector = emptyInfo\<lparr>SectorNumber := 1, Pieces := [demoPiece]\<rparr>"

definition demoAdded :: "SectorPiece list" where
  "demoAdded = [demoPiece, \<lparr>Piece = \<lparr>PieceInfoSize = 256, PieceCID = ''data''\<rparr>, DealInfo = Some demoDeal\<rparr>]"

lemma demo_law: "sealer_law demoEnv t 11"
  using std_piece_sizes by (simp add: sealer_law_def demoEnv_def)

lemma demo_laid: "wellLaid 11 (Pieces demoSector)" "pendingOk (pendingPieces demoSealing)"
proof -
  have "(128 :: nat) = 2 ^ 7" by simp
  then show "wellLaid 11 (Pieces demoSector)" by (auto simp: wellLaid_def demoSector_def demoPiece_def)
  show "pendingOk (pendingPieces demoSealing)"
    by (auto simp: pendingOk_def demoSealing_def demoPending_def intro!: exI [of _ 8])
qed

lemma demo_padding: "GetRequiredPadding 128 256 = Ok ([128], 128)"
  by code_simp

lemma demo_adds: "sent (fst (handleAddPiece demoEnv demoSector demoSealing)) = [(1, Mut (Seal (SectorPieceAdded demoAdded)))]"
proof -
  have "stdPadded 127 = 128" "stdPadded 254 = 256" "stdUnpadded 128 = 127" by code_simp+
  then show ?thesis using demo_padding
    by (simp add: handleAddPiece_def demoEnv_def demoSector_def demoSealing_def existingPieceSizes_def demoPiece_def demoPending_def
        Let_def dealIDs_def emptyInfo_def getDealPerSectorLimit_def writeDeal_def accepted_def respond_def updPiece_def sendEvent_def
        demoAdded_def demoDeal_def List.map_filter_simps)
qed

theorem handleAddPiece_laid_witness: "wellLaid 11 (Pieces (applySeal 0 (SectorPieceAdded demoAdded) demoSector))"
proof -
  have "sent (fst (handleAddPiece demoEnv demoSector demoSealing)) =
      sent demoSealing @ [(SectorNumber demoSector, Mut (Seal (SectorPieceAdded demoAdded)))]"
    unfolding demo_adds by (simp add: demoSealing_def demoSector_def)
  from handleAddPiece_laid [OF demo_law demo_laid prod.collapse [symmetric] this] show ?thesis by blast
qed

definition demoFillers :: "PieceInfo list" where
  "demoFillers = map (\<lambda>s. \<lparr>PieceInfoSize = s, PieceCID = ''zeros''\<rparr>) [128, 256, 512, 1024]"

lemma demo_packs: "sent (fst (handlePacking demoEnv demoSector demoSealing)) = [(1, Mut (Seal (SectorPacked demoFillers)))]"
proof -
  have "stdUnpadded 2048 = 2032" "stdUnpadded 128 = 127" "fillersFromRem stdUnpadded 1905 = [127, 254, 508, 1016]"
    "stdPadded 127 = 128" "stdPadded 254 = 256" "stdPadded 508 = 512" "stdPadded 1016 = 1024" by code_simp+
  then show ?thesis
    by (simp add: handlePacking_def demoEnv_def demoSector_def demoSealing_def existingPieceSizes_def demoPiece_def demoPending_def
        Let_def emptyInfo_def respond_def sendEvent_def padSector_def demoFillers_def)
qed

theorem handlePacking_full_witness:
  "sum_list (sizesOf (Pieces (applySeal 0 (SectorPacked demoFillers) demoSector))) = 2048"
proof -
  have "sent (fst (handlePacking demoEnv demoSector demoSealing)) =
      sent demoSealing @ [(SectorNumber demoSector, Mut (Seal (SectorPacked demoFillers)))]"
    unfolding demo_packs by (simp add: demoSealing_def demoSector_def)
  from handlePacking_full [OF demo_law demo_laid(1) prod.collapse [symmetric] this, of 0] show ?thesis by simp
qed

end
