(* ===== verification/SectorInput.thy ===== *)
theory SectorInput
  imports SectorPieces
begin

text \<open>
  How pieces waiting for a sector are matched with the open sectors, and where new sectors for
  them come from (\<open>src/storage/pipeline/input.go\<close>, with \<open>sectorActive\<close> of
  \<open>upgrade_queue.go\<close> and \<open>PledgeSector\<close> of \<open>garbage.go\<close>). What the chain and the
  configuration answer is fixed during a call and an argument; so are the bounds of a deal and
  the time between blocks. Logging is left out, and so is the pointer to the lock that is handed
  to a goroutine: what the goroutine runs is the end of the call. Times are in nanoseconds and
  the clock stands still during a call.
\<close>

section \<open>What the code is given\<close>

text \<open>The sizes that the proofs of the abi package come in; which constant is which is an argument.\<close>

datatype drgSize = KiB2 | MiB8 | MiB512 | GiB32 | GiB64

record inputEnv =
  pieces :: pieceEnv
  StateSectorGetInfo :: "nat \<Rightarrow> (string, (int \<times> int) option) outcome"
  StateMinerDeadlines :: "(string, nat) outcome"
  StateMinerPartitions :: "nat \<Rightarrow> (string, (nat \<Rightarrow> (string, bool) outcome) list) outcome"
  ChainHead :: "(string, int) outcome"
  getConfig :: "(string, SealingConfig) outcome"
  NewSector :: "nat \<Rightarrow> string option"
  DealDurationBounds :: "int \<times> int"
  BlockDelaySecs :: int
  StateMinerInfo :: "(string, int) outcome"
  StateNetworkVersion :: "(string, nat) outcome"
  windowProof :: "int \<Rightarrow> drgSize option"
  StackedDrgV1 :: "drgSize \<Rightarrow> int"
  StackedDrgV1_1 :: "drgSize \<Rightarrow> int"
  actorID :: nat

type_synonym memo = "nat \<rightharpoonup> int \<times> int"

type_synonym 'a handled = "Sealing \<times> (string, 'a) outcome"

definition bindS :: "'a handled \<Rightarrow> (Sealing \<Rightarrow> 'a \<Rightarrow> 'c handled) \<Rightarrow> 'c handled" where
  "bindS r f = (case r of (m, Ok a) \<Rightarrow> f m a | (m, Err e) \<Rightarrow> (m, Err e) | (m, Panic) \<Rightarrow> (m, Panic))"

section \<open>The proof of new sectors\<close>

definition PreferredSealProofTypeFromWindowPoStType :: "inputEnv \<Rightarrow> nat \<Rightarrow> int \<Rightarrow> (string, int) outcome" where
  "PreferredSealProofTypeFromWindowPoStType env nver proof =
     (case windowProof env proof of
        None \<Rightarrow> Err ''unrecognized window post type''
      | Some z \<Rightarrow> Ok (if nver < 7 then StackedDrgV1 env z else StackedDrgV1_1 env z))"

definition currentSealProof :: "inputEnv \<Rightarrow> (string, int) outcome" where
  "currentSealProof env =
     bindO (StateMinerInfo env) (\<lambda>proof. bindO (StateNetworkVersion env) (\<lambda>ver. PreferredSealProofTypeFromWindowPoStType env ver proof))"

section \<open>Lifetime of sectors\<close>

text \<open>A sector that is not on chain is a nil pointer.\<close>

definition getExpirationCached :: "inputEnv \<Rightarrow> nat \<Rightarrow> memo \<Rightarrow> memo \<times> (string, int \<times> int) outcome" where
  "getExpirationCached env n memo =
     (case memo n of
        Some e \<Rightarrow> (memo, Ok e)
      | None \<Rightarrow>
          (case StateSectorGetInfo env n of
             Err e \<Rightarrow> (memo, Err e)
           | Panic \<Rightarrow> (memo, Panic)
           | Ok None \<Rightarrow> (memo, Panic)
           | Ok (Some e) \<Rightarrow> (memo(n \<mapsto> e), Ok e)))"

definition dealFitsInLifetime :: "inputEnv \<Rightarrow> openSector \<Rightarrow> int \<Rightarrow> memo \<Rightarrow> memo \<times> (string, bool) outcome" where
  "dealFitsInLifetime env os dealEnd memo =
     (if \<not> ccUpdate os then (memo, Ok True)
      else case getExpirationCached env (number os) memo of
          (memo', r) \<Rightarrow> (memo', bindO r (\<lambda>(expiration, _). Ok (expiration \<ge> dealEnd))))"

fun partsLoop :: "(nat \<Rightarrow> (string, bool) outcome) list \<Rightarrow> nat \<Rightarrow> (string, bool) outcome" where
  "partsLoop [] n = Ok False"
| "partsLoop (p # ps) n = bindO (wrapE ''checking if sector is in deadline partition'' (p n)) (\<lambda>found. if found then Ok True else partsLoop ps n)"

fun deadlinesLoop :: "inputEnv \<Rightarrow> nat list \<Rightarrow> nat \<Rightarrow> (string, bool) outcome" where
  "deadlinesLoop env [] n = Ok False"
| "deadlinesLoop env (dl # dls) n =
     bindO (wrapE ''getting partitions for deadline'' (StateMinerPartitions env dl)) (\<lambda>parts.
     bindO (partsLoop parts n) (\<lambda>found. if found then Ok True else deadlinesLoop env dls n))"

definition sectorActive :: "inputEnv \<Rightarrow> nat \<Rightarrow> (string, bool) outcome" where
  "sectorActive env n =
     bindO (wrapE ''getting proving deadlines'' (StateMinerDeadlines env)) (\<lambda>dls. deadlinesLoop env [0..<dls] n)"

section \<open>Matching\<close>

record match =
  mtSector :: nat
  mtDeal :: string
  mtSize :: "64 word"
  mtPadding :: "64 word"

text \<open>The matches of one piece; the remainder by a piece of size 0 panics.\<close>

fun sectorMatches :: "inputEnv \<Rightarrow> 64 word \<Rightarrow> string \<Rightarrow> pendingPiece \<Rightarrow> (nat \<times> openSector) list \<Rightarrow> memo \<Rightarrow> (string, memo \<times> match list) outcome" where
  "sectorMatches env ssize c pp [] memo = Ok (memo, [])"
| "sectorMatches env ssize c pp ((k, os) # rest) memo =
     (let avail = unpadded (pieces env) ssize - used os in
      case dealFitsInLifetime env os (EndEpoch (Proposal (deal pp))) memo of
        (memo', Panic) \<Rightarrow> Panic
      | (memo', Err e) \<Rightarrow> sectorMatches env ssize c pp rest memo'
      | (memo', Ok fits) \<Rightarrow>
          if fits \<and> ppSize pp \<le> avail then
            if ppSize pp = 0 then Panic
            else bindO (sectorMatches env ssize c pp rest memo') (\<lambda>(memo'', ms).
              Ok (memo'', \<lparr>mtSector = k, mtDeal = c, mtSize = ppSize pp, mtPadding = avail mod ppSize pp\<rparr> # ms))
          else sectorMatches env ssize c pp rest memo')"

fun pieceMatches :: "inputEnv \<Rightarrow> 64 word \<Rightarrow> (nat \<times> openSector) list \<Rightarrow> (string \<times> pendingPiece) list \<Rightarrow> memo \<Rightarrow> (string, memo \<times> match list) outcome" where
  "pieceMatches env ssize opens [] memo = Ok (memo, [])"
| "pieceMatches env ssize opens ((c, pp) # rest) memo =
     (if assigned pp then pieceMatches env ssize opens rest memo
      else bindO (sectorMatches env ssize c pp opens memo) (\<lambda>(memo', ms).
           bindO (pieceMatches env ssize opens rest memo') (\<lambda>(memo'', ms'). Ok (memo'', ms @ ms'))))"

definition match_less :: "match \<Rightarrow> match \<Rightarrow> bool" where
  "match_less a b =
     (if mtPadding a \<noteq> mtPadding b then mtPadding a < mtPadding b
      else if mtSize a \<noteq> mtSize b then mtSize a < mtSize b
      else mtSector a < mtSector b)"

text \<open>\<open>maybeAccept\<close> of an open sector: the piece is assigned, then the sector told.\<close>

definition maybeAccept :: "inputEnv \<Rightarrow> nat \<Rightarrow> string \<Rightarrow> Sealing \<Rightarrow> unit handled" where
  "maybeAccept env n c m =
     sendEvent (pieces env) n (Mut (Seal SectorAddPiece))
       (m\<lparr>assignedPieces := (assignedPieces m)(n \<mapsto> (case assignedPieces m n of None \<Rightarrow> [] | Some cs \<Rightarrow> cs) @ [c])\<rparr>)"

definition updSector :: "nat \<Rightarrow> (openSector \<Rightarrow> openSector) \<Rightarrow> (nat \<times> openSector) list \<Rightarrow> (nat \<times> openSector) list" where
  "updSector n f os = map (\<lambda>(k, s). if k = n then (k, f s) else (k, s)) os"

text \<open>One match: the piece goes to the sector, unless either is taken or full by now.\<close>

definition assignMatch :: "inputEnv \<Rightarrow> 64 word \<Rightarrow> match \<Rightarrow> Sealing \<times> string list \<Rightarrow> (string, Sealing \<times> string list) outcome" where
  "assignMatch env ssize mt st =
     (case st of (m, toAssign) \<Rightarrow>
      case map_of (pendingPieces m) (mtDeal mt) of
        None \<Rightarrow> Panic
      | Some pp \<Rightarrow>
          if assigned pp then Ok st
          else case map_of (openSectors m) (mtSector mt) of
              None \<Rightarrow> Ok st
            | Some os \<Rightarrow>
                if mtSize mt > unpadded (pieces env) ssize - used os then Ok st
                else
                  bindO (case maybeAccept env (mtSector mt) (mtDeal mt) m of
                           (m1, Err e) \<Rightarrow> accepted (mtDeal mt) \<lparr>sn = mtSector mt, offset = 0, err = Some e\<rparr> m1
                         | (m1, Ok _) \<Rightarrow> Ok m1
                         | (m1, Panic) \<Rightarrow> Panic)
                    (\<lambda>m1. Ok (m1\<lparr>openSectors := updSector (mtSector mt) (\<lambda>s. s\<lparr>used := used s + (mtPadding mt + mtSize mt)\<rparr>) (openSectors m1),
                               pendingPieces := updPiece (mtDeal mt) (\<lambda>p. p\<lparr>assigned := True\<rparr>) (pendingPieces m1)\<rparr>,
                           removeAll (mtDeal mt) toAssign)))"

fun assignLoop :: "inputEnv \<Rightarrow> 64 word \<Rightarrow> match list \<Rightarrow> Sealing \<times> string list \<Rightarrow> (string, Sealing \<times> string list) outcome" where
  "assignLoop env ssize [] st = Ok st"
| "assignLoop env ssize (mt # mts) st = bindO (assignMatch env ssize mt st) (assignLoop env ssize mts)"

section \<open>Sectors to upgrade\<close>

definition TotalFilecoinInt :: int where
  "TotalFilecoinInt = 2000000000 * 1000000000000000000"

text \<open>The bytes of the candidates, until they fill a sector: the last end of a deal among them.\<close>

fun fillTarget :: "64 word \<Rightarrow> pendingPiece list \<Rightarrow> 64 word \<Rightarrow> int \<Rightarrow> int \<times> bool" where
  "fillTarget cap [] bytes target = (target, False)"
| "fillTarget cap (pp # pps) bytes target =
     (let bytes' = bytes + ppSize pp; target' = EndEpoch (Proposal (deal pp)) in
      if bytes' \<ge> cap then (target', True) else fillTarget cap pps bytes' target')"

definition calcTargetExpiration :: "inputEnv \<Rightarrow> 64 word \<Rightarrow> SealingConfig \<Rightarrow> Sealing \<Rightarrow> (string, int \<times> int) outcome" where
  "calcTargetExpiration env ssize cfg m =
     (let candidates = sort_by (\<lambda>a b. EndEpoch (Proposal (deal a)) < EndEpoch (Proposal (deal b))) (filter (\<lambda>p. \<not> assigned p) (map snd (pendingPieces m)));
          (target0, full) = fillTarget (unpadded (pieces env) ssize) candidates 0 0 in
      bindO (wrapE ''getting current epoch'' (ChainHead env)) (\<lambda>height.
        let (minDur, maxDur) = DealDurationBounds env;
            (min0, target1) = (if full then (0, target0) else (height + minDur, height + maxDur));
            min1 = (case candidates of [] \<Rightarrow> min0 | c # _ \<Rightarrow> if EndEpoch (Proposal (deal c)) > min0 then EndEpoch (Proposal (deal c)) else min0);
            userMin = sint (MinUpgradeSectorExpiration cfg) + height;
            userTarget = sint (MinTargetUpgradeSectorExpiration cfg) + height
        in Ok (if userMin > min1 then userMin else min1, if userTarget > target1 then userTarget else target1)))"

record best =
  candidate :: nat
  bestExpiration :: int
  bestPledge :: int

definition slowChecks :: "inputEnv \<Rightarrow> nat \<Rightarrow> bool" where
  "slowChecks env n = (case sectorActive env n of Ok active \<Rightarrow> active | _ \<Rightarrow> False)"

fun upgradeLoop :: "inputEnv \<Rightarrow> int \<Rightarrow> nat list \<Rightarrow> memo \<Rightarrow> best \<Rightarrow> (string, memo \<times> best) outcome" where
  "upgradeLoop env target [] memo b = Ok (memo, b)"
| "upgradeLoop env target (s # ss) memo b =
     (case getExpirationCached env s memo of
        (memo', Panic) \<Rightarrow> Panic
      | (memo', Err e) \<Rightarrow> upgradeLoop env target ss memo' b
      | (memo', Ok (expiration, pledge)) \<Rightarrow>
          let b' = \<lparr>candidate = s, bestExpiration = expiration, bestPledge = pledge\<rparr> in
          if bestExpiration b < target then
            upgradeLoop env target ss memo' (if expiration > bestExpiration b \<and> slowChecks env s then b' else b)
          else
            upgradeLoop env target ss memo' (if expiration \<ge> target \<and> pledge < bestPledge b \<and> slowChecks env s then b' else b))"

definition maybeUpgradeSector :: "inputEnv \<Rightarrow> int \<Rightarrow> SealingConfig \<Rightarrow> memo \<Rightarrow> Sealing \<Rightarrow> bool handled" where
  "maybeUpgradeSector env sp cfg memo m =
     (if available m = [] then (m, Ok False)
      else
        bindS (m, wrapE ''getting sector size'' (SectorSize (pieces env) sp)) (\<lambda>m ssize.
        bindS (m, wrapE ''calculating min target expiration'' (calcTargetExpiration env ssize cfg m)) (\<lambda>m (minExp, target).
        bindS (m, upgradeLoop env target (available m) memo \<lparr>candidate = 0, bestExpiration = 0, bestPledge = TotalFilecoinInt\<rparr>) (\<lambda>m (memo', b).
          if bestExpiration b < minExp then (m, Ok False)
          else
            bindS (sendEvent (pieces env) (candidate b) (Mut (Snap SectorStartCCUpdate))
                (m\<lparr>available := removeAll (candidate b) (available m), nextDealSector := Some (candidate b)\<rparr>)) (\<lambda>m _. (m, Ok True))))))"

section \<open>New sectors\<close>

definition createSector :: "'b numEnv \<Rightarrow> inputEnv \<Rightarrow> SealingConfig \<Rightarrow> Sealing \<Rightarrow> nat handled" where
  "createSector nenv env cfg m =
     (case NextSectorNumber nenv (store m) of (ds', r) \<Rightarrow>
      bindS (m\<lparr>store := ds'\<rparr>, wrapE ''getting sector number'' r) (\<lambda>m sid.
        case NewSector env sid of
          Some e \<Rightarrow> (m, Err (''initializing sector: '' @ e))
        | None \<Rightarrow> (m\<lparr>stats := fst (updateSector cfg (actorID env, sid) UndefinedSectorState (stats m))\<rparr>, Ok sid)))"

definition maxUpgrading :: "SealingConfig \<Rightarrow> 64 word" where
  "maxUpgrading cfg = (if MaxUpgradingSectors cfg > 0 then MaxUpgradingSectors cfg else MaxSealingSectorsForDeals cfg)"

definition canCreate :: "SealingConfig \<Rightarrow> SectorStats \<Rightarrow> bool" where
  "canCreate cfg ss \<longleftrightarrow> MakeNewSectorForDeals cfg \<and> \<not> (MaxSealingSectorsForDeals cfg > 0 \<and> curSealing ss \<ge> MaxSealingSectorsForDeals cfg)"

definition canUpgrade :: "SealingConfig \<Rightarrow> SectorStats \<Rightarrow> bool" where
  "canUpgrade cfg ss \<longleftrightarrow> \<not> (maxUpgrading cfg > 0 \<and> curSealing ss \<ge> maxUpgrading cfg)"

definition createDealSector :: "'b numEnv \<Rightarrow> inputEnv \<Rightarrow> int \<Rightarrow> SealingConfig \<Rightarrow> Sealing \<Rightarrow> unit handled" where
  "createDealSector nenv env sp cfg m =
     bindS (createSector nenv env cfg m) (\<lambda>m sid.
       sendEvent (pieces env) sid (Mut (Seal (SectorStart sid sp))) (m\<lparr>nextDealSector := Some sid\<rparr>))"

text \<open>The permission to create is decided before an upgrade is tried.\<close>

definition tryGetDealSector :: "'b numEnv \<Rightarrow> inputEnv \<Rightarrow> int \<Rightarrow> memo \<Rightarrow> Sealing \<Rightarrow> unit handled" where
  "tryGetDealSector nenv env sp memo m =
     (if nextDealSector m \<noteq> None then (m, Ok ())
      else
        bindS (m, wrapE ''getting storage config'' (getConfig env)) (\<lambda>m cfg.
          if MaxWaitDealsSectors cfg > 0 \<and> curStaging (stats m) \<ge> MaxWaitDealsSectors cfg then (m, Ok ())
          else
            let create = canCreate cfg (stats m);
                shouldUpgrade = canUpgrade cfg (stats m) \<and> (\<not> PreferNewSectorsForDeals cfg \<or> \<not> create) in
            bindS (if shouldUpgrade then maybeUpgradeSector env sp cfg memo m else (m, Ok False)) (\<lambda>m got.
              if got then (m, Ok ())
              else if create then createDealSector nenv env sp cfg m
              else (m, Ok ()))))"

text \<open>An error of \<open>tryGetDealSector\<close> is only logged.\<close>

definition updateInput :: "'b numEnv \<Rightarrow> inputEnv \<Rightarrow> int \<Rightarrow> Sealing \<Rightarrow> unit handled" where
  "updateInput nenv env sp m =
     bindS (m, SectorSize (pieces env) sp) (\<lambda>m ssize.
     bindS (m, pieceMatches env ssize (openSectors m) (pendingPieces m) Map.empty) (\<lambda>m (memo, ms).
     bindS (m, assignLoop env ssize (sort_by match_less ms) (m, map fst (filter (\<lambda>(_, p). \<not> assigned p) (pendingPieces m)))) (\<lambda>_ (m, toAssign).
       if toAssign = [] then (m, Ok ())
       else case tryGetDealSector nenv env sp memo m of (m', Panic) \<Rightarrow> (m', Panic) | (m', _) \<Rightarrow> (m', Ok ()))))"

definition SectorMatchPendingPiecesToOpenSectors :: "'b numEnv \<Rightarrow> inputEnv \<Rightarrow> Sealing \<Rightarrow> unit handled" where
  "SectorMatchPendingPiecesToOpenSectors nenv env m =
     bindS (m, wrapE ''failed to get current seal proof'' (currentSealProof env)) (\<lambda>m sp. updateInput nenv env sp m)"

text \<open>An error of \<open>updateInput\<close> is only logged here too.\<close>

definition addPendingPiece :: "'b numEnv \<Rightarrow> inputEnv \<Rightarrow> string \<Rightarrow> 64 word \<Rightarrow> string \<Rightarrow> PieceDealInfo \<Rightarrow> int \<Rightarrow> Sealing \<Rightarrow> unit handled" where
  "addPendingPiece nenv env c s d dl sp m =
     (let pp = \<lparr>resp = None, ppSize = s, deal = dl, ppData = d, assigned = False\<rparr> in
      case updateInput nenv env sp (m\<lparr>pendingPieces := filter (\<lambda>(k, _). k \<noteq> c) (pendingPieces m) @ [(c, pp)]\<rparr>) of
        (m', Panic) \<Rightarrow> (m', Panic)
      | (m', _) \<Rightarrow> (m', Ok ()))"

text \<open>
  \<open>wait\<close> is what happens until the piece has an answer or the caller gives up, \<open>paddedSize\<close>
  the size of the padreader package and \<open>cidOf\<close> the identifier of a proposal.
\<close>

definition SectorAddPieceToAny :: "(64 word \<Rightarrow> 64 word) \<Rightarrow> (PieceDealInfo \<Rightarrow> (string, string) outcome) \<Rightarrow> (string \<Rightarrow> Sealing \<Rightarrow> pieceAcceptResp handled) \<Rightarrow>
    'b numEnv \<Rightarrow> inputEnv \<Rightarrow> 64 word \<Rightarrow> string \<Rightarrow> PieceDealInfo \<Rightarrow> Sealing \<Rightarrow> (nat \<times> 64 word) handled" where
  "SectorAddPieceToAny paddedSize cidOf wait nenv env s d dl m =
     (if paddedSize s \<noteq> s then (m, Err ''cannot allocate unpadded piece'')
      else
        bindS (m, wrapE ''getting current seal proof type'' (currentSealProof env)) (\<lambda>m sp.
        bindS (m, SectorSize (pieces env) sp) (\<lambda>m ssize.
          if s > unpadded (pieces env) ssize then (m, Err ''piece cannot fit into a sector'')
          else
            bindS (m, wrapE ''getting proposal CID'' (cidOf dl)) (\<lambda>m c.
            bindS (m, wrapE ''getting config'' (getConfig env)) (\<lambda>m cfg.
            bindS (m, wrapE ''couldnt get chain head'' (ChainHead env)) (\<lambda>m height.
              if height + StartEpochSealingBuffer cfg > StartEpoch (Proposal dl) then (m, Err ''current epoch has passed deal proposal start epoch'')
              else
                let place = (\<lambda>r. (sn r, padded (pieces env) (offset r)));
                    add = (\<lambda>m. bindS (addPendingPiece nenv env c s d dl sp m) (\<lambda>m _.
                      bindS (wait c m) (\<lambda>m r. (m, case err r of None \<Rightarrow> Ok (place r) | Some e \<Rightarrow> Err e)))) in
                if map_of (pendingPieces m) c = None then add m
                else bindS (wait c m) (\<lambda>m r. if err r = None then (m, Ok (place r)) else add m)))))))"

text \<open>A sector that is not on chain is again a nil pointer, but only its expiration is read.\<close>

definition MarkForUpgrade :: "(nat \<Rightarrow> (string, SectorInfo) outcome) \<Rightarrow> int \<Rightarrow> inputEnv \<Rightarrow> nat \<Rightarrow> Sealing \<Rightarrow> unit handled" where
  "MarkForUpgrade getSectorInfo dealMinDuration env n m =
     bindS (m, wrapE ''getting sector info'' (getSectorInfo n)) (\<lambda>m si.
       if State si \<noteq> Proving then (m, Err ''unable to snap-up sectors not in the Proving state'')
       else if hasDeals si then (m, Err ''not a committed-capacity sector, has deals'')
       else
         bindS (m, wrapE ''couldnt get chain head'' (ChainHead env)) (\<lambda>m height.
         bindS (m, wrapE ''failed to read sector on chain info'' (StateSectorGetInfo env n)) (\<lambda>m info.
           case sectorActive env n of
             Panic \<Rightarrow> (m, Panic)
           | Err e \<Rightarrow> (m, Err ''failed to check if sector is active'')
           | Ok active \<Rightarrow>
               if \<not> active then (m, Err ''cannot mark inactive sector for upgrade'')
               else case info of
                   None \<Rightarrow> (m, Panic)
                 | Some (expiration, _) \<Rightarrow>
                     if expiration - height < dealMinDuration then (m, Err ''pointless to upgrade sector'')
                     else sendEvent (pieces env) n (Mut (Snap SectorMarkForUpdate)) m)))"

definition PledgeSector :: "'b numEnv \<Rightarrow> inputEnv \<Rightarrow> Sealing \<Rightarrow> nat handled" where
  "PledgeSector nenv env m =
     bindS (m, wrapE ''getting config'' (getConfig env)) (\<lambda>m cfg.
       if MaxSealingSectors cfg > 0 \<and> curSealing (stats m) \<ge> MaxSealingSectors cfg then (m, Err ''too many sectors sealing'')
       else
         bindS (m, wrapE ''getting seal proof type'' (currentSealProof env)) (\<lambda>m spt.
         bindS (createSector nenv env cfg m) (\<lambda>m sid.
         bindS (sendEvent (pieces env) sid (Mut (Seal (SectorStartCC sid spt))) m) (\<lambda>m _. (m, Ok sid)))))"

definition SectorAbortUpgradeCall :: "inputEnv \<Rightarrow> nat \<Rightarrow> Sealing \<Rightarrow> unit handled" where
  "SectorAbortUpgradeCall env n m =
     sendEvent (pieces env) n (Mut (SnapRetry (SectorAbortUpgrade ''triggered by user''))) (m\<lparr>available := removeAll n (available m)\<rparr>)"

definition StartPackingSector :: "inputEnv \<Rightarrow> nat \<Rightarrow> Sealing \<Rightarrow> unit handled" where
  "StartPackingSector env n m = sendEvent (pieces env) n (Mut (Seal SectorStartPacking)) m"

section \<open>Waiting for deals\<close>

fun sealTimeLoop :: "int \<Rightarrow> int \<Rightarrow> int \<Rightarrow> int \<Rightarrow> SectorPiece list \<Rightarrow> int \<Rightarrow> int" where
  "sealTimeLoop now height buf blockTime [] sealTime = sealTime"
| "sealTimeLoop now height buf blockTime (p # ps) sealTime =
     sealTimeLoop now height buf blockTime ps
       (case DealInfo p of
          None \<Rightarrow> sealTime
        | Some d \<Rightarrow> let safe = now + (StartEpoch (Proposal d) - buf - height) * blockTime in if safe < sealTime then safe else sealTime)"

text \<open>Stopping a timer fails when it has fired or was stopped before.\<close>

definition maybeStartSealing :: "inputEnv \<Rightarrow> int \<Rightarrow> SectorInfo \<Rightarrow> 64 word \<Rightarrow> Sealing \<Rightarrow> bool handled" where
  "maybeStartSealing env now sector us m =
     (let n = SectorNumber sector;
          start = (\<lambda>m. bindS (sendEvent (pieces env) n (Mut (Seal SectorStartPacking)) m) (\<lambda>m _. (m, Ok True)));
          expired = (case timers m n of None \<Rightarrow> False | Some (fireAt, stopped) \<Rightarrow> stopped \<or> fireAt \<le> now);
          m1 = (case timers m n of None \<Rightarrow> m | Some (fireAt, stopped) \<Rightarrow> m\<lparr>timers := (timers m)(n \<mapsto> (fireAt, stopped \<or> now < fireAt))\<rparr>) in
      if expired then start m1
      else case SectorSize (pieces env) (SectorType sector) of
          Err e \<Rightarrow> (m1, Err ''getting sector size'')
        | Panic \<Rightarrow> (m1, Panic)
        | Ok ssize \<Rightarrow>
            if length (dealIDs sector) \<ge> getDealPerSectorLimit ssize then start m1
            else if padded (pieces env) us = ssize then start m1
            else if CreationTime sector = 0 then (m1, Ok False)
            else
              bindS (m1, wrapE ''getting storage config'' (getConfig env)) (\<lambda>m1 cfg.
              bindS (m1, wrapE ''API error getting head'' (ChainHead env)) (\<lambda>m1 height.
                let sealTime = sealTimeLoop now height (StartEpochSealingBuffer cfg) (1000000000 * BlockDelaySecs env) (Pieces sector)
                      (CreationTime sector * 1000000000 + WaitDealsDelay cfg) in
                if now > sealTime then start m1
                else (m1\<lparr>timers := (timers m1)(n \<mapsto> (sealTime, False))\<rparr>, Ok False))))"

definition handleWaitDeals :: "'b numEnv \<Rightarrow> inputEnv \<Rightarrow> int \<Rightarrow> SectorInfo \<Rightarrow> Sealing \<Rightarrow> unit handled" where
  "handleWaitDeals nenv env now sector m =
     (let n = SectorNumber sector; us = sum_list (existingPieceSizes (unpadded (pieces env)) sector);
          m0 = (if nextDealSector m = Some n then m\<lparr>nextDealSector := None\<rparr> else m) in
      if (case assignedPieces m0 n of None \<Rightarrow> False | Some cs \<Rightarrow> cs \<noteq> []) then
        sendEvent (pieces env) n (Mut (Seal SectorAddPiece)) m0
      else
        (case maybeStartSealing env now sector us m0 of
           (m1, Panic) \<Rightarrow> (m1, Panic)
         | (m1, Err e) \<Rightarrow> (m1\<lparr>openSectors := filter (\<lambda>(k, _). k \<noteq> n) (openSectors m1)\<rparr>, Err e)
         | (m1, Ok True) \<Rightarrow> (m1\<lparr>openSectors := filter (\<lambda>(k, _). k \<noteq> n) (openSectors m1)\<rparr>, Ok ())
         | (m1, Ok False) \<Rightarrow>
             let m2 = m1\<lparr>openSectors :=
                   (if map_of (openSectors m1) n = None then openSectors m1 @ [(n, \<lparr>used = us, number = n, ccUpdate = CCUpdate sector\<rparr>)]
                    else updSector n (\<lambda>s. s\<lparr>used := us\<rparr>) (openSectors m1))\<rparr> in
             case updateInput nenv env (SectorType sector) m2 of (m3, Panic) \<Rightarrow> (m3, Panic) | (m3, _) \<Rightarrow> (m3, Ok ())))"

section \<open>What is assigned\<close>

definition assignedTo :: "Sealing \<Rightarrow> nat \<Rightarrow> string list" where
  "assignedTo m n = (case assignedPieces m n of None \<Rightarrow> [] | Some cs \<Rightarrow> cs)"

text \<open>
  From \<open>m\<close> to \<open>m'\<close> the pieces of \<open>as\<close>, each once, went to the sectors given with them, which are
  open: waiting pieces that were not assigned and are now. Nothing else changed of the
  assignment of pieces, and no piece or open sector came or went.
\<close>

definition assigns :: "Sealing \<Rightarrow> Sealing \<Rightarrow> (nat \<times> string) list \<Rightarrow> bool" where
  "assigns m m' as \<longleftrightarrow>
     distinct (map snd as) \<and> (\<forall>n. assignedTo m' n = assignedTo m n @ map snd (filter (\<lambda>a. fst a = n) as)) \<and>
     map fst (openSectors m') = map fst (openSectors m) \<and> map fst (pendingPieces m') = map fst (pendingPieces m) \<and>
     (\<forall>a\<in>set as. map_of (openSectors m) (fst a) \<noteq> None \<and> (\<exists>pp. map_of (pendingPieces m) (snd a) = Some pp \<and> \<not> assigned pp)) \<and>
     (\<forall>c pp. map_of (pendingPieces m) c = Some pp \<longrightarrow>
        (\<exists>pp'. map_of (pendingPieces m') c = Some pp' \<and> (assigned pp' \<longleftrightarrow> assigned pp \<or> c \<in> snd ` set as)))"

text \<open>The fields that the assignment of pieces consists of.\<close>

definition sameInput :: "Sealing \<Rightarrow> Sealing \<Rightarrow> bool" where
  "sameInput m m' \<longleftrightarrow> openSectors m' = openSectors m \<and> pendingPieces m' = pendingPieces m \<and> assignedPieces m' = assignedPieces m"

lemma sameInput_refl [simp]: "sameInput m m"
  by (simp add: sameInput_def)

lemma assigns_none: "sameInput m m' \<Longrightarrow> assigns m m' []"
  by (simp add: assigns_def sameInput_def assignedTo_def)

lemma map_of_fst: "map fst xs = map fst ys \<Longrightarrow> map_of xs k = None \<longleftrightarrow> map_of ys k = None"
proof -
  assume "map fst xs = map fst ys"
  then have "set (map fst xs) = set (map fst ys)" by (rule arg_cong)
  then have "fst ` set xs = fst ` set ys" by (simp only: list.set_map)
  then show ?thesis by (simp only: map_of_eq_None_iff)
qed

lemma assignsD:
  assumes "assigns m m' as"
  shows "distinct (map snd as)" "assignedTo m' n = assignedTo m n @ map snd (filter (\<lambda>a. fst a = n) as)"
    "map fst (openSectors m') = map fst (openSectors m)" "map fst (pendingPieces m') = map fst (pendingPieces m)"
    "a \<in> set as \<Longrightarrow> map_of (openSectors m) (fst a) \<noteq> None"
    "a \<in> set as \<Longrightarrow> \<exists>pp. map_of (pendingPieces m) (snd a) = Some pp \<and> \<not> assigned pp"
    "map_of (pendingPieces m) c = Some pp \<Longrightarrow>
       \<exists>pp'. map_of (pendingPieces m') c = Some pp' \<and> (assigned pp' \<longleftrightarrow> assigned pp \<or> c \<in> snd ` set as)"
proof -
  note a = assms [unfolded assigns_def]
  show "distinct (map snd as)" "map fst (openSectors m') = map fst (openSectors m)" "map fst (pendingPieces m') = map fst (pendingPieces m)"
    "assignedTo m' n = assignedTo m n @ map snd (filter (\<lambda>a. fst a = n) as)" using a by iprover+
  show "map_of (openSectors m) (fst a) \<noteq> None" if "a \<in> set as" using a that by simp
  show "\<exists>pp. map_of (pendingPieces m) (snd a) = Some pp \<and> \<not> assigned pp" if "a \<in> set as" using a that by simp
  show "\<exists>pp'. map_of (pendingPieces m') c = Some pp' \<and> (assigned pp' \<longleftrightarrow> assigned pp \<or> c \<in> snd ` set as)"
    if "map_of (pendingPieces m) c = Some pp" using a that by iprover
qed

text \<open>A piece assigned in a second step was waiting before the first and not assigned by it.\<close>

lemma assigns_later:
  assumes "assigns m m1 as" "assigns m1 m2 bs" "a \<in> set bs"
  shows "map_of (openSectors m) (fst a) \<noteq> None" "\<exists>pp. map_of (pendingPieces m) (snd a) = Some pp \<and> \<not> assigned pp"
    "snd a \<notin> snd ` set as"
proof -
  show "map_of (openSectors m) (fst a) \<noteq> None"
    using assignsD(5) [OF assms(2,3)] map_of_fst [OF assignsD(3) [OF assms(1)]] by simp
  obtain pp1 where pp1: "map_of (pendingPieces m1) (snd a) = Some pp1" "\<not> assigned pp1" using assignsD(6) [OF assms(2,3)] by blast
  then have "map_of (pendingPieces m) (snd a) \<noteq> None" using map_of_fst [OF assignsD(4) [OF assms(1)], of "snd a"] by simp
  then obtain pp where pp: "map_of (pendingPieces m) (snd a) = Some pp" by blast
  from assignsD(7) [OF assms(1) this] pp1 have "\<not> assigned pp" "snd a \<notin> snd ` set as" by auto
  with pp show "\<exists>pp. map_of (pendingPieces m) (snd a) = Some pp \<and> \<not> assigned pp" "snd a \<notin> snd ` set as" by blast+
qed

lemma assigns_trans:
  assumes "assigns m m1 as" "assigns m1 m2 bs"
  shows "assigns m m2 (as @ bs)"
  unfolding assigns_def
proof (intro conjI allI impI ballI)
  have "x \<notin> snd ` set as" if "x \<in> snd ` set bs" for x
    using that by (rule imageE) (simp only: assigns_later(3) [OF assms] not_False_eq_True)
  then have "set (map snd as) \<inter> set (map snd bs) = {}" by auto
  then show "distinct (map snd (as @ bs))" using assignsD(1) [OF assms(1)] assignsD(1) [OF assms(2)] by simp
  show "assignedTo m2 n = assignedTo m n @ map snd (filter (\<lambda>a. fst a = n) (as @ bs))" for n
    using assignsD(2) [OF assms(1), of n] assignsD(2) [OF assms(2), of n] by simp
  show "map fst (openSectors m2) = map fst (openSectors m)" "map fst (pendingPieces m2) = map fst (pendingPieces m)"
    using assignsD(3,4) [OF assms(1)] assignsD(3,4) [OF assms(2)] by simp_all
  fix a
  assume "a \<in> set (as @ bs)"
  then have "a \<in> set as \<or> a \<in> set bs" by simp
  then show "map_of (openSectors m) (fst a) \<noteq> None"
    by (rule disjE) (erule assignsD(5) [OF assms(1)], erule assigns_later(1) [OF assms])
  from \<open>a \<in> set as \<or> a \<in> set bs\<close> show "\<exists>pp. map_of (pendingPieces m) (snd a) = Some pp \<and> \<not> assigned pp"
    by (rule disjE) (erule assignsD(6) [OF assms(1)], erule assigns_later(2) [OF assms])
next
  fix c pp
  assume "map_of (pendingPieces m) c = Some pp"
  from assignsD(7) [OF assms(1) this] obtain pp1 where
    p1: "map_of (pendingPieces m1) c = Some pp1" "assigned pp1 \<longleftrightarrow> assigned pp \<or> c \<in> snd ` set as" by blast
  from assignsD(7) [OF assms(2) p1(1)] p1(2)
  show "\<exists>pp2. map_of (pendingPieces m2) c = Some pp2 \<and> (assigned pp2 \<longleftrightarrow> assigned pp \<or> c \<in> snd ` set (as @ bs))" by auto
qed

lemma bindS_Ok [simp]: "bindS r f = (m', Ok c) \<longleftrightarrow> (\<exists>m a. r = (m, Ok a) \<and> f m a = (m', Ok c))"
  by (auto simp: bindS_def split: prod.splits outcome.splits)

lemma bindS_pure: "bindS (m, Ok a) f = f m a"
  by (simp add: bindS_def)

lemma sendEvent_same: "sendEvent env n evt m = (m', r) \<Longrightarrow> sameInput m m'"
  by (auto simp: sendEvent_def sameInput_def split: option.splits)

lemma map_of_updSector: "map_of (updSector n f os) k = (if k = n then map_option f (map_of os k) else map_of os k)"
  by (induction os) (auto simp: updSector_def)

lemma fst_upd [simp]: "map fst (updPiece c f ps) = map fst ps" "map fst (updSector n g os) = map fst os"
  by (auto simp: updPiece_def updSector_def)

lemma accepted_fields:
  "accepted c r m = Ok m' \<Longrightarrow> openSectors m' = openSectors m \<and> assignedPieces m' = assignedPieces m"
  by (auto simp: accepted_def respond_def split: option.splits if_splits)

lemma afterAccept:
  assumes "(case r0 of Err e \<Rightarrow> accepted c (rr e) m0 | Ok _ \<Rightarrow> Ok m0 | Panic \<Rightarrow> Panic) = Ok m1"
  shows "openSectors m1 = openSectors m0" "assignedPieces m1 = assignedPieces m0" "map fst (pendingPieces m1) = map fst (pendingPieces m0)"
    "map_option assigned (map_of (pendingPieces m1) k) = map_option assigned (map_of (pendingPieces m0) k)"
proof -
  consider "m1 = m0" | e where "accepted c (rr e) m0 = Ok m1" using assms by (cases r0) auto
  then have "openSectors m1 = openSectors m0 \<and> assignedPieces m1 = assignedPieces m0 \<and> map fst (pendingPieces m1) = map fst (pendingPieces m0) \<and>
    map_option assigned (map_of (pendingPieces m1) k) = map_option assigned (map_of (pendingPieces m0) k)"
  proof cases
    case (2 e)
    from accepted_fields [OF 2] accepted_Ok(3) [OF 2] show ?thesis
      by (cases "map_of (pendingPieces m0) k") (auto simp: map_of_updPiece)
  qed simp
  then show "openSectors m1 = openSectors m0" "assignedPieces m1 = assignedPieces m0" "map fst (pendingPieces m1) = map fst (pendingPieces m0)"
    "map_option assigned (map_of (pendingPieces m1) k) = map_option assigned (map_of (pendingPieces m0) k)" by blast+
qed

text \<open>The case of a match that is used.\<close>

lemma assign_one:
  assumes pp: "map_of (pendingPieces m) c = Some pp" "\<not> assigned pp" and os: "map_of (openSectors m) n \<noteq> None"
    and m1: "openSectors m1 = openSectors m" "assignedPieces m1 = (assignedPieces m)(n \<mapsto> assignedTo m n @ [c])"
      "map fst (pendingPieces m1) = map fst (pendingPieces m)"
      "\<And>k. map_option assigned (map_of (pendingPieces m1) k) = map_option assigned (map_of (pendingPieces m) k)"
    and m': "openSectors m' = updSector n f (openSectors m1)" "assignedPieces m' = assignedPieces m1"
      "pendingPieces m' = updPiece c (\<lambda>p. p\<lparr>assigned := True\<rparr>) (pendingPieces m1)"
  shows "assigns m m' [(n, c)]"
  unfolding assigns_def
proof (intro conjI allI impI)
  show "assignedTo m' k = assignedTo m k @ map snd (filter (\<lambda>a. fst a = k) [(n, c)])" for k by (simp add: assignedTo_def m' m1)
  show "\<exists>q'. map_of (pendingPieces m') k = Some q' \<and> (assigned q' \<longleftrightarrow> assigned q \<or> k \<in> snd ` set [(n, c)])"
    if "map_of (pendingPieces m) k = Some q" for k q
  proof -
    from m1(4) [of k] that obtain q1 where "map_of (pendingPieces m1) k = Some q1" "assigned q1 = assigned q" by auto
    then show ?thesis by (auto simp: m' map_of_updPiece)
  qed
qed (use pp os in \<open>simp_all add: m' m1\<close>)

lemma assignMatch_assigns:
  assumes "assignMatch env ssize mt (m, ta) = Ok (m', ta')"
  shows "\<exists>as. assigns m m' as"
proof -
  let ?n = "mtSector mt" and ?c = "mtDeal mt"
  obtain pp where pp: "map_of (pendingPieces m) ?c = Some pp" using assms by (cases "map_of (pendingPieces m) ?c") (auto simp: assignMatch_def)
  show ?thesis
  proof (cases "m' = m")
    case True
    then show ?thesis using assigns_none [of m m] by auto
  next
    case False
    have na: "\<not> assigned pp" using False assms pp by (auto simp: assignMatch_def)
    obtain os where os: "map_of (openSectors m) ?n = Some os" "\<not> mtSize mt > unpadded (pieces env) ssize - used os"
      using False assms pp na by (cases "map_of (openSectors m) ?n") (auto simp: assignMatch_def split: if_splits)
    obtain m0 r0 where acc: "maybeAccept env ?n ?c m = (m0, r0)" by (cases "maybeAccept env ?n ?c m")
    have m0: "openSectors m0 = openSectors m" "pendingPieces m0 = pendingPieces m" "assignedPieces m0 = (assignedPieces m)(?n \<mapsto> assignedTo m ?n @ [?c])"
      using sendEvent_same [OF acc [unfolded maybeAccept_def]] by (auto simp: sameInput_def assignedTo_def)
    from assms pp na os acc obtain m1 where
      m1: "(case r0 of Err e \<Rightarrow> accepted ?c \<lparr>sn = ?n, offset = 0, err = Some e\<rparr> m0 | Ok _ \<Rightarrow> Ok m0 | Panic \<Rightarrow> Panic) = Ok m1"
      and m': "m' = m1\<lparr>openSectors := updSector ?n (\<lambda>s. s\<lparr>used := used s + (mtPadding mt + mtSize mt)\<rparr>) (openSectors m1),
          pendingPieces := updPiece ?c (\<lambda>p. p\<lparr>assigned := True\<rparr>) (pendingPieces m1)\<rparr>"
      by (auto simp: assignMatch_def bindO_eq_Ok)
    have "assigns m m' [(?n, ?c)]"
      by (rule assign_one [OF pp na, where ?m1.0 = m1 and f = "\<lambda>s. s\<lparr>used := used s + (mtPadding mt + mtSize mt)\<rparr>"])
        (simp_all add: m' afterAccept [OF m1] m0 os)
    then show ?thesis ..
  qed
qed

lemma assignLoop_assigns:
  "assignLoop env ssize mts (m, ta) = Ok (m', ta') \<Longrightarrow> \<exists>as. assigns m m' as"
proof (induction mts arbitrary: m ta)
  case Nil
  then show ?case using assigns_none [of m m] by auto
next
  case (Cons mt mts)
  then obtain m1 ta1 where "assignMatch env ssize mt (m, ta) = Ok (m1, ta1)" "assignLoop env ssize mts (m1, ta1) = Ok (m', ta')"
    by (auto simp: bindO_eq_Ok)
  from assignMatch_assigns [OF this(1)] Cons.IH [OF this(2)] obtain as bs where "assigns m m1 as" "assigns m1 m' bs" by blast
  from assigns_trans [OF this] show ?case ..
qed

text \<open>Looking for another sector does not touch what is assigned.\<close>

lemma bindS_same:
  "sameInput m (fst r) \<Longrightarrow> (\<And>m1 a. sameInput m m1 \<Longrightarrow> sameInput m (fst (f m1 a))) \<Longrightarrow> sameInput m (fst (bindS r f))"
  by (auto simp: bindS_def split: prod.splits outcome.splits)

lemma sendEvent_keeps: "sameInput m m1 \<Longrightarrow> sameInput m (fst (sendEvent env n evt m1))"
  by (auto simp: sendEvent_def sameInput_def split: option.splits)

lemma createDealSector_same: "sameInput m m1 \<Longrightarrow> sameInput m (fst (createDealSector nenv env sp cfg m1))"
  unfolding createDealSector_def
proof (rule bindS_same)
  show "sameInput m (fst (createSector nenv env cfg m1))" if "sameInput m m1"
    using that by (auto simp: createSector_def bindS_def sameInput_def split: prod.splits outcome.splits option.splits)
  show "sameInput m (fst (sendEvent (pieces env) sid (Mut (Seal (SectorStart sid sp))) (m2\<lparr>nextDealSector := Some sid\<rparr>)))"
    if "sameInput m m2" for m2 sid by (rule sendEvent_keeps) (use that in \<open>simp add: sameInput_def\<close>)
qed

lemma maybeUpgradeSector_same: "sameInput m m1 \<Longrightarrow> sameInput m (fst (maybeUpgradeSector env sp cfg memo m1))"
proof -
  assume m1: "sameInput m m1"
  have "sameInput m (fst (sendEvent (pieces env) n evt (m2\<lparr>available := xs, nextDealSector := y\<rparr>)))" if "sameInput m m2" for n evt m2 xs y
    by (rule sendEvent_keeps) (use that in \<open>simp add: sameInput_def\<close>)
  with m1 show ?thesis
    unfolding maybeUpgradeSector_def by (auto intro!: bindS_same split: prod.splits)
qed

lemma tryGetDealSector_same: "sameInput m (fst (tryGetDealSector nenv env sp memo m))"
  unfolding tryGetDealSector_def Let_def
  by (auto intro!: bindS_same createDealSector_same maybeUpgradeSector_same)

lemma tryGetDealSector_sameD: "tryGetDealSector nenv env sp memo m = (m', r) \<Longrightarrow> sameInput m m'"
  using tryGetDealSector_same [of m nenv env sp memo] by simp

section \<open>Which sectors are opened\<close>

lemma maybeUpgrade_cases:
  assumes "maybeUpgradeSector env sp cfg memo m = (m1, r)"
  shows "sent m1 = sent m \<and> r \<noteq> Ok True \<and> (r = Ok False \<longrightarrow> m1 = m) \<or>
    r = Ok True \<and> store m1 = store m \<and> (\<exists>n. sent m1 = sent m @ [(n, Mut (Snap SectorStartCCUpdate))] \<and> nextDealSector m1 = Some n)"
  using assms by (auto simp: maybeUpgradeSector_def bindS_def sendEvent_def split: if_splits prod.splits outcome.splits option.splits)

lemma createDealSector_cases:
  assumes "createDealSector nenv env sp cfg m = (m1, r)"
  shows "sent m1 = sent m \<or>
    (\<exists>n. sent m1 = sent m @ [(n, Mut (Seal (SectorStart n sp)))] \<and> nextDealSector m1 = Some n \<and> NextSectorNumber nenv (store m) = (store m1, Ok n))"
  using assms
  by (auto simp: createDealSector_def createSector_def bindS_def sendEvent_def split: prod.splits outcome.splits option.splits)

text \<open>If anything was sent, a new sector was created or an upgrade was found.\<close>

lemma upgraded_cases:
  assumes up: "(if sh then maybeUpgradeSector env sp cfg memo m else (m, Ok False)) = (m1, r1)"
    and run: "(m', r) = bindS (m1, r1) (\<lambda>m1 got. if got then (m1, Ok ()) else if cr then createDealSector nenv env sp cfg m1 else (m1, Ok ()))"
    and new: "sent m' \<noteq> sent m"
  shows "r1 = Ok False \<and> m1 = m \<and> cr \<and> createDealSector nenv env sp cfg m = (m', r) \<or>
    sh \<and> m' = m1 \<and> store m1 = store m \<and> (\<exists>n. sent m1 = sent m @ [(n, Mut (Snap SectorStartCCUpdate))] \<and> nextDealSector m1 = Some n)"
proof (cases sh)
  case True
  with up have "maybeUpgradeSector env sp cfg memo m = (m1, r1)" by simp
  from maybeUpgrade_cases [OF this] True run new show ?thesis by (cases r1) (auto simp: bindS_def split: if_splits)
next
  case False
  with up run new show ?thesis by (auto simp: bindS_def split: if_splits)
qed

section \<open>The best sector to upgrade\<close>

definition eligible :: "inputEnv \<Rightarrow> nat \<Rightarrow> int \<Rightarrow> int \<Rightarrow> bool" where
  "eligible env s e p \<longleftrightarrow> StateSectorGetInfo env s = Ok (Some (e, p)) \<and> slowChecks env s"

definition memoOk :: "inputEnv \<Rightarrow> memo \<Rightarrow> bool" where
  "memoOk env memo \<longleftrightarrow> (\<forall>n e. memo n = Some e \<longrightarrow> StateSectorGetInfo env n = Ok (Some e))"

text \<open>
  The best of the sectors seen: the longest lived while none reaches the target, the one with
  the least pledge among those that do afterwards.
\<close>

definition bestOf :: "inputEnv \<Rightarrow> int \<Rightarrow> nat set \<Rightarrow> best \<Rightarrow> bool" where
  "bestOf env target seen b \<longleftrightarrow>
     (bestExpiration b = 0 \<or> candidate b \<in> seen \<and> eligible env (candidate b) (bestExpiration b) (bestPledge b)) \<and>
     (bestExpiration b < target \<longrightarrow> (\<forall>s\<in>seen. \<forall>e p. eligible env s e p \<longrightarrow> e \<le> bestExpiration b)) \<and>
     (bestExpiration b \<ge> target \<longrightarrow> (\<forall>s\<in>seen. \<forall>e p. eligible env s e p \<longrightarrow> e \<ge> target \<longrightarrow> bestPledge b \<le> p))"

lemma getExpirationCached_memo:
  assumes "memoOk env memo" "getExpirationCached env n memo = (memo', r)"
  shows "memoOk env memo'" "r = Ok e \<longleftrightarrow> StateSectorGetInfo env n = Ok (Some e)"
  using assms by (auto simp: getExpirationCached_def memoOk_def split: option.splits outcome.splits if_splits)

lemma bestOf_step:
  assumes "bestOf env target seen b" "StateSectorGetInfo env s = Ok (Some (e, p))"
  defines "b' \<equiv> \<lparr>candidate = s, bestExpiration = e, bestPledge = p\<rparr>"
  shows "bestExpiration b < target \<Longrightarrow> bestOf env target (insert s seen) (if e > bestExpiration b \<and> slowChecks env s then b' else b)"
    "\<not> bestExpiration b < target \<Longrightarrow>
       bestOf env target (insert s seen) (if e \<ge> target \<and> p < bestPledge b \<and> slowChecks env s then b' else b)"
proof -
  have own: "eligible env s e' p' \<longleftrightarrow> e' = e \<and> p' = p \<and> slowChecks env s" for e' p' using assms(2) by (auto simp: eligible_def)
  have cand: "bestExpiration b = 0 \<or> candidate b \<in> insert s seen \<and> eligible env (candidate b) (bestExpiration b) (bestPledge b)"
    using assms(1) unfolding bestOf_def by blast
  show "bestOf env target (insert s seen) (if e > bestExpiration b \<and> slowChecks env s then b' else b)" if low: "bestExpiration b < target"
  proof -
    have seen: "e' \<le> bestExpiration b" if "t \<in> seen" "eligible env t e' p'" for t e' p' using assms(1) low that unfolding bestOf_def by blast
    show ?thesis
    proof (cases "e > bestExpiration b \<and> slowChecks env s")
      case True
      then show ?thesis using low seen by (fastforce simp: bestOf_def b'_def own)
    next
      case False
      then have "e' \<le> bestExpiration b" if "t \<in> insert s seen" "eligible env t e' p'" for t e' p' using seen that own by (cases "t = s") auto
      then have "\<forall>t\<in>insert s seen. \<forall>e' p'. eligible env t e' p' \<longrightarrow> e' \<le> bestExpiration b" by blast
      with cand low show ?thesis unfolding if_not_P [OF False] bestOf_def by (intro conjI impI) (assumption | simp)+
    qed
  qed
  show "bestOf env target (insert s seen) (if e \<ge> target \<and> p < bestPledge b \<and> slowChecks env s then b' else b)" if high: "\<not> bestExpiration b < target"
  proof -
    have seen: "bestPledge b \<le> p'" if "t \<in> seen" "eligible env t e' p'" "e' \<ge> target" for t e' p'
      using assms(1) high that unfolding bestOf_def by auto
    show ?thesis
    proof (cases "e \<ge> target \<and> p < bestPledge b \<and> slowChecks env s")
      case True
      then show ?thesis using high seen by (fastforce simp: bestOf_def b'_def own)
    next
      case False
      then have "bestPledge b \<le> p'" if "t \<in> insert s seen" "eligible env t e' p'" "e' \<ge> target" for t e' p' using seen that own by (cases "t = s") auto
      then have "\<forall>t\<in>insert s seen. \<forall>e' p'. eligible env t e' p' \<longrightarrow> e' \<ge> target \<longrightarrow> bestPledge b \<le> p'" by blast
      with cand high show ?thesis unfolding if_not_P [OF False] bestOf_def by (intro conjI impI) (assumption | simp)+
    qed
  qed
qed

lemma bestOf_skip:
  assumes "bestOf env target seen b" "\<And>e. StateSectorGetInfo env s \<noteq> Ok (Some e)"
  shows "bestOf env target (insert s seen) b"
  using assms unfolding bestOf_def eligible_def by auto

lemma upgradeLoop_best:
  assumes "memoOk env memo" "bestOf env target seen b" "upgradeLoop env target ss memo b = Ok (memo', b')"
  shows "bestOf env target (seen \<union> set ss) b'"
  using assms
proof (induction ss arbitrary: memo seen b)
  case (Cons s ss)
  obtain memo1 r where g: "getExpirationCached env s memo = (memo1, r)" by (cases "getExpirationCached env s memo")
  note mem = getExpirationCached_memo [OF Cons.prems(1) g]
  show ?case
  proof (cases r)
    case (Ok ep)
    obtain e p where ep: "ep = (e, p)" by (cases ep)
    with Ok mem(2) have info: "StateSectorGetInfo env s = Ok (Some (e, p))" by blast
    note step = bestOf_step [OF Cons.prems(2) info]
    show ?thesis
    proof (cases "bestExpiration b < target")
      case True
      with Cons.IH [OF mem(1) step(1)] Cons.prems(3) g Ok ep show ?thesis by (simp add: Let_def)
    next
      case False
      with Cons.IH [OF mem(1) step(2)] Cons.prems(3) g Ok ep show ?thesis by (simp add: Let_def)
    qed
  next
    case (Err e)
    with mem(2) have "StateSectorGetInfo env s \<noteq> Ok (Some x)" for x by auto
    from Cons.IH [OF mem(1) bestOf_skip [OF Cons.prems(2) this]] Cons.prems(3) g Err show ?thesis by simp
  next
    case Panic
    with Cons.prems(3) g show ?thesis by simp
  qed
qed simp

section \<open>When sealing starts\<close>

lemma sealTimeLoop_least:
  "sealTimeLoop now height buf bt ps t \<le> t \<and>
   (\<forall>p\<in>set ps. \<forall>d. DealInfo p = Some d \<longrightarrow> sealTimeLoop now height buf bt ps t \<le> now + (StartEpoch (Proposal d) - buf - height) * bt)"
proof (induction ps arbitrary: t)
  case (Cons p ps)
  define t' where "t' = (case DealInfo p of None \<Rightarrow> t
    | Some d \<Rightarrow> let safe = now + (StartEpoch (Proposal d) - buf - height) * bt in if safe < t then safe else t)"
  have "t' \<le> t" "DealInfo p = Some d \<Longrightarrow> t' \<le> now + (StartEpoch (Proposal d) - buf - height) * bt" for d
    by (auto simp: t'_def Let_def split: option.splits)
  with Cons.IH [of t'] show ?case unfolding sealTimeLoop.simps(2) t'_def [symmetric] by fastforce
qed simp

section \<open>Properties\<close>

text \<open>
  C23: Matching the waiting pieces with the open sectors assigns every piece at most once, and
  only pieces that were waiting and sectors that were open: the list of each sector grows by the
  pieces that went to it, in order, a piece is marked assigned exactly if it was before or was
  given to a sector now, and neither a piece nor an open sector is lost, also when a new sector
  is asked for afterwards.
\<close>

theorem updateInput_assigns:
  assumes "updateInput nenv env sp m = (m', Ok ())"
  shows "\<exists>as. assigns m m' as"
proof -
  from assms obtain ssize ms m1 ta where
    loop: "assignLoop env ssize (sort_by match_less ms) (m, map fst (filter (\<lambda>(_, p). \<not> assigned p) (pendingPieces m))) = Ok (m1, ta)"
    and last: "sameInput m1 m'"
    unfolding updateInput_def by (auto split: if_splits prod.splits outcome.splits dest: tryGetDealSector_sameD)
  from assignLoop_assigns [OF loop] obtain as where "assigns m m1 as" ..
  from assigns_trans [OF this assigns_none [OF last]] show ?thesis by auto
qed

text \<open>
  C24: The search for a sector for deals starts at most one, and only if none is being started
  already and the sectors waiting for deals are below their limit: either a new sector, with
  the number the assigner gave for it, if new sectors may be made and the sealing sectors are
  below their limit, or an upgrade of a sector if the sealing sectors are below the limit for
  upgrades and new sectors are not preferred or not possible. The sector is remembered as the
  one being started.
\<close>

theorem tryGetDealSector_limits:
  assumes "tryGetDealSector nenv env sp memo m = (m', r)"
  shows "sent m' = sent m \<or>
    (\<exists>n evt cfg. sent m' = sent m @ [(n, evt)] \<and> nextDealSector m = None \<and> nextDealSector m' = Some n \<and> getConfig env = Ok cfg \<and>
       (MaxWaitDealsSectors cfg = 0 \<or> curStaging (stats m) < MaxWaitDealsSectors cfg) \<and>
       (evt = Mut (Seal (SectorStart n sp)) \<and> NextSectorNumber nenv (store m) = (store m', Ok n) \<and> MakeNewSectorForDeals cfg \<and>
          (MaxSealingSectorsForDeals cfg = 0 \<or> curSealing (stats m) < MaxSealingSectorsForDeals cfg) \<or>
        evt = Mut (Snap SectorStartCCUpdate) \<and> store m' = store m \<and>
          (maxUpgrading cfg = 0 \<or> curSealing (stats m) < maxUpgrading cfg) \<and>
          (\<not> PreferNewSectorsForDeals cfg \<or> \<not> canCreate cfg (stats m))))"
proof (cases "sent m' = sent m")
  case False
  then have none: "nextDealSector m = None" using assms by (auto simp: tryGetDealSector_def split: if_splits)
  obtain cfg where cfg: "getConfig env = Ok cfg" using assms False none
    by (cases "getConfig env") (auto simp: tryGetDealSector_def bindS_def wrapE_def)
  have wait: "MaxWaitDealsSectors cfg = 0 \<or> curStaging (stats m) < MaxWaitDealsSectors cfg"
    using assms False none cfg by (auto simp: tryGetDealSector_def bindS_def wrapE_def word_gt_0 split: if_splits)
  let ?should = "canUpgrade cfg (stats m) \<and> (\<not> PreferNewSectorsForDeals cfg \<or> \<not> canCreate cfg (stats m))"
  obtain m1 r1 where up: "(if ?should then maybeUpgradeSector env sp cfg memo m else (m, Ok False)) = (m1, r1)" by fastforce
  have run: "(m', r) = bindS (m1, r1) (\<lambda>m1 got. if got then (m1, Ok ()) else if canCreate cfg (stats m) then createDealSector nenv env sp cfg m1 else (m1, Ok ()))"
    unfolding up [symmetric] assms [symmetric] using none cfg wait by (simp add: tryGetDealSector_def bindS_pure wrapE_def Let_def) auto
  consider (new) "r1 = Ok False" "m1 = m" "canCreate cfg (stats m)" "createDealSector nenv env sp cfg m = (m', r)"
    | (old) n where ?should "m' = m1" "store m1 = store m" "sent m1 = sent m @ [(n, Mut (Snap SectorStartCCUpdate))]" "nextDealSector m1 = Some n"
    using upgraded_cases [OF up run False] by blast
  then show ?thesis
  proof cases
    case new
    with createDealSector_cases [OF new(4)] False none cfg wait show ?thesis
      by (auto simp: canCreate_def word_gt_0 not_le)
  next
    case old
    with none cfg wait show ?thesis by (auto simp: canUpgrade_def word_gt_0 not_le)
  qed
qed simp


text \<open>
  C25: A sector chosen for an upgrade was available and no longer is, is active on the chain, and
  lives at least to the minimum computed from the waiting pieces. While it lives shorter than
  the target no available active sector lives longer; once it reaches the target no available
  active sector that reaches it has a smaller pledge.
\<close>

theorem maybeUpgradeSector_best:
  assumes "memoOk env memo" "SectorSize (pieces env) sp = Ok ssize" "calcTargetExpiration env ssize cfg m = Ok (minExp, target)"
    and "0 < minExp" "maybeUpgradeSector env sp cfg memo m = (m', Ok True)"
  shows "\<exists>s e p. nextDealSector m' = Some s \<and> sent m' = sent m @ [(s, Mut (Snap SectorStartCCUpdate))] \<and>
    s \<in> set (available m) \<and> set (available m') = set (available m) - {s} \<and> eligible env s e p \<and> minExp \<le> e \<and>
    (\<forall>t\<in>set (available m). \<forall>e' p'. eligible env t e' p' \<longrightarrow> (e < target \<longrightarrow> e' \<le> e) \<and> (target \<le> e \<and> target \<le> e' \<longrightarrow> p \<le> p'))"
proof -
  let ?b = "\<lparr>candidate = 0, bestExpiration = 0, bestPledge = TotalFilecoinInt\<rparr>"
  from assms(2,3,5) obtain memo' b where loop: "upgradeLoop env target (available m) memo ?b = Ok (memo', b)"
    and b: "minExp \<le> bestExpiration b"
    and m': "sendEvent (pieces env) (candidate b) (Mut (Snap SectorStartCCUpdate))
        (m\<lparr>available := removeAll (candidate b) (available m), nextDealSector := Some (candidate b)\<rparr>) = (m', Ok ())"
    by (auto simp: maybeUpgradeSector_def wrapE_def split: if_splits)
  have "bestOf env target {} ?b" by (simp add: bestOf_def)
  from upgradeLoop_best [OF assms(1) this loop] have best: "bestOf env target (set (available m)) b" by simp
  show ?thesis
  proof (rule exI [of _ "candidate b"], rule exI [of _ "bestExpiration b"], rule exI [of _ "bestPledge b"], intro conjI)
    show "\<forall>t\<in>set (available m). \<forall>e' p'. eligible env t e' p' \<longrightarrow>
        (bestExpiration b < target \<longrightarrow> e' \<le> bestExpiration b) \<and> (target \<le> bestExpiration b \<and> target \<le> e' \<longrightarrow> bestPledge b \<le> p')"
      using best unfolding bestOf_def by blast
    show "candidate b \<in> set (available m)" "eligible env (candidate b) (bestExpiration b) (bestPledge b)"
      using best b assms(4) unfolding bestOf_def by auto
  qed (use b m' in \<open>auto simp: sendEvent_def split: option.splits\<close>)
qed


section \<open>Witnesses\<close>

definition demoInput :: inputEnv where
  "demoInput = \<lparr>pieces = demoEnv,
     StateSectorGetInfo = (\<lambda>n. if n = 3 then Ok (Some (100, 5)) else if n = 4 then Ok (Some (90, 2)) else Err ''not found''),
     StateMinerDeadlines = Ok 1, StateMinerPartitions = (\<lambda>_. Ok [\<lambda>_. Ok True]), ChainHead = Ok 10,
     getConfig = Ok SectorStats.demoSealing, NewSector = (\<lambda>_. None), DealDurationBounds = (20, 50), BlockDelaySecs = 30,
     StateMinerInfo = Ok 5, StateNetworkVersion = Ok 17, windowProof = (\<lambda>p. if p = 5 then Some KiB2 else None),
     StackedDrgV1 = (\<lambda>_. 0), StackedDrgV1_1 = (\<lambda>_. 5), actorID = 1000\<rparr>"

definition waiting :: "64 word \<Rightarrow> pendingPiece" where
  "waiting s = \<lparr>resp = None, ppSize = s, deal = demoDeal, ppData = ''data'', assigned = False\<rparr>"

text \<open>An open sector of 2048 bytes that holds one piece of 127, and three pieces for it.\<close>

definition crowd :: Sealing where
  "crowd = SectorPieces.demoSealing\<lparr>openSectors := [(1, \<lparr>used = 127, number = 1, ccUpdate = False\<rparr>)],
     pendingPieces := [(''a'', waiting 127), (''b'', waiting 1016), (''c'', waiting 1016)], assignedPieces := Map.empty\<rparr>"

definition crowded :: Sealing where
  "crowded = fst (updateInput bitmapEnv demoInput 3 crowd)"

lemma crowd_result:
  "(snd (updateInput bitmapEnv demoInput 3 crowd), assignedTo crowded 1, map_option used (map_of (openSectors crowded) 1)) =
     (Ok (), [''a'', ''b'', ''c''], Some 4064)"
proof -
  have "(let r = updateInput bitmapEnv demoInput 3 crowd in (snd r, assignedTo (fst r) 1, map_option used (map_of (openSectors (fst r)) 1))) =
      (Ok (), [''a'', ''b'', ''c''], Some 4064)" by code_simp
  then show ?thesis by (simp only: Let_def crowded_def)
qed

lemma crowd_run: "updateInput bitmapEnv demoInput 3 crowd = (crowded, Ok ())"
  using crowd_result by (simp add: crowded_def prod_eq_iff)


theorem updateInput_assigns_witness: "\<exists>as. assigns crowd crowded as"
  by (rule updateInput_assigns [OF crowd_run])

lemma fresh_sector: "length (sent (fst (tryGetDealSector bitmapEnv demoInput 3 Map.empty SectorPieces.demoSealing))) = 1"
  by code_simp

theorem tryGetDealSector_limits_witness:
  "\<exists>n. nextDealSector (fst (tryGetDealSector bitmapEnv demoInput 3 Map.empty SectorPieces.demoSealing)) = Some n"
proof -
  have "sent (fst (tryGetDealSector bitmapEnv demoInput 3 Map.empty SectorPieces.demoSealing)) \<noteq> sent SectorPieces.demoSealing"
    using fresh_sector by (auto simp: SectorPieces.demoSealing_def)
  then show ?thesis using tryGetDealSector_limits [OF prod.collapse [symmetric, of "tryGetDealSector bitmapEnv demoInput 3 Map.empty SectorPieces.demoSealing"]]
    by blast
qed

definition spare :: Sealing where
  "spare = SectorPieces.demoSealing\<lparr>available := [3, 4]\<rparr>"

lemma demo_target: "calcTargetExpiration demoInput 2048 SectorStats.demoSealing spare = Ok (30, 60)"
  by (simp add: calcTargetExpiration_def demoInput_def spare_def SectorPieces.demoSealing_def demoPending_def SectorStats.demoSealing_def
      wrapE_def sort_by_def)

lemma demo_upgrade: "snd (maybeUpgradeSector demoInput 3 SectorStats.demoSealing Map.empty spare) = Ok True"
  by code_simp

theorem maybeUpgradeSector_best_witness:
  "\<exists>s e p. nextDealSector (fst (maybeUpgradeSector demoInput 3 SectorStats.demoSealing Map.empty spare)) = Some s \<and> eligible demoInput s e p \<and> 30 \<le> e"
proof -
  have "memoOk demoInput Map.empty" "SectorSize (pieces demoInput) 3 = Ok 2048" by (simp_all add: memoOk_def demoInput_def demoEnv_def)
  moreover have "maybeUpgradeSector demoInput 3 SectorStats.demoSealing Map.empty spare =
      (fst (maybeUpgradeSector demoInput 3 SectorStats.demoSealing Map.empty spare), Ok True)" using demo_upgrade by (simp add: prod_eq_iff)
  ultimately show ?thesis using maybeUpgradeSector_best [OF _ _ demo_target] by fastforce
qed

definition soon :: SectorInfo where
  "soon = demoSector\<lparr>Pieces := demoAdded, CreationTime := 1\<rparr>"


end
