(* ===== verification/SectorDeals.thy ===== *)
theory SectorDeals
  imports SectorInput SectorRuns
begin

text \<open>
  The handlers that put deals into a sector together with the state machine that calls them: the
  event that a handler sends when it succeeds is one that the planner of the state it is called
  in knows, and the sector goes on from there.
\<close>

lemma addPiecesLoop_events:
  assumes "addPiecesLoop env sector ssize i cs off sizes new m = (m', Ok ())"
  shows "\<exists>e. sent m' = sent m @ [(SectorNumber sector, Mut (Seal e))] \<and> (isSectorPieceAdded e \<or> isSectorAddPieceFailed e)"
  using assms
proof (induction cs arbitrary: i off sizes new m)
  case Nil
  then show ?case by (auto simp: sendEvent_def split: option.splits)
next
  case (Cons c cs)
  let ?one = "\<exists>e. sent m' = sent m @ [(SectorNumber sector, Mut (Seal e))] \<and> (isSectorPieceAdded e \<or> isSectorAddPieceFailed e)"
  have failed: ?one if "addPieceFailed env sector c x e m = (m', Ok ())" for x e
    using that by (auto simp: addPieceFailed_def sendEvent_def dest: accepted_Ok(2) split: outcome.splits option.splits)
  have next': ?one if "accepted c r m = Ok m1" "addPiecesLoop env sector ssize i' cs off' sizes' new' m1 = (m', Ok ())" for r m1 i' off' sizes' new'
    using Cons.IH [OF that(2)] accepted_Ok(2) [OF that(1)] by simp
  show ?case using Cons.prems failed next' by (auto simp: Let_def split: option.splits if_splits outcome.splits prod.splits)
qed

lemma handleAddPiece_events:
  assumes "SectorPieces.handleAddPiece env sector m = (m', Ok ())"
  shows "\<exists>e. sent m' = sent m @ [(SectorNumber sector, Mut (Seal e))] \<and> (isSectorPieceAdded e \<or> isSectorAddPieceFailed e)"
  using assms
  by (auto simp: SectorPieces.handleAddPiece_def Let_def sendEvent_def dest!: addPiecesLoop_events split: outcome.splits option.splits)

lemma handlePacking_events:
  assumes "SectorPieces.handlePacking env sector m = (m', Ok ())"
  shows "(\<exists>fillers. sent m' = sent m @ [(SectorNumber sector, Mut (Seal (SectorPacked fillers)))]) \<or>
    State sector = SnapDealsPacking \<and> (\<exists>e. sent m' = sent m @ [(SectorNumber sector, Mut (SnapRetry (SectorAbortUpgrade e)))])"
  using assms
  by (auto simp: SectorPieces.handlePacking_def Let_def sendEvent_def dest!: refuseLoop_sent split: outcome.splits option.splits if_splits)

text \<open>The steps of a sector in the states that these handlers are called in.\<close>

inductive dealStep :: "SectorState \<Rightarrow> mutator \<Rightarrow> SectorState \<Rightarrow> bool" where
  "isSectorPieceAdded e \<Longrightarrow> dealStep SectorState.AddPiece (Seal e) WaitDeals"
| "isSectorPieceAdded e \<Longrightarrow> dealStep SnapDealsAddPiece (Seal e) SnapDealsWaitDeals"
| "isSectorAddPieceFailed e \<Longrightarrow> dealStep SectorState.AddPiece (Seal e) AddPieceFailed"
| "isSectorAddPieceFailed e \<Longrightarrow> dealStep SnapDealsAddPiece (Seal e) SnapDealsAddPieceFailed"
| "dealStep Packing (Seal (SectorPacked fillers)) GetTicket"
| "dealStep SnapDealsPacking (Seal (SectorPacked fillers)) UpdateReplica"
| "dealStep SnapDealsPacking (SnapRetry (SectorAbortUpgrade x)) AbortUpgrade"
| "dealStep AddPieceFailed (Seal SectorRetryWaitDeals) WaitDeals"
| "dealStep SnapDealsAddPieceFailed (Seal SectorRetryWaitDeals) SnapDealsWaitDeals"

lemma seal_cases:
  "isSectorPieceAdded e \<Longrightarrow> \<exists>ps. e = SectorPieceAdded ps" "isSectorAddPieceFailed e \<Longrightarrow> \<exists>x. e = SectorAddPieceFailed x"
  by (cases e; simp)+

lemma dealStep_stepsTo:
  assumes "dealStep s e s'"
  shows "stepsTo s e s'" "s' \<noteq> PackingFailed"
  using assms
  by (induction rule: dealStep.induct)
    (auto dest!: seal_cases simp: stepsTo_def fsmPlanners_def table_defs planOne_def row_defs applySeal_def applySnapRetry_def)

lemma dealStep_any:
  "s \<in> {SectorState.AddPiece, SnapDealsAddPiece} \<Longrightarrow> isSectorPieceAdded e \<or> isSectorAddPieceFailed e \<Longrightarrow> \<exists>s'. dealStep s (Seal e) s'"
  "s \<in> {Packing, SnapDealsPacking} \<Longrightarrow> \<exists>s'. dealStep s (Seal (SectorPacked fillers)) s'"
  "s \<in> {AddPieceFailed, SnapDealsAddPieceFailed} \<Longrightarrow> \<exists>s'. dealStep s (Seal SectorRetryWaitDeals) s'"
  by (blast intro: dealStep.intros)+

text \<open>
  C15: The handlers of deals and the state machine fit together. When the handler that adds
  pieces, the one that packs a sector or the one for a failed piece succeeds, in the plain or the
  upgrade path, it has sent exactly one event, to its own sector, and planning that event from
  the state the sector is in succeeds: the sector goes on to wait for deals, to sealing or the
  update of its replica, to the failure state for pieces or to the abort of the upgrade, and the
  handler of that state is next.
\<close>

theorem deal_events_planned:
  assumes "minerID penv \<noteq> None"
    and "State sector \<in> {SectorState.AddPiece, SnapDealsAddPiece} \<and> SectorPieces.handleAddPiece env sector m = (m', Ok ()) \<or>
      State sector \<in> {Packing, SnapDealsPacking} \<and> SectorPieces.handlePacking env sector m = (m', Ok ()) \<or>
      State sector \<in> {AddPieceFailed, SnapDealsAddPieceFailed} \<and> SectorPieces.handleAddPieceFailed env sector m = (m', Ok ())"
  shows "\<exists>e r s. sent m' = sent m @ [(SectorNumber sector, Mut e)] \<and> dealStep (State sector) e s \<and>
    Plan penv ss [Mut e] sector = Ok r \<and> PlanError r = None \<and> State (plan_result.NewSector r) = s \<and> NextHandler r = map_of handlers s"
proof -
  have "\<exists>e s. sent m' = sent m @ [(SectorNumber sector, Mut e)] \<and> dealStep (State sector) e s"
    using assms(2)
  proof (elim disjE conjE)
    assume st: "State sector \<in> {SectorState.AddPiece, SnapDealsAddPiece}" and "SectorPieces.handleAddPiece env sector m = (m', Ok ())"
    from handleAddPiece_events [OF this(2)] dealStep_any(1) [OF st] show ?thesis by blast
  next
    assume st: "State sector \<in> {Packing, SnapDealsPacking}" and "SectorPieces.handlePacking env sector m = (m', Ok ())"
    from handlePacking_events [OF this(2)] dealStep_any(2) [OF st] show ?thesis by (metis dealStep.intros(7))
  next
    assume st: "State sector \<in> {AddPieceFailed, SnapDealsAddPieceFailed}" and "SectorPieces.handleAddPieceFailed env sector m = (m', Ok ())"
    then have "sent m' = sent m @ [(SectorNumber sector, Mut (Seal SectorRetryWaitDeals))]"
      unfolding SectorPieces.handleAddPieceFailed_def sendEvent_def by (auto split: option.splits)
    with dealStep_any(3) [OF st] show ?thesis by blast
  qed
  then obtain e s where e: "sent m' = sent m @ [(SectorNumber sector, Mut e)]" "dealStep (State sector) e s" by blast
  from stepsTo_Plan [OF dealStep_stepsTo(1) [OF e(2)] assms(1) refl dealStep_stepsTo(2) [OF e(2)]] obtain r where
    "Plan penv ss [Mut e] sector = Ok r" "PlanError r = None" "State (plan_result.NewSector r) = s" "NextHandler r = map_of handlers s" by blast
  with e show ?thesis by blast
qed

section \<open>Witness\<close>

definition adding :: SectorInfo where
  "adding = demoSector\<lparr>State := SectorState.AddPiece\<rparr>"

lemma adding_ok: "snd (SectorPieces.handleAddPiece demoEnv adding SectorPieces.demoSealing) = Ok ()"
  by code_simp

theorem deal_events_planned_witness:
  "\<exists>e r. sent (fst (SectorPieces.handleAddPiece demoEnv adding SectorPieces.demoSealing)) = [(1, Mut e)] \<and>
     Plan demoPlanEnv newStats [Mut e] adding = Ok r \<and> PlanError r = None"
proof -
  have "SectorPieces.handleAddPiece demoEnv adding SectorPieces.demoSealing =
      (fst (SectorPieces.handleAddPiece demoEnv adding SectorPieces.demoSealing), Ok ())" using adding_ok by (simp add: prod_eq_iff)
  moreover have "State adding \<in> {SectorState.AddPiece, SnapDealsAddPiece}" "SectorNumber adding = 1" by (simp_all add: adding_def demoSector_def)
  moreover have "minerID demoPlanEnv \<noteq> None" by (simp add: demoPlanEnv_def)
  moreover have "sent SectorPieces.demoSealing = []" by (simp add: SectorPieces.demoSealing_def)
  ultimately show ?thesis
    using deal_events_planned [of demoPlanEnv adding demoEnv SectorPieces.demoSealing _ newStats] by (metis append_Nil)
qed

end
