(* ===== verification/DagRider.thy ===== *)
theory DagRider
  imports Prelude
begin

text \<open>
  The DAG-Rider consensus node of \<open>src/lib/DAG-Rider\<close>: vertices and their order
  (\<open>vertex.go\<close>), the stack and the queue (\<open>vertexstack.go\<close>, \<open>blockqueue.go\<close>), paths
  in the graph (\<open>dag.go\<close>), the node (\<open>node.go\<close>) and the delivery of a vertex
  (\<open>network.go\<close>). Pointers to vertices and blocks are addresses in explicit heaps; \<open>None\<close>,
  or an address that is not in the heap, is nil, and going through it panics. A Go map that was
  never made is \<open>None\<close>: reading it gives nothing, writing it panics. An address of the
  network is the string it wraps; how it is printed is the argument \<open>str\<close>. \<open>RBcast\<close> and
  \<open>ADeliver\<close> are empty in the source. The order in which Go runs through a map is an
  argument.
\<close>

section \<open>Vertices\<close>

definition F :: nat where "F = 1"

definition WaveSize :: int where "WaveSize = 4"

type_synonym vref = nat
type_synonym bref = nat
type_synonym printer = "string \<Rightarrow> string"

record Vertex =
  VRound :: int
  Source :: string
  VBlock :: "bref option"
  StrongEdges :: "vref list"
  WeakEdges :: "vref list"
  delivered :: bool

type_synonym heap = "vref \<rightharpoonup> Vertex"
type_synonym blocks = "bref \<rightharpoonup> string"

definition deref :: "heap \<Rightarrow> vref \<Rightarrow> (unit, Vertex) outcome" where
  "deref h p = (case h p of None \<Rightarrow> Panic | Some v \<Rightarrow> Ok v)"

text \<open>The pointer \<open>p\<close>, when it is not nil, given to what goes through it.\<close>

definition nonNil :: "nat option \<Rightarrow> (nat \<Rightarrow> (unit, 'a) outcome) \<Rightarrow> (unit, 'a) outcome" where
  "nonNil p f = (case p of None \<Rightarrow> Panic | Some q \<Rightarrow> f q)"

lemma nonNil_cong [fundef_cong]: "p = p' \<Longrightarrow> (\<And>q. p' = Some q \<Longrightarrow> f q = f' q) \<Longrightarrow> nonNil p f = nonNil p' f'"
  by (auto simp: nonNil_def split: option.splits)

lemma nonNil_simps [simp]: "nonNil None f = Panic" "nonNil (Some q) f = f q"
  by (simp_all add: nonNil_def)

text \<open>The sign that \<open>strings.Compare\<close> gives.\<close>

definition compareStrings :: "string \<Rightarrow> string \<Rightarrow> int" where
  "compareStrings a b = (if a = b then 0 else if a < b then -1 else 1)"

definition Cmp :: "printer \<Rightarrow> Vertex \<Rightarrow> Vertex \<Rightarrow> int" where
  "Cmp str v u =
     (if VRound v > VRound u then 1 else if VRound v < VRound u then -1
      else compareStrings (str (Source v)) (str (Source u)))"

definition AddEdge :: "Vertex \<Rightarrow> vref \<Rightarrow> Vertex" where
  "AddEdge v u = v\<lparr>StrongEdges := StrongEdges v @ [u]\<rparr>"

definition AddWeakEdge :: "Vertex \<Rightarrow> vref \<Rightarrow> Vertex" where
  "AddWeakEdge v u = v\<lparr>WeakEdges := WeakEdges v @ [u]\<rparr>"

definition IsDelivered :: "Vertex \<Rightarrow> bool" where
  "IsDelivered v = delivered v"

definition MarkDelivered :: "Vertex \<Rightarrow> Vertex" where
  "MarkDelivered v = v\<lparr>delivered := True\<rparr>"

section \<open>Stack and queue\<close>

definition stackPush :: "Vertex list \<Rightarrow> Vertex \<Rightarrow> Vertex list" where
  "stackPush st v = st @ [v]"

text \<open>The assignment \<open>*p = x\<close>.\<close>

definition assignTo :: "nat option \<Rightarrow> 'a \<Rightarrow> (nat \<rightharpoonup> 'a) \<Rightarrow> (unit, nat \<rightharpoonup> 'a) outcome" where
  "assignTo p x h = nonNil p (\<lambda>q. Ok (h(q \<mapsto> x)))"

text \<open>The named result of \<open>Pop\<close> starts as nil, and \<open>Pop\<close> assigns through it.\<close>

definition stackPop :: "heap \<Rightarrow> Vertex list \<Rightarrow> (unit, vref option \<times> heap \<times> Vertex list) outcome" where
  "stackPop h st =
     (let v = None in
      if length st = 0 then Err ()
      else bindO (assignTo v (st ! (length st - 1)) h) (\<lambda>h'. Ok (v, h', take (length st - 1) st)))"

definition stackFront :: "Vertex list \<Rightarrow> (unit, Vertex) outcome" where
  "stackFront st = (if length st = 0 then Err () else Ok (st ! (length st - 1)))"

definition queuePush :: "string list \<Rightarrow> string \<Rightarrow> string list" where
  "queuePush q b = q @ [b]"

definition queuePop :: "blocks \<Rightarrow> string list \<Rightarrow> (unit, bref option \<times> blocks \<times> string list) outcome" where
  "queuePop bs q =
     (let block = None in
      if q = [] then Err ()
      else bindO (assignTo block (hd q) bs) (\<lambda>bs'. Ok (block, bs', tl q)))"

definition queueFront :: "string list \<Rightarrow> (unit, string) outcome" where
  "queueFront q = (if q = [] then Err () else Ok (hd q))"

lemma pop_nonempty: "st \<noteq> [] \<Longrightarrow> stackPop h st = Panic" "q \<noteq> [] \<Longrightarrow> queuePop bs q = Panic"
  by (simp_all add: stackPop_def queuePop_def assignTo_def)

lemma stackPop_not_Ok [simp]: "stackPop h st \<noteq> Ok x"
  by (cases "st = []") (simp_all add: pop_nonempty, simp add: stackPop_def)

section \<open>The graph\<close>

type_synonym dag = "(int \<Rightarrow> vref list) option"

definition roundOf :: "dag \<Rightarrow> int \<Rightarrow> vref list" where
  "roundOf d r = (case d of None \<Rightarrow> [] | Some f \<Rightarrow> f r)"

fun existLoop :: "printer \<Rightarrow> heap \<Rightarrow> Vertex \<Rightarrow> vref list \<Rightarrow> (unit, bool) outcome" where
  "existLoop str h v [] = Ok False"
| "existLoop str h v (p # ps) =
     bindO (deref h p) (\<lambda>ver. if Cmp str v ver = 0 then Ok True else existLoop str h v ps)"

definition Exist :: "printer \<Rightarrow> heap \<Rightarrow> dag \<Rightarrow> Vertex \<Rightarrow> (unit, bool) outcome" where
  "Exist str h d v = existLoop str h v (roundOf d (VRound v))"

text \<open>
  The edges of one vertex: the answer if the goal is found, and the stack with the vertices
  still above the round of the goal. \<open>vis\<close> only ever holds the start, by its address.
\<close>

fun scanEdges :: "printer \<Rightarrow> heap \<Rightarrow> vref \<Rightarrow> Vertex \<Rightarrow> vref list \<Rightarrow> Vertex list \<Rightarrow> (unit, bool \<times> Vertex list) outcome" where
  "scanEdges str h start u [] st = Ok (False, st)"
| "scanEdges str h start u (p # ps) st =
     (if p = start then scanEdges str h start u ps st
      else bindO (deref h p) (\<lambda>to.
        if Cmp str u to = 0 then Ok (True, st)
        else scanEdges str h start u ps (if VRound to > VRound u then stackPush st to else st)))"

text \<open>The search; \<open>twice\<close> is the second pass over the strong edges that \<open>Path\<close> makes.\<close>

function searchLoop :: "printer \<Rightarrow> bool \<Rightarrow> heap \<Rightarrow> vref \<Rightarrow> Vertex \<Rightarrow> Vertex list \<Rightarrow> (unit, bool) outcome" where
  "searchLoop str twice h start u st =
     (if st = [] then Ok False
      else bindO (stackPop h st) (\<lambda>(p, h1, st1).
        nonNil p (\<lambda>q. bindO (deref h1 q) (\<lambda>cur.
          bindO (scanEdges str h1 start u (StrongEdges cur) st1) (\<lambda>(found, st2).
            if found then Ok True
            else if twice then
              bindO (scanEdges str h1 start u (StrongEdges cur) st2) (\<lambda>(found', st3).
                if found' then Ok True else searchLoop str twice h1 start u st3)
            else searchLoop str twice h1 start u st2)))))"
  by pat_completeness auto
termination by (relation "{}") auto

declare searchLoop.simps [simp del]

definition Path :: "printer \<Rightarrow> heap \<Rightarrow> dag \<Rightarrow> vref \<Rightarrow> vref \<Rightarrow> (unit, bool) outcome" where
  "Path str h d vp up =
     bindO (deref h vp) (\<lambda>v. bindO (Exist str h d v) (\<lambda>ev. if \<not> ev then Ok False else
     bindO (deref h up) (\<lambda>u. bindO (Exist str h d u) (\<lambda>eu. if \<not> eu then Ok False else
       if VRound v < VRound u then Ok False
       else if VRound v = VRound u then Ok (Cmp str v u = 0)
       else searchLoop str True h vp u (stackPush [] v)))))"

text \<open>
  \<open>StrongPath\<close> tries every strong edge again once its own search is exhausted, which the
  search never is: it starts with a vertex on the stack.
\<close>

lemma searchLoop_start: "searchLoop str twice h start u (stackPush [] v) = Panic"
  by (subst searchLoop.simps) (simp add: stackPush_def pop_nonempty)

function StrongPath :: "printer \<Rightarrow> heap \<Rightarrow> dag \<Rightarrow> vref \<Rightarrow> vref \<Rightarrow> (unit, bool) outcome"
  and strongEdgesLoop :: "printer \<Rightarrow> heap \<Rightarrow> dag \<Rightarrow> vref list \<Rightarrow> vref \<Rightarrow> (unit, bool) outcome" where
  "StrongPath str h d vp up =
     bindO (deref h vp) (\<lambda>v. bindO (Exist str h d v) (\<lambda>ev. if \<not> ev then Ok False else
     bindO (deref h up) (\<lambda>u. bindO (Exist str h d u) (\<lambda>eu. if \<not> eu then Ok False else
       if VRound v < VRound u then Ok False
       else if VRound v = VRound u then Ok (Cmp str v u = 0)
       else bindO (searchLoop str False h vp u (stackPush [] v)) (\<lambda>found.
         if found then Ok True else strongEdgesLoop str h d (StrongEdges v) up)))))"
| "strongEdgesLoop str h d [] up = Ok False"
| "strongEdgesLoop str h d (p # ps) up =
     bindO (StrongPath str h d p up) (\<lambda>found. if found then Ok True else strongEdgesLoop str h d ps up)"
  by pat_completeness auto
termination
  by (relation "measure (\<lambda>x. case x of Inl _ \<Rightarrow> 0 | Inr (str, h, d, es, up) \<Rightarrow> Suc (length es))")
    (auto simp: searchLoop_start)

declare StrongPath.simps [simp del]

section \<open>The node\<close>

record Node =
  dagRound :: dag
  blocksToPropose :: "string list"
  round :: int
  buffer :: "vref list option"
  decidedWave :: int
  deliveredVertices :: "vref list"
  leaderStack :: "Vertex list"

text \<open>The zero \<open>Node\<close>, the only one the package makes: its maps were never made.\<close>

definition newNode :: Node where
  "newNode = \<lparr>dagRound = None, blocksToPropose = [], round = 0, buffer = None, decidedWave = 0,
     deliveredVertices = [], leaderStack = []\<rparr>"

definition HasDelivered :: "Vertex \<Rightarrow> bool" where
  "HasDelivered v = IsDelivered v"

definition RDeliver :: "vref \<Rightarrow> int \<Rightarrow> string \<Rightarrow> heap \<Rightarrow> Node \<Rightarrow> (unit, heap \<times> Node) outcome" where
  "RDeliver vp r source h nd =
     bindO (deref h vp) (\<lambda>v.
       let h' = h(vp \<mapsto> v\<lparr>Source := source, VRound := r\<rparr>) in
       if length (StrongEdges v) \<ge> 2 * F + 1 then
         (case buffer nd of
            None \<Rightarrow> Panic
          | Some buf \<Rightarrow> Ok (h', nd\<lparr>buffer := Some (if vp \<in> set buf then buf else buf @ [vp])\<rparr>))
       else Ok (h', nd))"

definition ABcast :: "string \<Rightarrow> Node \<Rightarrow> Node" where
  "ABcast b nd = nd\<lparr>blocksToPropose := queuePush (blocksToPropose nd) b\<rparr>"

text \<open>The rounds from \<open>rd\<close> down to 1.\<close>

function weakRounds :: "int \<Rightarrow> int list" where
  "weakRounds rd = (if rd > 0 then rd # weakRounds (rd - 1) else [])"
  by pat_completeness auto
termination by (relation "measure nat") auto

declare weakRounds.simps [simp del]

fun weakLoop :: "printer \<Rightarrow> heap \<Rightarrow> dag \<Rightarrow> vref \<Rightarrow> vref list \<Rightarrow> (unit, heap) outcome" where
  "weakLoop str h d vp [] = Ok h"
| "weakLoop str h d vp (u # us) =
     bindO (Path str h d vp u) (\<lambda>reached.
       if reached then weakLoop str h d vp us
       else bindO (deref h vp) (\<lambda>v. weakLoop str (h(vp \<mapsto> AddWeakEdge v u)) d vp us))"

definition SetWeakEdges :: "printer \<Rightarrow> vref \<Rightarrow> int \<Rightarrow> heap \<Rightarrow> Node \<Rightarrow> (unit, heap) outcome" where
  "SetWeakEdges str vp r h nd =
     bindO (deref h vp) (\<lambda>v.
       weakLoop str (h(vp \<mapsto> v\<lparr>WeakEdges := []\<rparr>)) (dagRound nd) vp
         (concat (map (roundOf (dagRound nd)) (weakRounds (r - 2)))))"

text \<open>
  \<open>None\<close> is the wait for a block, which no later step of this node ends. The vertex of the
  result is nil when its block is assigned.
\<close>

definition CreateNewVertex :: "printer \<Rightarrow> int \<Rightarrow> heap \<Rightarrow> blocks \<Rightarrow> Node \<Rightarrow> (unit, vref option \<times> heap \<times> blocks \<times> Node) outcome option" where
  "CreateNewVertex str r h bs nd =
     (let vp = None in
      if blocksToPropose nd = [] then None
      else Some (case queuePop bs (blocksToPropose nd) of
          Ok (b, bs', q) \<Rightarrow>
            nonNil vp (\<lambda>p. bindO (deref h p) (\<lambda>v.
              let v' = foldl AddEdge (v\<lparr>VBlock := b\<rparr>) (roundOf (dagRound nd) (r - 1)) in
              bindO (SetWeakEdges str p r (h(p \<mapsto> v')) nd) (\<lambda>h'. Ok (vp, h', bs', nd\<lparr>blocksToPropose := q\<rparr>))))
        | Err e \<Rightarrow> Panic
        | Panic \<Rightarrow> Panic))"

definition AddVertex :: "heap \<Rightarrow> vref \<Rightarrow> Node \<Rightarrow> (unit, Node) outcome" where
  "AddVertex h vp nd =
     bindO (deref h vp) (\<lambda>v.
       case dagRound nd of
         None \<Rightarrow> Panic
       | Some f \<Rightarrow> Ok (nd\<lparr>dagRound := Some (f(VRound v := f (VRound v) @ [vp]))\<rparr>))"

fun verifyLoop :: "printer \<Rightarrow> heap \<Rightarrow> dag \<Rightarrow> vref list \<Rightarrow> (unit, bool) outcome" where
  "verifyLoop str h d [] = Ok True"
| "verifyLoop str h d (p # ps) =
     bindO (deref h p) (\<lambda>to.
       if VRound to \<le> 0 then Ok False
       else bindO (Exist str h d to) (\<lambda>e. if e then verifyLoop str h d ps else Ok False))"

definition VerifyEdges :: "printer \<Rightarrow> heap \<Rightarrow> Node \<Rightarrow> Vertex \<Rightarrow> (unit, bool) outcome" where
  "VerifyEdges str h nd v = verifyLoop str h (dagRound nd) (StrongEdges v)"

text \<open>The loop over the buffer, in the order of the keys given.\<close>

fun sweep :: "printer \<Rightarrow> heap \<Rightarrow> vref list \<Rightarrow> Node \<Rightarrow> (unit, Node) outcome" where
  "sweep str h [] nd = Ok nd"
| "sweep str h (vp # vps) nd =
     bindO (deref h vp) (\<lambda>v.
       if VRound v \<le> round nd then
         bindO (VerifyEdges str h nd v) (\<lambda>valid.
           if valid then
             bindO (AddVertex h vp nd) (\<lambda>nd'. sweep str h vps (nd'\<lparr>buffer := map_option (removeAll vp) (buffer nd')\<rparr>))
           else sweep str h vps nd)
       else sweep str h vps nd)"

text \<open>\<open>ChooseLeader\<close> is unfinished: it always names the empty address.\<close>

definition ChooseLeader :: "int \<Rightarrow> string" where
  "ChooseLeader w = []"

fun leaderLoop :: "heap \<Rightarrow> string \<Rightarrow> vref list \<Rightarrow> (unit, vref option) outcome" where
  "leaderLoop h leader [] = Ok None"
| "leaderLoop h leader (p # ps) =
     bindO (deref h p) (\<lambda>v. if Source v = leader then Ok (Some p) else leaderLoop h leader ps)"

definition GetWaveVertexLeader :: "heap \<Rightarrow> Node \<Rightarrow> int \<Rightarrow> (unit, vref option) outcome" where
  "GetWaveVertexLeader h nd w = leaderLoop h (ChooseLeader w) (roundOf (dagRound nd) ((w - 1) * WaveSize + 1))"

text \<open>The vertices of one leader to deliver, among those given, and their delivery.\<close>

fun reachLoop :: "printer \<Rightarrow> heap \<Rightarrow> dag \<Rightarrow> vref option \<Rightarrow> vref list \<Rightarrow> (unit, vref list) outcome" where
  "reachLoop str h d v [] = Ok []"
| "reachLoop str h d v (p # ps) =
     bindO (nonNil v (\<lambda>q. Path str h d q p)) (\<lambda>reached.
       if reached then
         bindO (deref h p) (\<lambda>vv.
           bindO (reachLoop str h d v ps) (\<lambda>rest. Ok (if HasDelivered vv then rest else p # rest)))
       else reachLoop str h d v ps)"

fun deliverLoop :: "vref list \<Rightarrow> heap \<Rightarrow> Node \<Rightarrow> (unit, heap \<times> Node) outcome" where
  "deliverLoop [] h nd = Ok (h, nd)"
| "deliverLoop (p # ps) h nd =
     bindO (deref h p) (\<lambda>vv.
       deliverLoop ps (h(p \<mapsto> MarkDelivered vv)) (nd\<lparr>deliveredVertices := deliveredVertices nd @ [p]\<rparr>))"

text \<open>\<open>rounds\<close> are the keys of the map of rounds in the order of the run through it.\<close>

function OrderVertices :: "printer \<Rightarrow> int list \<Rightarrow> heap \<Rightarrow> Node \<Rightarrow> (unit, heap \<times> Node) outcome" where
  "OrderVertices str rounds h nd =
     (if leaderStack nd = [] then Ok (h, nd)
      else case stackPop h (leaderStack nd) of
          Err e \<Rightarrow> Ok (h, nd)
        | Panic \<Rightarrow> Panic
        | Ok (v, h1, st) \<Rightarrow>
            bindO (reachLoop str h1 (dagRound nd) v
                (concat (map (\<lambda>r. if r = 0 then [] else roundOf (dagRound nd) r) rounds))) (\<lambda>vs.
              bindO (deliverLoop vs h1 (nd\<lparr>leaderStack := st\<rparr>)) (\<lambda>(h2, nd2).
                OrderVertices str rounds h2 nd2)))"
  by pat_completeness auto
termination by (relation "{}") auto

declare OrderVertices.simps [simp del]

fun countLoop :: "printer \<Rightarrow> heap \<Rightarrow> dag \<Rightarrow> vref \<Rightarrow> vref list \<Rightarrow> nat \<Rightarrow> (unit, nat) outcome" where
  "countLoop str h d vp [] cnt = Ok cnt"
| "countLoop str h d vp (q # qs) cnt =
     bindO (StrongPath str h d q vp) (\<lambda>b. countLoop str h d vp qs (if b then Suc cnt else cnt))"

fun leadersLoop :: "printer \<Rightarrow> heap \<Rightarrow> Node \<Rightarrow> int list \<Rightarrow> vref \<Rightarrow> Vertex list \<Rightarrow> (unit, Vertex list) outcome" where
  "leadersLoop str h nd [] vp st = Ok st"
| "leadersLoop str h nd (ww # ws) vp st =
     bindO (GetWaveVertexLeader h nd ww) (\<lambda>ldr.
       case ldr of
         None \<Rightarrow> leadersLoop str h nd ws vp st
       | Some vv \<Rightarrow>
           bindO (StrongPath str h (dagRound nd) vp vv) (\<lambda>b.
             if b then bindO (deref h vv) (\<lambda>x. leadersLoop str h nd ws vv (stackPush st x))
             else leadersLoop str h nd ws vp st))"

definition WaveReady :: "printer \<Rightarrow> int list \<Rightarrow> heap \<Rightarrow> Node \<Rightarrow> int \<Rightarrow> (unit, heap \<times> Node) outcome" where
  "WaveReady str rounds h nd w =
     bindO (GetWaveVertexLeader h nd w) (\<lambda>ldr.
       case ldr of
         None \<Rightarrow> Ok (h, nd)
       | Some vp \<Rightarrow>
           bindO (countLoop str h (dagRound nd) vp (roundOf (dagRound nd) (w * WaveSize)) 0) (\<lambda>cnt.
             if cnt \<le> 2 * F then Ok (h, nd)
             else bindO (deref h vp) (\<lambda>v.
               bindO (leadersLoop str h nd (rev [decidedWave nd + 1..w - 1]) vp (stackPush (leaderStack nd) v)) (\<lambda>st.
                 OrderVertices str rounds h (nd\<lparr>leaderStack := st, decidedWave := w\<rparr>)))))"

text \<open>
  One turn of \<open>DagConstruct\<close>, the buffer run through in the order given: the wave whose
  evaluation is started beside it, and the end of the turn, \<open>None\<close> when it waits for a
  block.
\<close>

definition dagTurn ::
  "printer \<Rightarrow> vref list \<Rightarrow> heap \<Rightarrow> blocks \<Rightarrow> Node \<Rightarrow> (unit, int option \<times> (unit, heap \<times> blocks \<times> Node) outcome option) outcome" where
  "dagTurn str buf h bs nd =
     bindO (sweep str h buf nd) (\<lambda>nd1.
       if length (roundOf (dagRound nd1) (round nd1)) \<ge> 2 * F + 1 then
         let nd2 = nd1\<lparr>round := round nd1 + 1\<rparr> in
         Ok (if round nd1 mod WaveSize = 0 then Some (round nd1 div WaveSize) else None,
             map_option (\<lambda>r. bindO r (\<lambda>(v, h', bs', nd3). Ok (h', bs', nd3))) (CreateNewVertex str (round nd2) h bs nd2))
       else Ok (None, Some (Ok (h, bs, nd1))))"

section \<open>Lemmas\<close>

lemma Cmp_self [simp]: "Cmp str v v = 0"
  by (simp add: Cmp_def compareStrings_def)

lemma existLoop_True:
  "existLoop str h v ps = Ok True \<longleftrightarrow> (\<exists>qs p rs ver. ps = qs @ p # rs \<and> h p = Some ver \<and> Cmp str v ver = 0 \<and>
     (\<forall>q\<in>set qs. \<exists>x. h q = Some x \<and> Cmp str v x \<noteq> 0))" (is "?l \<longleftrightarrow> ?r")
proof (induction ps)
  case (Cons p ps)
  show ?case
  proof (cases "h p")
    case None
    then show ?thesis by (auto simp: deref_def Cons_eq_append_conv)
  next
    case (Some ver)
    show ?thesis
    proof (cases "Cmp str v ver = 0")
      case True
      with Some show ?thesis by (auto simp: deref_def intro!: exI [of _ "[]"])
    next
      case False
      with Some Cons.IH show ?thesis
        by (auto simp: deref_def Cons_eq_append_conv) (metis Cons_eq_appendI set_ConsD)+
    qed
  qed
qed simp

text \<open>
  Every vertex of the graph stands in its own round, and each of its strong edges leads to a
  vertex of a positive round that is in the graph.
\<close>

definition inDag :: "printer \<Rightarrow> heap \<Rightarrow> dag \<Rightarrow> Vertex \<Rightarrow> bool" where
  "inDag str h d to \<longleftrightarrow> (\<exists>p\<in>set (roundOf d (VRound to)). \<exists>ver. h p = Some ver \<and> Cmp str to ver = 0)"

definition closed :: "printer \<Rightarrow> heap \<Rightarrow> dag \<Rightarrow> bool" where
  "closed str h d \<longleftrightarrow> (\<forall>r. \<forall>p\<in>set (roundOf d r). \<exists>v. h p = Some v \<and> VRound v = r \<and>
     (\<forall>q\<in>set (StrongEdges v). \<exists>to. h q = Some to \<and> 0 < VRound to \<and> inDag str h d to))"

lemma verifyLoop_True:
  "verifyLoop str h d ps = Ok True \<Longrightarrow> \<forall>q\<in>set ps. \<exists>to. h q = Some to \<and> 0 < VRound to \<and> inDag str h d to"
  by (induction ps) (auto simp: bindO_eq_Ok deref_def Exist_def existLoop_True inDag_def split: if_splits option.splits)

lemma inDag_mono:
  "inDag str h d to \<Longrightarrow> (\<And>r. set (roundOf d r) \<subseteq> set (roundOf d' r)) \<Longrightarrow> inDag str h d' to"
  unfolding inDag_def by blast

lemma AddVertex_round:
  assumes "AddVertex h vp nd = Ok nd'" "h vp = Some v"
  shows "roundOf (dagRound nd') r = roundOf (dagRound nd) r @ (if r = VRound v then [vp] else [])"
    "round nd' = round nd"
  using assms by (auto simp: AddVertex_def deref_def roundOf_def split: option.splits)

lemma closed_AddVertex:
  assumes "closed str h (dagRound nd)" "VerifyEdges str h nd v = Ok True" "h vp = Some v" "AddVertex h vp nd = Ok nd'"
  shows "closed str h (dagRound nd')"
proof -
  have mono: "set (roundOf (dagRound nd) r) \<subseteq> set (roundOf (dagRound nd') r)" for r
    using AddVertex_round(1) [OF assms(4,3)] by simp
  have new: "\<exists>to. h q = Some to \<and> 0 < VRound to \<and> inDag str h (dagRound nd') to" if "q \<in> set (StrongEdges v)" for q
    using verifyLoop_True [of str h "dagRound nd" "StrongEdges v"] assms(2) that inDag_mono mono
    unfolding VerifyEdges_def by meson
  have old: "\<exists>v. h p = Some v \<and> VRound v = r \<and>
      (\<forall>q\<in>set (StrongEdges v). \<exists>to. h q = Some to \<and> 0 < VRound to \<and> inDag str h (dagRound nd') to)"
    if "p \<in> set (roundOf (dagRound nd) r)" for p r
    using assms(1) that inDag_mono mono unfolding closed_def by meson
  show ?thesis
    unfolding closed_def AddVertex_round(1) [OF assms(4,3)] using new old assms(3) by auto
qed

lemma existLoop_member:
  "\<forall>q\<in>set ps. h q \<noteq> None \<Longrightarrow> p \<in> set ps \<Longrightarrow> h p = Some v \<Longrightarrow> existLoop str h v ps = Ok True"
  by (induction ps) (auto simp: deref_def)

lemma closed_Exist:
  assumes "closed str h d" "p \<in> set (roundOf d r)"
  obtains v where "h p = Some v" "VRound v = r" "Exist str h d v = Ok True"
proof -
  from assms obtain v where v: "h p = Some v" "VRound v = r" unfolding closed_def by blast
  have "\<forall>q\<in>set (roundOf d r). h q \<noteq> None" using assms(1) unfolding closed_def by blast
  then have "Exist str h d v = Ok True" using assms(2) v by (simp add: Exist_def existLoop_member)
  with v that show ?thesis by blast
qed

lemma StrongPath_Panic:
  assumes "closed str h d" "q \<in> set (roundOf d r)" "p \<in> set (roundOf d r')" "r' < r"
  shows "StrongPath str h d q p = Panic" "Path str h d q p = Panic"
proof -
  obtain v where v: "h q = Some v" "VRound v = r" "Exist str h d v = Ok True" using closed_Exist [OF assms(1,2)] .
  obtain u where u: "h p = Some u" "VRound u = r'" "Exist str h d u = Ok True" using closed_Exist [OF assms(1,3)] .
  show "StrongPath str h d q p = Panic" "Path str h d q p = Panic"
    using u v assms(4) by (simp_all add: StrongPath.simps Path_def deref_def searchLoop_start)
qed

lemma leaderLoop_Some: "leaderLoop h leader ps = Ok (Some p) \<Longrightarrow> p \<in> set ps"
  by (induction ps) (auto simp: bindO_eq_Ok split: if_splits)

lemma leaderLoop_Ok: "\<forall>p\<in>set ps. h p \<noteq> None \<Longrightarrow> \<exists>ldr. leaderLoop h leader ps = Ok ldr"
  by (induction ps) (auto simp: deref_def)

text \<open>
  A node that was just made has no buffer to deliver into, and no graph to add to.
\<close>

lemma newNode_panics:
  assumes "h vp = Some v"
  shows "length (StrongEdges v) \<ge> 2 * F + 1 \<Longrightarrow> RDeliver vp r source h newNode = Panic" "AddVertex h vp newNode = Panic"
  using assms by (simp_all add: RDeliver_def AddVertex_def deref_def newNode_def)

lemma CreateNewVertex_never: "CreateNewVertex str r h bs nd \<noteq> Some (Ok x)"
  by (cases "blocksToPropose nd = []") (simp_all add: CreateNewVertex_def pop_nonempty)

section \<open>Properties\<close>

text \<open>
  C31: A turn over the buffer only extends the graph, with vertices of the buffer whose round has
  been reached, and keeps it closed: every strong edge of a vertex in the graph leads to a vertex
  of a positive round in the graph.
\<close>

theorem sweep_closed:
  assumes "sweep str h vps nd = Ok nd'" "closed str h (dagRound nd)"
  shows "closed str h (dagRound nd') \<and> round nd' = round nd \<and>
    (\<forall>r. \<exists>ys. roundOf (dagRound nd') r = roundOf (dagRound nd) r @ ys \<and> set ys \<subseteq> set vps \<and> (ys \<noteq> [] \<longrightarrow> r \<le> round nd))"
  using assms
proof (induction vps arbitrary: nd)
  case (Cons vp vps)
  from Cons.prems(1) obtain v where v: "h vp = Some v" by (auto simp: deref_def bindO_eq_Ok split: option.splits)
  show ?case
  proof (cases "VRound v \<le> round nd \<and> VerifyEdges str h nd v = Ok True")
    case True
    with Cons.prems(1) v obtain nd1 where nd1: "AddVertex h vp nd = Ok nd1"
      "sweep str h vps (nd1\<lparr>buffer := map_option (removeAll vp) (buffer nd1)\<rparr>) = Ok nd'"
      by (auto simp: deref_def bindO_eq_Ok)
    have "closed str h (dagRound nd1)" by (rule closed_AddVertex [OF Cons.prems(2) _ v nd1(1)]) (use True in simp)
    then have IH: "closed str h (dagRound nd')" "round nd' = round nd1"
      "\<exists>ys. roundOf (dagRound nd') r = roundOf (dagRound nd1) r @ ys \<and> set ys \<subseteq> set vps \<and> (ys \<noteq> [] \<longrightarrow> r \<le> round nd1)" for r
      using Cons.IH [OF nd1(2)] by simp_all
    have "\<exists>ys. roundOf (dagRound nd') r = roundOf (dagRound nd) r @ ys \<and> set ys \<subseteq> set (vp # vps) \<and> (ys \<noteq> [] \<longrightarrow> r \<le> round nd)" for r
    proof -
      obtain ys where "roundOf (dagRound nd') r = roundOf (dagRound nd1) r @ ys" "set ys \<subseteq> set vps" "ys \<noteq> [] \<longrightarrow> r \<le> round nd1"
        using IH(3) by blast
      then show ?thesis
        using AddVertex_round [OF nd1(1) v] True by (intro exI [of _ "(if r = VRound v then [vp] else []) @ ys"]) auto
    qed
    with IH AddVertex_round(2) [OF nd1(1) v] show ?thesis by simp
  next
    case False
    with Cons.prems(1) v have "sweep str h vps nd = Ok nd'"
      by (auto simp: deref_def bindO_eq_Ok split: if_splits)
    from Cons.IH [OF this Cons.prems(2)] show ?thesis by fastforce
  qed
qed simp

text \<open>
  C40: No wave is ever decided. Over a closed graph the evaluation of a wave leaves the node as it
  is when the first round of the wave has no vertex of the leader or its last round is empty, and
  panics in every other case, since the search for a path takes a vertex from its stack.
\<close>

theorem WaveReady_undecided:
  assumes "closed str h (dagRound nd)"
  shows "WaveReady str rounds h nd w =
    (if GetWaveVertexLeader h nd w = Ok None \<or> roundOf (dagRound nd) (w * WaveSize) = [] then Ok (h, nd) else Panic)"
proof -
  have "\<forall>p\<in>set (roundOf (dagRound nd) r). h p \<noteq> None" for r using assms unfolding closed_def by blast
  then have "\<exists>ldr. GetWaveVertexLeader h nd w = Ok ldr"
    unfolding GetWaveVertexLeader_def by (blast intro: leaderLoop_Ok)
  then consider "GetWaveVertexLeader h nd w = Ok None" | vp where "GetWaveVertexLeader h nd w = Ok (Some vp)"
    by (metis option.exhaust)
  then show ?thesis
  proof cases
    case (2 vp)
    show ?thesis
    proof (cases "roundOf (dagRound nd) (w * WaveSize)")
      case (Cons q qs)
      have "vp \<in> set (roundOf (dagRound nd) ((w - 1) * WaveSize + 1))"
        using 2 leaderLoop_Some unfolding GetWaveVertexLeader_def by blast
      moreover have "q \<in> set (roundOf (dagRound nd) (w * WaveSize))" using Cons by simp
      ultimately have "StrongPath str h (dagRound nd) q vp = Panic"
        by (intro StrongPath_Panic(1) [OF assms]) (auto simp: WaveSize_def)
      with 2 Cons show ?thesis by (simp add: WaveReady_def)
    qed (use 2 in \<open>simp add: WaveReady_def\<close>)
  qed (simp add: WaveReady_def)
qed

section \<open>Witnesses\<close>

definition demoVertex :: "int \<Rightarrow> vref list \<Rightarrow> Vertex" where
  "demoVertex r es = \<lparr>VRound = r, Source = [], VBlock = None, StrongEdges = es, WeakEdges = [], delivered = False\<rparr>"

definition demoHeap :: heap where
  "demoHeap = [1 \<mapsto> demoVertex 1 [], 4 \<mapsto> demoVertex 4 [1, 1, 1]]"

definition demoNode :: Node where
  "demoNode = newNode\<lparr>dagRound := Some ((\<lambda>_. [])(1 := [1])), round := 4, buffer := Some [4]\<rparr>"

definition sweptNode :: Node where
  "sweptNode = demoNode\<lparr>dagRound := Some ((\<lambda>_. [])(1 := [1], 4 := [4])), buffer := Some []\<rparr>"

lemma demo_closed: "closed str demoHeap (dagRound demoNode)" "closed str demoHeap (dagRound sweptNode)"
  by (auto simp: closed_def inDag_def demoNode_def sweptNode_def demoHeap_def demoVertex_def roundOf_def)

lemma demo_sweep: "sweep str demoHeap [4] demoNode = Ok sweptNode"
  by (simp add: demoHeap_def demoNode_def demoVertex_def sweptNode_def deref_def VerifyEdges_def Exist_def AddVertex_def
      roundOf_def newNode_def fun_upd_twist)

theorem sweep_closed_witness:
  "sweep (\<lambda>a. a) demoHeap [4] demoNode = Ok sweptNode \<and> closed (\<lambda>a. a) demoHeap (dagRound sweptNode)"
  using sweep_closed [OF demo_sweep demo_closed(1)] demo_sweep by blast

theorem WaveReady_undecided_witness: "WaveReady (\<lambda>a. a) [1, 4] demoHeap sweptNode 1 = Panic"
proof -
  have "GetWaveVertexLeader demoHeap sweptNode 1 = Ok (Some 1)"
    by (simp add: GetWaveVertexLeader_def ChooseLeader_def WaveSize_def roundOf_def sweptNode_def demoHeap_def demoVertex_def deref_def)
  moreover have "roundOf (dagRound sweptNode) (1 * WaveSize) \<noteq> []" by (simp add: roundOf_def sweptNode_def WaveSize_def)
  ultimately show ?thesis using WaveReady_undecided [OF demo_closed(2), of "\<lambda>a. a" "[1, 4]" 1] by simp
qed

end
